(* ===== verification/Prelude.thy ===== *)
theory Prelude
  imports Complex_Main "HOL-Library.Word" "HOL-Library.Multiset"
begin

text \<open>
  Shared vocabulary of the development: the machine types of the C++ sources
  (\<^verbatim>\<open>std::byte\<close>, \<^verbatim>\<open>std::uint8_t\<close>, \<^verbatim>\<open>std::uint64_t\<close>, \<^verbatim>\<open>char\<close>), the collections of
  rewrite rules that the component theories add to, and generic facts on lists, words and
  characters. A C++ \<^verbatim>\<open>std::string\<close> or \<^verbatim>\<open>std::string_view\<close> is a \<^typ>\<open>string\<close>, that
  is a list of bytes; a pointer that may be null is an \<^typ>\<open>'a option\<close>.
\<close>

unbundle bit_operations_syntax

type_synonym byte = "8 word"
type_synonym u8 = "8 word"
type_synonym u64 = "64 word"
type_synonym i64 = "64 word" \<comment> \<open>two's complement, read with \<open>sint\<close>\<close>

named_theorems hex_simps \<open>evaluation rules of the hexadecimal codecs\<close>
named_theorems ctx_simps \<open>accessors and updates of the trace contexts\<close>
named_theorems slot_simps \<open>rules of the thread-local context slot\<close>
named_theorems wf_intros \<open>preservation of well-formedness\<close>

section \<open>Characters\<close>

text \<open>\<^verbatim>\<open>std::tolower\<close> on an unsigned character in the default (\<^verbatim>\<open>"C"\<close>) locale.\<close>

definition ascii_lower :: "char \<Rightarrow> char" where
  "ascii_lower c =
     (let n = of_char c :: nat in if 65 \<le> n \<and> n \<le> 90 then char_of (n + 32) else c)"

section \<open>Lists\<close>

lemma concat_map_length_const:
  "(\<And>x. x \<in> set xs \<Longrightarrow> length (f x) = n) \<Longrightarrow> length (concat (map f xs)) = length xs * n"
  by (induction xs) auto

lemma take_Suc_update [simp]:
  "i < length xs \<Longrightarrow> take (Suc i) (xs[i := x]) = take i xs @ [x]"
  by (simp add: take_Suc_conv_app_nth)

lemma list_all_replicate [simp]: "list_all P (replicate n x) \<longleftrightarrow> n = 0 \<or> P x"
  by (induction n) auto

lemma replicate_eqI: "(\<And>x. x \<in> set xs \<Longrightarrow> x = a) \<Longrightarrow> length xs = n \<Longrightarrow> xs = replicate n a"
  by (metis replicate_length_same)

lemma list_ex_iff_not_all: "list_ex P xs \<longleftrightarrow> \<not> list_all (\<lambda>x. \<not> P x) xs"
  by (induction xs) auto

section \<open>Words\<close>

lemma word8_cases_lt: "unat (b :: byte) < 256"
  using unsigned_less [of b] by simp

lemma word64_lt: "unat (w :: u64) < 2 ^ 64"
  using unsigned_less [of w] by simp

text \<open>A word that equals its own right shift under exclusive or is zero: the shift loses the top
  bit, so bit \<open>n\<close> is determined by bit \<open>n + k\<close>.\<close>

lemma xor_drop_bit_eq_0:
  fixes x :: "'a::len word"
  assumes k: "0 < k" and eq: "x XOR drop_bit k x = 0"
  shows "x = 0"
proof -
  have step: "bit x n = bit x (n + k)" for n
  proof -
    have "\<not> bit (x XOR drop_bit k x) n" by (simp add: eq)
    then show ?thesis
      by (auto simp: bit_xor_iff bit_drop_bit_eq add.commute dest: bit_imp_le_length)
  qed
  have far: "bit x n = bit x (n + m * k)" for n m
  proof (induction m)
    case (Suc m)
    then show ?case using step [of "n + m * k"] by (simp add: ac_simps)
  qed simp
  have "\<not> bit x n" for n
  proof -
    have "LENGTH('a) \<le> n + LENGTH('a) * k" using k by (simp add: trans_le_add2)
    then have "\<not> bit x (n + LENGTH('a) * k)"
      using bit_imp_le_length by fastforce
    then show ?thesis using far [of n "LENGTH('a)"] by simp
  qed
  then show ?thesis by (intro bit_word_eqI) simp
qed

lemma xor_drop_bit_inj:
  fixes x y :: "'a::len word"
  assumes "0 < k" and "x XOR drop_bit k x = y XOR drop_bit k y"
  shows "x = y"
proof -
  have "(x XOR y) XOR drop_bit k (x XOR y) = (x XOR drop_bit k x) XOR (y XOR drop_bit k y)"
    by (rule bit_word_eqI) (auto simp: bit_xor_iff bit_drop_bit_eq)
  also have "\<dots> = 0" by (simp add: assms(2))
  finally have "x XOR y = 0" by (rule xor_drop_bit_eq_0 [OF assms(1)])
  then show ?thesis
    by (metis xor.assoc xor.right_neutral xor_self_eq)
qed

text \<open>Multiplication by an odd constant is injective: the constant has an inverse modulo the
  word size.\<close>

lemma mult_unit_inj:
  fixes c d x y :: "'a::len word"
  assumes "d * c = 1" and "x * c = y * c"
  shows "x = y"
proof -
  have "x * (d * c) = y * (d * c)"
    using assms(2) by (metis mult.assoc mult.commute)
  then show ?thesis by (simp add: assms(1))
qed

end
