(* ===== verification/Id_Format.thy ===== *)
theory Id_Format
  imports Prelude
begin

text \<open>
  Model of \<^verbatim>\<open>galay-tracing/common/id_format.h\<close> and \<^verbatim>\<open>id_format.cc\<close>: the hexadecimal
  codec behind \<^verbatim>\<open>TraceId\<close> and \<^verbatim>\<open>SpanId\<close>, and the SplitMix64 generator that draws random
  identifiers. Buffers are byte or character lists, a null pointer is \<^term>\<open>None\<close>, and a
  function that fills a buffer returns the buffer after the call, partial writes included.

  \<open>hex_encode\<close> and \<open>hex_decode\<close> are the abstract codec; \<open>parseHex_correct\<close> and
  \<open>formatHex_correct\<close> show that the index loops of the source implement it. The lemmas on
  \<open>nextRandom64\<close> show that the mixer is injective, so that a zero output pins down the state.
\<close>

section \<open>Definitions\<close>

definition kHexDigits :: string where
  "kHexDigits = ''0123456789abcdef''"

definition char_code :: "char \<Rightarrow> int" where
  "char_code ch = of_char ch"

definition hexValue :: "char \<Rightarrow> int" where
  "hexValue ch =
     (if char_code ch \<ge> char_code CHR ''0'' \<and> char_code ch \<le> char_code CHR ''9''
      then char_code ch - char_code CHR ''0''
      else if char_code ch \<ge> char_code CHR ''a'' \<and> char_code ch \<le> char_code CHR ''f''
      then char_code ch - char_code CHR ''a'' + 10
      else if char_code ch \<ge> char_code CHR ''A'' \<and> char_code ch \<le> char_code CHR ''F''
      then char_code ch - char_code CHR ''A'' + 10
      else - 1)"

definition hasNonZeroByte :: "byte list \<Rightarrow> nat \<Rightarrow> bool" where
  "hasNonZeroByte bytes len = list_ex (\<lambda>i. bytes ! i \<noteq> 0) [0..<len]"

text \<open>The loop of \<^verbatim>\<open>parseHex\<close>, over the remaining indices.\<close>

fun parseHex_loop :: "string \<Rightarrow> byte list \<Rightarrow> nat list \<Rightarrow> bool \<times> byte list" where
  "parseHex_loop hex out [] = (True, out)"
| "parseHex_loop hex out (i # is) =
     (let high = hexValue (hex ! (i * 2)); low = hexValue (hex ! (i * 2 + 1))
      in if high < 0 \<or> low < 0 then (False, out)
         else parseHex_loop hex (out[i := word_of_int (push_bit 4 high OR low)]) is)"

definition parseHex :: "string \<Rightarrow> byte list option \<Rightarrow> nat \<Rightarrow> bool \<times> byte list option" where
  "parseHex hex out len =
     (case out of
        None \<Rightarrow> (False, None)
      | Some buf \<Rightarrow>
          if length hex \<noteq> len * 2 then (False, Some buf)
          else map_prod id Some (parseHex_loop hex buf [0..<len]))"

fun formatHex_loop :: "byte list \<Rightarrow> string \<Rightarrow> nat list \<Rightarrow> string" where
  "formatHex_loop bytes out [] = out"
| "formatHex_loop bytes out (i # is) =
     (let value = bytes ! i
      in formatHex_loop bytes
           (out[i * 2 := kHexDigits ! unat (drop_bit 4 value),
                i * 2 + 1 := kHexDigits ! unat (value AND 0x0f)]) is)"

definition formatHex ::
  "byte list option \<Rightarrow> nat \<Rightarrow> string option \<Rightarrow> nat \<Rightarrow> bool \<times> string option" where
  "formatHex bytes byteLen out outLen =
     (case (bytes, out) of
        (Some bs, Some buf) \<Rightarrow>
          if outLen < byteLen * 2 then (False, out)
          else (True, Some (formatHex_loop bs buf [0..<byteLen]))
      | _ \<Rightarrow> (False, out))"

text \<open>The generator. The thread-local \<^verbatim>\<open>state\<close> is passed explicitly. \<open>now\<close> is the reading of the
  steady clock and \<open>counter\<close> the process-wide counter; \<open>device\<close> holds the two draws of
  \<^verbatim>\<open>std::random_device\<close>, or \<^term>\<open>None\<close> where it throws.\<close>

definition fallbackSeed :: "u64 \<Rightarrow> u64 \<Rightarrow> u64 \<times> u64" where
  "fallbackSeed now counter = (now XOR (counter + 0x9e3779b97f4a7c15), counter + 1)"

definition randomSeed :: "(32 word \<times> 32 word) option \<Rightarrow> u64 \<Rightarrow> u64 \<Rightarrow> u64 \<times> u64" where
  "randomSeed device now counter =
     (case device of
        Some (d1, d2) \<Rightarrow>
          let high = ucast d1; low = ucast d2; (fb, counter') = fallbackSeed now counter
          in (push_bit 32 high XOR low XOR fb, counter')
      | None \<Rightarrow> fallbackSeed now counter)"

definition nextRandom64 :: "u64 \<Rightarrow> u64 \<times> u64" where
  "nextRandom64 s =
     (let state = s + 0x9e3779b97f4a7c15;
          value = state;
          value = (value XOR drop_bit 30 value) * 0xbf58476d1ce4e5b9;
          value = (value XOR drop_bit 27 value) * 0x94d049bb133111eb
      in (value XOR drop_bit 31 value, state))"

text \<open>\<^verbatim>\<open>std::memcpy\<close> of a 64-bit value into a byte array on a little-endian host.\<close>

definition le_bytes :: "u64 \<Rightarrow> byte list" where
  "le_bytes w = map (\<lambda>i. ucast (drop_bit (8 * i) w)) [0..<8]"

fun fillRandom_loop :: "nat \<Rightarrow> u64 \<Rightarrow> nat \<Rightarrow> u64 \<Rightarrow> byte list \<times> u64" where
  "fillRandom_loop 0 chunk remaining s = ([], s)"
| "fillRandom_loop (Suc n) chunk remaining s =
     (let (chunk, remaining, s) =
            (if remaining = 0 then (fst (nextRandom64 s), 8, snd (nextRandom64 s))
             else (chunk, remaining, s));
          (bs, s') = fillRandom_loop n (drop_bit 8 chunk) (remaining - 1) s
      in (ucast (chunk AND 0xff) # bs, s'))"

definition fillRandomBytes :: "nat \<Rightarrow> u64 \<Rightarrow> byte list \<times> u64" where
  "fillRandomBytes N s =
     (if N = 8 then
        let (chunk, s1) = nextRandom64 s in (le_bytes chunk, s1)
      else if N = 16 then
        let (chunk1, s1) = nextRandom64 s; (chunk2, s2) = nextRandom64 s1
        in (le_bytes chunk1 @ le_bytes chunk2, s2)
      else fillRandom_loop N 0 0 s)"

text \<open>The abstract codec.\<close>

definition hex_digit :: "byte \<Rightarrow> char" where
  "hex_digit n = kHexDigits ! unat n"

fun hex_encode :: "byte list \<Rightarrow> string" where
  "hex_encode [] = []"
| "hex_encode (b # bs) = hex_digit (drop_bit 4 b) # hex_digit (b AND 0x0f) # hex_encode bs"

fun hex_decode :: "string \<Rightarrow> byte list option" where
  "hex_decode [] = Some []"
| "hex_decode [c] = None"
| "hex_decode (c1 # c2 # cs) =
     (if hexValue c1 < 0 \<or> hexValue c2 < 0 then None
      else map_option ((#) (word_of_int (push_bit 4 (hexValue c1) OR hexValue c2)))
             (hex_decode cs))"

definition is_hex :: "char \<Rightarrow> bool" where
  "is_hex ch \<longleftrightarrow> 0 \<le> hexValue ch"

text \<open>ASCII lower case on hexadecimal digits.\<close>

definition hex_lower :: "char \<Rightarrow> char" where
  "hex_lower ch = hex_digit (word_of_int (hexValue ch))"

section \<open>Hexadecimal digits\<close>

lemma unat_high_nibble: "unat (drop_bit 4 (b :: byte)) = unat b div 16"
  by (simp add: drop_bit_eq_div unat_div)

lemma unat_low_nibble: "unat ((b :: byte) AND 0x0f) = unat b mod 16"
proof -
  have "b AND 0x0f = take_bit 4 b"
    by (simp add: take_bit_eq_mask mask_eq_exp_minus_1)
  then show ?thesis
    by (simp only: unsigned_take_bit_eq) (simp add: take_bit_eq_mod)
qed

lemma nibble_bounds [simp]:
  "unat (drop_bit 4 (b :: byte)) < 16" "unat (b AND 0x0f) < 16"
  using word8_cases_lt [of b] by (simp_all add: unat_high_nibble unat_low_nibble)

lemma char_code_digits [simp]:
  "char_code CHR ''0'' = 48" "char_code CHR ''9'' = 57" "char_code CHR ''a'' = 97"
  "char_code CHR ''f'' = 102" "char_code CHR ''A'' = 65" "char_code CHR ''F'' = 70"
  by (simp_all add: char_code_def)

lemma hexValue_table: "list_all (\<lambda>n. hexValue (kHexDigits ! n) = int n) [0..<16]"
  by code_simp

lemma hexValue_digit_nat: "n < 16 \<Longrightarrow> hexValue (kHexDigits ! n) = int n"
  using hexValue_table by (simp add: list_all_iff)

lemma hexValue_hex_digit [hex_simps]: "unat n < 16 \<Longrightarrow> hexValue (hex_digit n) = int (unat n)"
  by (simp add: hex_digit_def hexValue_digit_nat)

lemma hexValue_range: "- 1 \<le> hexValue ch \<and> hexValue ch < 16"
  by (simp add: hexValue_def)

text \<open>The two nibbles of a byte: \<^verbatim>\<open>(high << 4) | low\<close> is \<open>16 * high + low\<close>.\<close>

lemma nibbles_or:
  fixes h l :: int
  assumes "0 \<le> l" "l < 16"
  shows "push_bit 4 h OR l = 16 * h + l"
proof -
  have "take_bit 4 l = l" using assms by (simp add: take_bit_eq_mod)
  then have "\<not> bit (push_bit 4 h) n \<or> \<not> bit l n" for n
    by (metis bit_push_bit_iff bit_take_bit_iff not_less)
  then have "push_bit 4 h OR l = push_bit 4 h + l"
    by (metis disjunctive_add)
  then show ?thesis by (simp add: push_bit_eq_mult)
qed

lemma unat_nibbles:
  fixes h l :: int
  assumes "0 \<le> h" "h < 16" "0 \<le> l" "l < 16"
  shows "unat (word_of_int (push_bit 4 h OR l) :: byte) = nat (16 * h + l)"
  unfolding nibbles_or [OF assms(3,4)] unsigned_of_int
  using assms by (simp add: take_bit_eq_mod)

lemma byte_of_nibbles:
  "word_of_int (push_bit 4 (uint (drop_bit 4 b)) OR uint (b AND 0x0f)) = (b :: byte)"
proof -
  have h: "uint (drop_bit 4 b) = int (unat b div 16)" and l: "uint (b AND 0x0f) = int (unat b mod 16)"
    by (simp_all only: unat_high_nibble [symmetric] unat_low_nibble [symmetric] of_nat_unat)
  have "unat (word_of_int (push_bit 4 (uint (drop_bit 4 b)) OR uint (b AND 0x0f)) :: byte)
      = nat (16 * int (unat b div 16) + int (unat b mod 16))"
    unfolding h l using word8_cases_lt [of b] by (intro unat_nibbles) linarith+
  also have "\<dots> = unat b"
    by (metis mult_div_mod_eq nat_int of_nat_add of_nat_mult of_nat_numeral)
  finally show ?thesis by (simp only: word_unat_eq_iff)
qed

lemma digits_of_nibbles:
  fixes h l :: int
  assumes "0 \<le> h" "h < 16" "0 \<le> l" "l < 16"
  shows "hex_digit (drop_bit 4 (word_of_int (push_bit 4 h OR l))) = hex_digit (word_of_int h)"
    and "hex_digit (word_of_int (push_bit 4 h OR l) AND 0x0f) = hex_digit (word_of_int l)"
proof -
  have "unat (word_of_int h :: byte) = nat h" "unat (word_of_int l :: byte) = nat l"
    using assms by (simp_all add: unsigned_of_int take_bit_eq_mod)
  moreover have "nat (16 * h + l) = nat h * 16 + nat l"
    using assms by (simp add: nat_add_distrib nat_mult_distrib)
  then have "nat (16 * h + l) div 16 = nat h" "nat (16 * h + l) mod 16 = nat l"
    using assms by simp_all
  ultimately show "hex_digit (drop_bit 4 (word_of_int (push_bit 4 h OR l))) = hex_digit (word_of_int h)"
    and "hex_digit (word_of_int (push_bit 4 h OR l) AND 0x0f) = hex_digit (word_of_int l)"
    by (simp_all only: hex_digit_def unat_high_nibble unat_low_nibble unat_nibbles [OF assms])
qed

section \<open>The abstract codec\<close>

lemma length_hex_encode [simp]: "length (hex_encode bs) = 2 * length bs"
  by (induction bs) auto

theorem hex_decode_encode [simp]: "hex_decode (hex_encode bs) = Some bs"
  by (induction bs) (simp_all add: hexValue_hex_digit byte_of_nibbles)

lemma hex_decode_length: "hex_decode s = Some bs \<Longrightarrow> length s = 2 * length bs"
  by (induction s arbitrary: bs rule: hex_decode.induct) (auto split: if_splits)

text \<open>On hexadecimal digits the canonical digit is the ASCII lower case of the character.\<close>

lemma is_hex_code:
  "is_hex c \<longleftrightarrow> char_code c \<in> {48..57} \<or> char_code c \<in> {97..102} \<or> char_code c \<in> {65..70}"
  by (auto simp: is_hex_def hexValue_def)

lemma hex_chars_codes:
  "map of_char ''0123456789abcdefABCDEF'' = [48..<(58::nat)] @ [97..<103] @ [65..<71]"
  by (simp add: upt_rec)

lemma is_hex_chars: "is_hex c \<Longrightarrow> c \<in> set ''0123456789abcdefABCDEF''"
proof -
  assume hex: "is_hex c"
  define n :: nat where "n = of_char c"
  have code: "char_code c = int n" by (simp add: char_code_def n_def of_nat_of_char)
  have "n \<in> set ([48..<58] @ [97..<103] @ [65..<71])"
    using hex unfolding is_hex_code code set_append set_upt Un_iff atLeastLessThan_iff atLeastAtMost_iff
    by (elim disjE) simp_all
  then have "of_char c \<in> set ([48..<(58::nat)] @ [97..<103] @ [65..<71])"
    unfolding n_def .
  then have "of_char c \<in> (of_char :: char \<Rightarrow> nat) ` set ''0123456789abcdefABCDEF''"
    unfolding hex_chars_codes [symmetric] set_map .
  then show ?thesis by (rule inj_image_mem_iff [OF inj_of_char, THEN iffD1])
qed

lemma hex_lower_table: "list_all (\<lambda>c. hex_lower c = ascii_lower c) ''0123456789abcdefABCDEF''"
  by code_simp

lemma hex_lower_ascii: "is_hex c \<Longrightarrow> hex_lower c = ascii_lower c"
  using hex_lower_table is_hex_chars by (auto simp only: list_all_iff)

lemma hex_encode_decode: "hex_decode s = Some bs \<Longrightarrow> hex_encode bs = map ascii_lower s"
proof (induction s arbitrary: bs rule: hex_decode.induct)
  case (3 c1 c2 cs)
  then obtain bs' where nonneg: "0 \<le> hexValue c1" "0 \<le> hexValue c2"
    and bs': "hex_decode cs = Some bs'"
    and bs: "bs = word_of_int (push_bit 4 (hexValue c1) OR hexValue c2) # bs'"
    by (auto split: if_splits)
  have "hex_encode bs' = map ascii_lower cs" using "3.IH" nonneg bs' by simp
  moreover have "ascii_lower c1 = hex_lower c1" "ascii_lower c2 = hex_lower c2"
    using nonneg by (simp_all add: hex_lower_ascii is_hex_def)
  ultimately show ?case
    using nonneg hexValue_range [of c1] hexValue_range [of c2]
    by (simp add: bs hex_lower_def digits_of_nibbles)
qed auto

lemma hex_decode_None_iff: "hex_decode s = None \<longleftrightarrow> odd (length s) \<or> \<not> list_all is_hex s"
  by (induction s rule: hex_decode.induct) (auto simp: is_hex_def)

lemma hex_encode_inj: "hex_encode bs = hex_encode bs' \<Longrightarrow> bs = bs'"
  by (metis hex_decode_encode option.inject)

lemma hexValue_hex_lower: "is_hex c \<Longrightarrow> hexValue (hex_lower c) = hexValue c"
  using hexValue_range [of c]
  by (simp add: hex_lower_def is_hex_def hexValue_hex_digit unsigned_of_int take_bit_eq_mod)

section \<open>The loops implement the codec\<close>

lemma hasNonZeroByte_iff: "hasNonZeroByte bytes (length bytes) \<longleftrightarrow> (\<exists>b \<in> set bytes. b \<noteq> 0)"
  by (auto simp: hasNonZeroByte_def list_ex_iff Bex_def in_set_conv_nth)

lemma parseHex_loop_decode:
  assumes "length hex = len * 2" "length out = len" "k \<le> len"
  shows "case hex_decode (drop (k * 2) hex) of
           None \<Rightarrow> \<not> fst (parseHex_loop hex out [k..<len])
         | Some bs \<Rightarrow> parseHex_loop hex out [k..<len] = (True, take k out @ bs)"
  using assms(2,3)
proof (induction "len - k" arbitrary: k out)
  case 0
  then show ?case using assms(1) by simp
next
  case (Suc d)
  then have k: "k < len" by simp
  let ?h = "hex ! (k * 2)" and ?l = "hex ! (k * 2 + 1)"
  have drop: "drop (k * 2) hex = ?h # ?l # drop (Suc k * 2) hex"
    using k assms(1) by (simp add: Cons_nth_drop_Suc)
  have upt: "[k..<len] = k # [Suc k..<len]" using k by (simp add: upt_conv_Cons)
  let ?out = "out[k := word_of_int (push_bit 4 (hexValue ?h) OR hexValue ?l)]"
  have IH: "case hex_decode (drop (Suc k * 2) hex) of
           None \<Rightarrow> \<not> fst (parseHex_loop hex ?out [Suc k..<len])
         | Some bs \<Rightarrow> parseHex_loop hex ?out [Suc k..<len] = (True, take (Suc k) ?out @ bs)"
    using Suc.hyps(2) Suc.prems k by (intro Suc.hyps(1)) auto
  show ?case
    using IH k Suc.prems by (auto simp: drop upt Let_def split: option.splits)
qed

theorem parseHex_correct:
  assumes "length out = len"
  shows "fst (parseHex hex (Some out) len) \<longleftrightarrow> length hex = len * 2 \<and> hex_decode hex \<noteq> None"
    and "fst (parseHex hex (Some out) len) \<Longrightarrow> snd (parseHex hex (Some out) len) = hex_decode hex"
  using parseHex_loop_decode [of hex len out 0] assms
  by (auto simp: parseHex_def split: option.splits)

lemma formatHex_loop_encode:
  assumes "length bytes = n" "n * 2 \<le> length out" "k \<le> n"
  shows "formatHex_loop bytes out [k..<n]
         = take (k * 2) out @ hex_encode (drop k bytes) @ drop (n * 2) out"
  using assms(2,3)
proof (induction "n - k" arbitrary: k out)
  case 0
  then show ?case using assms(1) by simp
next
  case (Suc d)
  then have k: "k < n" by simp
  let ?b = "bytes ! k"
  let ?out = "out[k * 2 := hex_digit (drop_bit 4 ?b), Suc (k * 2) := hex_digit (?b AND 0x0f)]"
  have upt: "[k..<n] = k # [Suc k..<n]" using k by (simp add: upt_conv_Cons)
  have dropb: "drop k bytes = ?b # drop (Suc k) bytes"
    using k assms(1) by (simp add: Cons_nth_drop_Suc)
  have taken: "take (Suc (Suc (k * 2))) ?out
      = take (k * 2) out @ [hex_digit (drop_bit 4 ?b), hex_digit (?b AND 0x0f)]"
    using k Suc.prems by (simp add: take_Suc_conv_app_nth list_update_append)
  have "formatHex_loop bytes ?out [Suc k..<n]
      = take (Suc k * 2) ?out @ hex_encode (drop (Suc k) bytes) @ drop (n * 2) ?out"
    using Suc.hyps(2) Suc.prems k by (intro Suc.hyps(1)) auto
  also have "drop (n * 2) ?out = drop (n * 2) out" using k by simp
  finally show ?case
    by (simp add: upt taken dropb Let_def flip: hex_digit_def)
qed

theorem formatHex_correct:
  assumes "length bytes = n" "n * 2 \<le> length out"
  shows "formatHex (Some bytes) n (Some out) (length out)
         = (True, Some (hex_encode bytes @ drop (n * 2) out))"
  using assms formatHex_loop_encode [of bytes n out 0]
  by (simp add: formatHex_def)

lemma formatHex_too_small:
  "outLen < n * 2 \<Longrightarrow> formatHex bytes n out outLen = (False, out)"
  by (simp add: formatHex_def split: option.splits)

section \<open>The random number generator\<close>

text \<open>The finaliser of SplitMix64, as a function of the advanced state.\<close>

definition mix64 :: "u64 \<Rightarrow> u64" where
  "mix64 z =
     (let v = (z XOR drop_bit 30 z) * 0xbf58476d1ce4e5b9;
          v = (v XOR drop_bit 27 v) * 0x94d049bb133111eb
      in v XOR drop_bit 31 v)"

lemma nextRandom64_eq: "nextRandom64 s = (mix64 (s + 0x9e3779b97f4a7c15), s + 0x9e3779b97f4a7c15)"
  by (simp add: nextRandom64_def mix64_def Let_def)

lemma mix64_inverses:
  "(0x96de1b173f119089 :: u64) * 0xbf58476d1ce4e5b9 = 1"
  "(0x319642b2d24d8ec3 :: u64) * 0x94d049bb133111eb = 1"
  by simp_all

lemma mix64_inj: "mix64 x = mix64 y \<Longrightarrow> x = y"
  unfolding mix64_def Let_def
  by (drule xor_drop_bit_inj [rotated], simp, drule mult_unit_inj [OF mix64_inverses(2)],
      drule xor_drop_bit_inj [rotated], simp, drule mult_unit_inj [OF mix64_inverses(1)],
      drule xor_drop_bit_inj [rotated], simp)

lemma mix64_0: "mix64 0 = 0"
  by (simp add: mix64_def)

lemma mix64_eq_0_iff [simp]: "mix64 z = 0 \<longleftrightarrow> z = 0"
  using mix64_inj [of z 0] mix64_0 by auto

lemma length_le_bytes [simp]: "length (le_bytes w) = 8"
  by (simp add: le_bytes_def)

lemma le_bytes_inj: "le_bytes v = le_bytes w \<Longrightarrow> v = w"
proof (rule bit_word_eqI)
  fix n assume eq: "le_bytes v = le_bytes w" and n: "n < LENGTH(64)"
  then have i: "n div 8 < 8" by (simp add: div_less_iff_less_mult)
  from eq have "le_bytes v ! (n div 8) = le_bytes w ! (n div 8)" by simp
  then have "(ucast (drop_bit (8 * (n div 8)) v) :: byte) = ucast (drop_bit (8 * (n div 8)) w)"
    using i by (simp add: le_bytes_def)
  then have "bit (ucast (drop_bit (8 * (n div 8)) v) :: byte) (n mod 8)
           = bit (ucast (drop_bit (8 * (n div 8)) w) :: byte) (n mod 8)" by simp
  then show "bit v n = bit w n"
    using n by (simp add: bit_unsigned_iff bit_drop_bit_eq)
qed

lemma le_bytes_0: "le_bytes 0 = replicate 8 0"
  by (simp add: le_bytes_def map_replicate_const)

lemma le_bytes_zero_iff: "(\<forall>b \<in> set (le_bytes w). b = 0) \<longleftrightarrow> w = 0"
proof
  assume "\<forall>b \<in> set (le_bytes w). b = 0"
  then have "le_bytes w = le_bytes 0" unfolding le_bytes_0 by (intro replicate_eqI) auto
  then show "w = 0" by (rule le_bytes_inj)
qed (simp add: le_bytes_0)

lemma fillRandomBytes_8: "fillRandomBytes 8 s = (le_bytes (fst (nextRandom64 s)), snd (nextRandom64 s))"
  by (simp add: fillRandomBytes_def split_beta)

lemma fillRandomBytes_16:
  "fillRandomBytes 16 s =
     (le_bytes (fst (nextRandom64 s)) @ le_bytes (fst (nextRandom64 (snd (nextRandom64 s)))),
      snd (nextRandom64 (snd (nextRandom64 s))))"
  by (simp add: fillRandomBytes_def split_beta Let_def)

lemma length_fillRandom_loop: "length (fst (fillRandom_loop n chunk r s)) = n"
  by (induction n arbitrary: chunk r s) (auto simp: Let_def split_beta)

lemma length_fillRandomBytes [simp]: "length (fst (fillRandomBytes N s)) = N"
  by (simp add: fillRandomBytes_def length_fillRandom_loop split_beta Let_def)

lemma fill8_zero_iff:
  "hasNonZeroByte (fst (fillRandomBytes 8 s)) 8 \<longleftrightarrow> s + 0x9e3779b97f4a7c15 \<noteq> 0"
proof -
  have "hasNonZeroByte (fst (fillRandomBytes 8 s)) 8 \<longleftrightarrow> (\<exists>b \<in> set (fst (fillRandomBytes 8 s)). b \<noteq> 0)"
    using hasNonZeroByte_iff [of "fst (fillRandomBytes 8 s)"] by simp
  then show ?thesis
    using le_bytes_zero_iff [of "mix64 (s + 0x9e3779b97f4a7c15)"]
    by (simp add: fillRandomBytes_8 nextRandom64_eq) blast
qed

lemma fill16_nonzero: "hasNonZeroByte (fst (fillRandomBytes 16 s)) 16"
proof -
  have "t = 0 \<Longrightarrow> t + 0x9e3779b97f4a7c15 \<noteq> 0" for t :: u64 by simp
  then have two: "s + 0x9e3779b97f4a7c15 \<noteq> 0 \<or> s + 0x9e3779b97f4a7c15 + 0x9e3779b97f4a7c15 \<noteq> 0"
    by blast
  have "hasNonZeroByte (fst (fillRandomBytes 16 s)) 16 \<longleftrightarrow>
      (\<exists>b \<in> set (fst (fillRandomBytes 16 s)). b \<noteq> 0)"
    using hasNonZeroByte_iff [of "fst (fillRandomBytes 16 s)"] by simp
  then show ?thesis
    using two le_bytes_zero_iff [of "mix64 (s + 0x9e3779b97f4a7c15)"]
      le_bytes_zero_iff [of "mix64 (s + 0x9e3779b97f4a7c15 + 0x9e3779b97f4a7c15)"]
    by (simp add: fillRandomBytes_16 nextRandom64_eq bex_Un) blast
qed

end
