(* ===== verification/Ids.thy ===== *)
theory Ids
  imports Id_Format
begin

text \<open>
  Model of \<^verbatim>\<open>galay-tracing/common/trace_id.h\<close> and \<^verbatim>\<open>span_id.h\<close> and of the random
  constructors of \<^verbatim>\<open>id_format.cc\<close>. An identifier is a record that holds its byte array; the
  fixed length of the \<^verbatim>\<open>std::array\<close> is the well-formedness predicate \<open>TraceId_wf\<close> or
  \<open>SpanId_wf\<close>, which every constructor establishes.

  The locale \<open>hex_id\<close> is the contract of an identifier with a hexadecimal text form. Its client
  lemmas (validity of a parsed text, both round trips) are proved once and are interpreted for
  both classes.
\<close>

section \<open>TraceId\<close>

record TraceId =
  tid_bytes :: "byte list"

definition TraceId_kByteLength :: nat where
  "TraceId_kByteLength = 16"

definition TraceId_kHexLength :: nat where
  "TraceId_kHexLength = TraceId_kByteLength * 2"

definition TraceId_zero :: TraceId where
  "TraceId_zero = \<lparr>tid_bytes = replicate TraceId_kByteLength 0\<rparr>"

definition TraceId_isValid :: "TraceId \<Rightarrow> bool" where
  "TraceId_isValid xid = hasNonZeroByte (tid_bytes xid) (length (tid_bytes xid))"

definition TraceId_fromHex :: "string \<Rightarrow> TraceId" where
  "TraceId_fromHex hex =
     (let xid = TraceId_zero
      in case parseHex hex (Some (tid_bytes xid)) (length (tid_bytes xid)) of
           (True, Some out) \<Rightarrow>
             let xid = xid\<lparr>tid_bytes := out\<rparr> in if \<not> TraceId_isValid xid then TraceId_zero else xid
         | _ \<Rightarrow> TraceId_zero)"

definition TraceId_toHex_into :: "TraceId \<Rightarrow> string option \<Rightarrow> nat \<Rightarrow> bool \<times> string option" where
  "TraceId_toHex_into xid out len =
     formatHex (Some (tid_bytes xid)) (length (tid_bytes xid)) out len"

definition TraceId_toHex :: "TraceId \<Rightarrow> string" where
  "TraceId_toHex xid =
     (let hex = replicate TraceId_kHexLength CHR 0x00
      in case TraceId_toHex_into xid (Some hex) (length hex) of (_, Some hex') \<Rightarrow> hex' | _ \<Rightarrow> hex)"

definition TraceId_toHexArray :: "TraceId \<Rightarrow> string" where
  "TraceId_toHexArray xid =
     (let hex = replicate TraceId_kHexLength CHR 0x00
      in case TraceId_toHex_into xid (Some hex) (length hex) of (_, Some hex') \<Rightarrow> hex' | _ \<Rightarrow> hex)"

definition TraceId_wf :: "TraceId \<Rightarrow> bool" where
  "TraceId_wf xid \<longleftrightarrow> length (tid_bytes xid) = TraceId_kByteLength"

section \<open>SpanId\<close>

record SpanId =
  sid_bytes :: "byte list"

definition SpanId_kByteLength :: nat where
  "SpanId_kByteLength = 8"

definition SpanId_kHexLength :: nat where
  "SpanId_kHexLength = SpanId_kByteLength * 2"

definition SpanId_zero :: SpanId where
  "SpanId_zero = \<lparr>sid_bytes = replicate SpanId_kByteLength 0\<rparr>"

definition SpanId_isValid :: "SpanId \<Rightarrow> bool" where
  "SpanId_isValid xid = hasNonZeroByte (sid_bytes xid) (length (sid_bytes xid))"

definition SpanId_fromHex :: "string \<Rightarrow> SpanId" where
  "SpanId_fromHex hex =
     (let xid = SpanId_zero
      in case parseHex hex (Some (sid_bytes xid)) (length (sid_bytes xid)) of
           (True, Some out) \<Rightarrow>
             let xid = xid\<lparr>sid_bytes := out\<rparr> in if \<not> SpanId_isValid xid then SpanId_zero else xid
         | _ \<Rightarrow> SpanId_zero)"

definition SpanId_toHex_into :: "SpanId \<Rightarrow> string option \<Rightarrow> nat \<Rightarrow> bool \<times> string option" where
  "SpanId_toHex_into xid out len =
     formatHex (Some (sid_bytes xid)) (length (sid_bytes xid)) out len"

definition SpanId_toHex :: "SpanId \<Rightarrow> string" where
  "SpanId_toHex xid =
     (let hex = replicate SpanId_kHexLength CHR 0x00
      in case SpanId_toHex_into xid (Some hex) (length hex) of (_, Some hex') \<Rightarrow> hex' | _ \<Rightarrow> hex)"

definition SpanId_toHexArray :: "SpanId \<Rightarrow> string" where
  "SpanId_toHexArray xid =
     (let hex = replicate SpanId_kHexLength CHR 0x00
      in case SpanId_toHex_into xid (Some hex) (length hex) of (_, Some hex') \<Rightarrow> hex' | _ \<Rightarrow> hex)"

definition SpanId_wf :: "SpanId \<Rightarrow> bool" where
  "SpanId_wf xid \<longleftrightarrow> length (sid_bytes xid) = SpanId_kByteLength"

section \<open>Random identifiers\<close>

text \<open>The \<^verbatim>\<open>do ... while\<close> loops of \<^verbatim>\<open>makeRandomTraceId\<close> and \<^verbatim>\<open>makeRandomSpanId\<close>. They
  terminate: a trace id never needs a second round, and a span id needs one only when the
  generator passes through the state whose successor is zero.\<close>

function makeRandomTraceId :: "u64 \<Rightarrow> TraceId \<times> u64" where
  "makeRandomTraceId s =
     (let (bytes, s') = fillRandomBytes TraceId_kByteLength s
      in if hasNonZeroByte bytes (length bytes) then (\<lparr>tid_bytes = bytes\<rparr>, s')
         else makeRandomTraceId s')"
  by pat_completeness auto
termination
  by (relation "measure (\<lambda>_. 0)")
    (use fill16_nonzero length_fillRandomBytes in
      \<open>auto simp: TraceId_kByteLength_def, metis fst_conv\<close>)

function makeRandomSpanId :: "u64 \<Rightarrow> SpanId \<times> u64" where
  "makeRandomSpanId s =
     (let (bytes, s') = fillRandomBytes SpanId_kByteLength s
      in if hasNonZeroByte bytes (length bytes) then (\<lparr>sid_bytes = bytes\<rparr>, s')
         else makeRandomSpanId s')"
  by pat_completeness auto
termination
proof (relation "measure (\<lambda>s. if s + 0x9e3779b97f4a7c15 = 0 then 1 else 0)")
  fix s :: u64 and x bytes s'
  assume "x = fillRandomBytes SpanId_kByteLength s" "(bytes, s') = x"
    "\<not> hasNonZeroByte bytes (length bytes)"
  then have fill: "fillRandomBytes 8 s = (bytes, s')"
    and zero: "\<not> hasNonZeroByte bytes (length bytes)"
    by (auto simp: SpanId_kByteLength_def)
  moreover have "length bytes = 8" using length_fillRandomBytes [of 8 s] fill by simp
  ultimately have "s + 0x9e3779b97f4a7c15 = 0" and "s' = s + 0x9e3779b97f4a7c15"
    using fill8_zero_iff [of s] by (auto simp: fillRandomBytes_8 nextRandom64_eq)
  then show "(s', s) \<in> measure (\<lambda>s. if s + 0x9e3779b97f4a7c15 = 0 then 1 else 0)"
    by simp
qed simp

declare makeRandomTraceId.simps [simp del] makeRandomSpanId.simps [simp del]

definition TraceId_random :: "u64 \<Rightarrow> TraceId \<times> u64" where
  "TraceId_random = makeRandomTraceId"

definition SpanId_random :: "u64 \<Rightarrow> SpanId \<times> u64" where
  "SpanId_random = makeRandomSpanId"

section \<open>The contract of an identifier with a hexadecimal form\<close>

lemma hex_decode_nonzero_iff:
  "hex_decode s = Some bs \<Longrightarrow> (\<exists>b \<in> set bs. b \<noteq> 0) \<longleftrightarrow> (\<exists>c \<in> set s. hexValue c \<noteq> 0)"
proof (induction s arbitrary: bs rule: hex_decode.induct)
  case (3 c1 c2 cs)
  then obtain bs' where nonneg: "0 \<le> hexValue c1" "0 \<le> hexValue c2"
    and bs': "hex_decode cs = Some bs'"
    and bs: "bs = word_of_int (push_bit 4 (hexValue c1) OR hexValue c2) # bs'"
    by (auto split: if_splits)
  have "unat (word_of_int (push_bit 4 (hexValue c1) OR hexValue c2) :: byte)
      = nat (16 * hexValue c1 + hexValue c2)"
    using nonneg hexValue_range [of c1] hexValue_range [of c2] by (intro unat_nibbles) auto
  then have "(word_of_int (push_bit 4 (hexValue c1) OR hexValue c2) :: byte) = 0 \<longleftrightarrow>
      hexValue c1 = 0 \<and> hexValue c2 = 0"
    using nonneg by (auto simp: unat_eq_0 [symmetric])
  with "3.IH" nonneg bs' bs show ?case by auto
qed auto

locale hex_id =
  fixes nbytes :: nat
    and mk :: "byte list \<Rightarrow> 'id"
    and bytes :: "'id \<Rightarrow> byte list"
    and from_hex :: "string \<Rightarrow> 'id"
    and to_hex :: "'id \<Rightarrow> string"
    and valid :: "'id \<Rightarrow> bool"
    and zero :: 'id
    and wf :: "'id \<Rightarrow> bool"
  assumes bytes_mk: "bytes (mk bs) = bs"
    and mk_bytes: "mk (bytes i) = i"
    and wf_iff: "wf i \<longleftrightarrow> length (bytes i) = nbytes"
    and bytes_zero: "bytes zero = replicate nbytes 0"
    and valid_iff: "valid i \<longleftrightarrow> (\<exists>b \<in> set (bytes i). b \<noteq> 0)"
    and to_hex_bytes: "wf i \<Longrightarrow> to_hex i = hex_encode (bytes i)"
    and from_hex_decode:
      "from_hex s =
         (case hex_decode s of
            Some bs \<Rightarrow> if length bs = nbytes \<and> valid (mk bs) then mk bs else zero
          | None \<Rightarrow> zero)"
begin

lemma wf_zero: "wf zero"
  by (simp add: wf_iff bytes_zero)

lemma not_valid_zero: "\<not> valid zero"
  by (simp add: valid_iff bytes_zero)

lemma wf_from_hex: "wf (from_hex s)"
  by (auto simp: from_hex_decode wf_iff bytes_mk bytes_zero split: option.splits)

lemma length_to_hex: "wf i \<Longrightarrow> length (to_hex i) = 2 * nbytes"
  by (simp add: to_hex_bytes wf_iff)

lemma from_hex_to_hex: "wf i \<Longrightarrow> valid i \<Longrightarrow> from_hex (to_hex i) = i"
  by (simp add: to_hex_bytes from_hex_decode wf_iff mk_bytes)

lemma to_hex_inj: "wf i \<Longrightarrow> wf j \<Longrightarrow> to_hex i = to_hex j \<Longrightarrow> i = j"
  by (metis hex_encode_inj mk_bytes to_hex_bytes)

lemma valid_from_hex_iff:
  "valid (from_hex s) \<longleftrightarrow>
     length s = 2 * nbytes \<and> list_all is_hex s \<and> (\<exists>c \<in> set s. hexValue c \<noteq> 0)"
proof (cases "hex_decode s")
  case None
  then have "odd (length s) \<or> \<not> list_all is_hex s" by (simp add: hex_decode_None_iff)
  with None show ?thesis by (auto simp: from_hex_decode not_valid_zero)
next
  case (Some bs)
  then have "list_all is_hex s" using hex_decode_None_iff [of s] by auto
  with Some show ?thesis
    using hex_decode_nonzero_iff [OF Some] hex_decode_length [OF Some]
    by (auto simp: from_hex_decode bytes_zero valid_iff bytes_mk)
qed

lemma from_hex_invalid: "\<not> valid (from_hex s) \<Longrightarrow> from_hex s = zero"
  by (auto simp: from_hex_decode split: option.splits if_splits)

lemma to_hex_from_hex: "valid (from_hex s) \<Longrightarrow> to_hex (from_hex s) = map ascii_lower s"
  by (auto simp: from_hex_decode not_valid_zero to_hex_bytes wf_iff bytes_mk hex_encode_decode
      split: option.splits if_splits)

lemma to_hex_digits: "wf i \<Longrightarrow> list_all is_hex (to_hex i)"
  using hex_decode_None_iff [of "hex_encode (bytes i)"] by (auto simp: to_hex_bytes)

lemmas id_laws = wf_zero not_valid_zero wf_from_hex length_to_hex from_hex_to_hex to_hex_from_hex

end

section \<open>Both identifier classes satisfy the contract\<close>

lemma TraceId_toHex_encode: "TraceId_wf t \<Longrightarrow> TraceId_toHex t = hex_encode (tid_bytes t)"
  by (simp add: TraceId_toHex_def TraceId_toHex_into_def TraceId_wf_def TraceId_kHexLength_def
      formatHex_correct formatHex_correct [where out = "replicate _ _", simplified])

lemma SpanId_toHex_encode: "SpanId_wf t \<Longrightarrow> SpanId_toHex t = hex_encode (sid_bytes t)"
  by (simp add: SpanId_toHex_def SpanId_toHex_into_def SpanId_wf_def SpanId_kHexLength_def
      formatHex_correct formatHex_correct [where out = "replicate _ _", simplified])

lemma TraceId_valid_bytes: "TraceId_isValid t \<longleftrightarrow> (\<exists>b \<in> set (tid_bytes t). b \<noteq> 0)"
  by (simp add: TraceId_isValid_def hasNonZeroByte_iff)

lemma SpanId_valid_bytes: "SpanId_isValid t \<longleftrightarrow> (\<exists>b \<in> set (sid_bytes t). b \<noteq> 0)"
  by (simp add: SpanId_isValid_def hasNonZeroByte_iff)

text \<open>What a successful or failed \<^verbatim>\<open>parseHex\<close> leaves in the buffer of the identifier.\<close>

lemma parseHex_cases:
  assumes "length out = n"
  obtains (ok) bs where "hex_decode hex = Some bs" "length bs = n"
      "parseHex hex (Some out) n = (True, Some bs)"
  | (bad) out' where "\<And>bs. hex_decode hex = Some bs \<Longrightarrow> length bs \<noteq> n"
      "parseHex hex (Some out) n = (False, out')"
proof (cases "fst (parseHex hex (Some out) n)")
  case True
  then obtain bs where "hex_decode hex = Some bs" "length hex = n * 2"
    using parseHex_correct(1) [OF assms, of hex] by auto
  then show ?thesis
    using True parseHex_correct(2) [OF assms True] hex_decode_length [of hex bs]
    by (intro ok [of bs]) (auto simp: prod_eq_iff)
next
  case False
  then have "hex_decode hex = Some bs \<Longrightarrow> length bs \<noteq> n" for bs
    using parseHex_correct(1) [OF assms, of hex] hex_decode_length [of hex bs] by auto
  then show ?thesis
    using False by (intro bad [of "snd (parseHex hex (Some out) n)"]) (auto simp: prod_eq_iff)
qed

lemma TraceId_fromHex_decode:
  "TraceId_fromHex s =
     (case hex_decode s of
        Some bs \<Rightarrow> if length bs = TraceId_kByteLength \<and> TraceId_isValid \<lparr>tid_bytes = bs\<rparr>
                   then \<lparr>tid_bytes = bs\<rparr> else TraceId_zero
      | None \<Rightarrow> TraceId_zero)"
  by (rule parseHex_cases [of "tid_bytes TraceId_zero" TraceId_kByteLength s])
    (auto simp: TraceId_fromHex_def TraceId_zero_def split: option.splits)

lemma SpanId_fromHex_decode:
  "SpanId_fromHex s =
     (case hex_decode s of
        Some bs \<Rightarrow> if length bs = SpanId_kByteLength \<and> SpanId_isValid \<lparr>sid_bytes = bs\<rparr>
                   then \<lparr>sid_bytes = bs\<rparr> else SpanId_zero
      | None \<Rightarrow> SpanId_zero)"
  by (rule parseHex_cases [of "sid_bytes SpanId_zero" SpanId_kByteLength s])
    (auto simp: SpanId_fromHex_def SpanId_zero_def split: option.splits)

interpretation tid: hex_id TraceId_kByteLength "\<lambda>bs. \<lparr>tid_bytes = bs\<rparr>" tid_bytes
  TraceId_fromHex TraceId_toHex TraceId_isValid TraceId_zero TraceId_wf
  by unfold_locales
    (auto simp: TraceId_wf_def TraceId_zero_def TraceId_valid_bytes TraceId_toHex_encode
      TraceId_fromHex_decode)

interpretation sid: hex_id SpanId_kByteLength "\<lambda>bs. \<lparr>sid_bytes = bs\<rparr>" sid_bytes
  SpanId_fromHex SpanId_toHex SpanId_isValid SpanId_zero SpanId_wf
  by unfold_locales
    (auto simp: SpanId_wf_def SpanId_zero_def SpanId_valid_bytes SpanId_toHex_encode
      SpanId_fromHex_decode)

lemmas id_wfs [simp, wf_intros] = tid.wf_zero sid.wf_zero tid.wf_from_hex sid.wf_from_hex
lemmas id_zero_invalid [simp] = tid.not_valid_zero sid.not_valid_zero

section \<open>Random identifiers are valid and do not repeat\<close>

lemma makeRandomTraceId_eq:
  "makeRandomTraceId s = (\<lparr>tid_bytes = fst (fillRandomBytes 16 s)\<rparr>, snd (fillRandomBytes 16 s))"
  using fill16_nonzero [of s]
  by (subst makeRandomTraceId.simps) (simp add: TraceId_kByteLength_def split_beta)

lemma makeRandomSpanId_eq:
  "makeRandomSpanId s =
     (let t = (if s + 0x9e3779b97f4a7c15 = 0 then 0 else s)
      in (\<lparr>sid_bytes = le_bytes (mix64 (t + 0x9e3779b97f4a7c15))\<rparr>, t + 0x9e3779b97f4a7c15))"
proof -
  have step: "makeRandomSpanId t =
      (if t + 0x9e3779b97f4a7c15 \<noteq> 0
       then (\<lparr>sid_bytes = le_bytes (mix64 (t + 0x9e3779b97f4a7c15))\<rparr>, t + 0x9e3779b97f4a7c15)
       else makeRandomSpanId 0)" for t
  proof -
    have "hasNonZeroByte (le_bytes (mix64 (t + 0x9e3779b97f4a7c15))) 8 \<longleftrightarrow> t + 0x9e3779b97f4a7c15 \<noteq> 0"
      using fill8_zero_iff [of t] by (simp add: fillRandomBytes_8 nextRandom64_eq)
    then show ?thesis
      by (subst makeRandomSpanId.simps)
        (simp add: SpanId_kByteLength_def fillRandomBytes_8 nextRandom64_eq)
  qed
  show ?thesis
  proof (cases "s + 0x9e3779b97f4a7c15 = 0")
    case True
    then have "makeRandomSpanId s = makeRandomSpanId 0" using step [of s] by simp
    also have "\<dots> = (\<lparr>sid_bytes = le_bytes (mix64 0x9e3779b97f4a7c15)\<rparr>, 0x9e3779b97f4a7c15)"
      using step [of 0] by simp
    finally show ?thesis using True by simp
  next
    case False
    then show ?thesis using step [of s] by simp
  qed
qed

lemma TraceId_random_valid [simp]: "TraceId_isValid (fst (TraceId_random s))"
  using fill16_nonzero [of s] by (simp add: TraceId_random_def makeRandomTraceId_eq TraceId_isValid_def)

lemma TraceId_random_wf [simp, wf_intros]: "TraceId_wf (fst (TraceId_random s))"
  by (simp add: TraceId_random_def makeRandomTraceId_eq TraceId_wf_def TraceId_kByteLength_def)

lemma SpanId_random_state_nonzero: "snd (SpanId_random s) \<noteq> 0"
  by (simp add: SpanId_random_def makeRandomSpanId_eq Let_def)

lemma SpanId_random_bytes:
  "fst (SpanId_random s) = \<lparr>sid_bytes = le_bytes (mix64 (snd (SpanId_random s)))\<rparr>"
  by (simp add: SpanId_random_def makeRandomSpanId_eq Let_def)

lemma SpanId_random_valid [simp]: "SpanId_isValid (fst (SpanId_random s))"
proof -
  have "mix64 (snd (SpanId_random s)) \<noteq> 0" using SpanId_random_state_nonzero by simp
  then show ?thesis
    using le_bytes_zero_iff [of "mix64 (snd (SpanId_random s))"]
    by (simp add: SpanId_random_bytes SpanId_valid_bytes)
qed

lemma SpanId_random_wf [simp, wf_intros]: "SpanId_wf (fst (SpanId_random s))"
  by (simp add: SpanId_random_bytes SpanId_wf_def SpanId_kByteLength_def)

lemma SpanId_random_inj:
  "fst (SpanId_random s) = fst (SpanId_random t) \<longleftrightarrow> snd (SpanId_random s) = snd (SpanId_random t)"
  by (auto simp: SpanId_random_bytes dest: le_bytes_inj mix64_inj)

text \<open>The states the generator of one thread passes through, and how far a state is along the
  orbit of the odd increment.\<close>

primrec span_states :: "u64 \<Rightarrow> nat \<Rightarrow> u64" where
  "span_states s 0 = s"
| "span_states s (Suc i) = snd (SpanId_random (span_states s i))"

definition orbit_rank :: "u64 \<Rightarrow> u64 \<Rightarrow> nat" where
  "orbit_rank s t = unat ((t - s) * 0xf1de83e19937733d)"

lemma orbit_rank_inj: "orbit_rank s t = orbit_rank s u \<Longrightarrow> t = u"
proof -
  assume "orbit_rank s t = orbit_rank s u"
  then have "(t - s) * 0xf1de83e19937733d = (u - s) * 0xf1de83e19937733d"
    by (simp only: orbit_rank_def word_unat_eq_iff)
  moreover have "(0x9e3779b97f4a7c15 :: u64) * 0xf1de83e19937733d = 1" by simp
  ultimately have "t - s = u - s" by (rule mult_unit_inj [rotated])
  then show ?thesis by simp
qed

lemma orbit_rank_start [simp]: "orbit_rank s s = 0"
  by (simp add: orbit_rank_def)

lemma orbit_rank_step:
  assumes "orbit_rank s t + 1 < 2 ^ 64"
  shows "orbit_rank s (t + 0x9e3779b97f4a7c15) = orbit_rank s t + 1"
proof -
  have eq: "(t + 0x9e3779b97f4a7c15 - s) * 0xf1de83e19937733d = (t - s) * (0xf1de83e19937733d :: u64) + 1"
  proof -
    have unit: "(0x9e3779b97f4a7c15 :: u64) * 0xf1de83e19937733d = 1" by simp
    have "t + 0x9e3779b97f4a7c15 - s = (t - s) + 0x9e3779b97f4a7c15" by simp
    then show ?thesis by (simp only: distrib_right unit)
  qed
  have "unat (x + 1) = unat x + 1" if "unat x + 1 < 2 ^ 64" for x :: u64
    using that by (simp add: unat_word_ariths)
  then show ?thesis using assms unfolding orbit_rank_def eq by blast
qed

text \<open>Up to the length of the orbit a draw moves one step along it, or two where it would hit the
  zero state; the zero state has one place on the orbit, so this happens at most once.\<close>

lemma span_states_rank:
  "i + 2 \<le> 2 ^ 64 \<Longrightarrow>
     orbit_rank s (span_states s i) = (if orbit_rank s 0 \<in> {1..i} then i + 1 else i)"
proof (induction i)
  case 0
  then show ?case by simp
next
  case (Suc i)
  let ?t = "span_states s i" and ?z = "orbit_rank s 0"
  have r: "orbit_rank s ?t = (if ?z \<in> {1..i} then i + 1 else i)" using Suc by simp
  have next_t: "orbit_rank s (?t + 0x9e3779b97f4a7c15) = orbit_rank s ?t + 1"
    using Suc.prems r by (intro orbit_rank_step) (simp split: if_splits)
  have zero: "?t + 0x9e3779b97f4a7c15 = 0 \<longleftrightarrow> ?z = orbit_rank s ?t + 1"
    using next_t orbit_rank_inj by metis
  show ?case
  proof (cases "?t + 0x9e3779b97f4a7c15 = 0")
    case False
    then have "orbit_rank s (span_states s (Suc i)) = orbit_rank s ?t + 1"
      by (simp add: SpanId_random_def makeRandomSpanId_eq Let_def next_t)
    then show ?thesis using False zero r by auto
  next
    case True
    then have z: "?z = i + 1" using zero r by (auto split: if_splits)
    have "orbit_rank s (0 + 0x9e3779b97f4a7c15) = ?z + 1"
      using Suc.prems z by (intro orbit_rank_step) simp
    then have "orbit_rank s (span_states s (Suc i)) = i + 2"
      using True z by (simp add: SpanId_random_def makeRandomSpanId_eq)
    then show ?thesis using z by simp
  qed
qed

lemma span_states_distinct:
  "i < j \<Longrightarrow> j + 2 \<le> 2 ^ 64 \<Longrightarrow> span_states s i \<noteq> span_states s j"
  using span_states_rank [of i s] span_states_rank [of j s] by (auto split: if_splits)

section \<open>Properties\<close>

text \<open>Writing a valid identifier as hexadecimal text and parsing the text gives the identifier
  back, and parsing a text that denotes a valid identifier and writing it again gives the same
  digits in lower case. Both hold for trace ids and for span ids.\<close>

theorem id_hex_roundtrip:
  assumes "TraceId_wf t" "TraceId_isValid t" "SpanId_wf i" "SpanId_isValid i"
    and "TraceId_isValid (TraceId_fromHex ts)" "SpanId_isValid (SpanId_fromHex ss)"
  shows "TraceId_fromHex (TraceId_toHex t) = t \<and> SpanId_fromHex (SpanId_toHex i) = i \<and>
         TraceId_toHex (TraceId_fromHex ts) = map ascii_lower ts \<and>
         SpanId_toHex (SpanId_fromHex ss) = map ascii_lower ss"
  using assms
  by (simp add: tid.from_hex_to_hex sid.from_hex_to_hex tid.to_hex_from_hex sid.to_hex_from_hex)

theorem id_hex_roundtrip_witness:
  "let t = fst (TraceId_random 7); i = fst (SpanId_random 7)
   in TraceId_fromHex (TraceId_toHex t) = t \<and> SpanId_fromHex (SpanId_toHex i) = i \<and>
      TraceId_toHex (TraceId_fromHex ''4BF92f3577b34da6a3ce929d0e0e4736'')
        = ''4bf92f3577b34da6a3ce929d0e0e4736'' \<and>
      SpanId_toHex (SpanId_fromHex ''00F067aa0ba902b7'') = ''00f067aa0ba902b7''"
proof -
  have "TraceId_isValid (TraceId_fromHex ''4BF92f3577b34da6a3ce929d0e0e4736'')"
    and "SpanId_isValid (SpanId_fromHex ''00F067aa0ba902b7'')"
    and "map ascii_lower ''4BF92f3577b34da6a3ce929d0e0e4736'' = ''4bf92f3577b34da6a3ce929d0e0e4736''"
    and "map ascii_lower ''00F067aa0ba902b7'' = ''00f067aa0ba902b7''"
    by code_simp+
  then show ?thesis
    using id_hex_roundtrip [of "fst (TraceId_random 7)" "fst (SpanId_random 7)"
        "''4BF92f3577b34da6a3ce929d0e0e4736''" "''00F067aa0ba902b7''"]
    by (simp add: Let_def)
qed

text \<open>A text parses to a valid identifier exactly when it has two hexadecimal digits (of either
  case) per byte and not all digits are zero; every other text, the all-zero one included, parses
  to the zero identifier, which is invalid.\<close>

theorem id_fromHex_accepts:
  "(if length ts = 32 \<and> list_all is_hex ts \<and> (\<exists>c \<in> set ts. hexValue c \<noteq> 0)
    then TraceId_isValid (TraceId_fromHex ts) else TraceId_fromHex ts = TraceId_zero) \<and>
   (if length ss = 16 \<and> list_all is_hex ss \<and> (\<exists>c \<in> set ss. hexValue c \<noteq> 0)
    then SpanId_isValid (SpanId_fromHex ss) else SpanId_fromHex ss = SpanId_zero) \<and>
   \<not> TraceId_isValid TraceId_zero \<and> \<not> SpanId_isValid SpanId_zero"
  using tid.valid_from_hex_iff [of ts] sid.valid_from_hex_iff [of ss]
    tid.from_hex_invalid [of ts] sid.from_hex_invalid [of ss]
  by (auto simp: TraceId_kByteLength_def SpanId_kByteLength_def)

text \<open>C39: for every generator state the rejection loops of the random constructors end and give
  well-formed identifiers that are valid, that is, not all zero.\<close>

theorem random_ids_valid:
  "TraceId_isValid (fst (TraceId_random s)) \<and> TraceId_wf (fst (TraceId_random s)) \<and>
   SpanId_isValid (fst (SpanId_random s)) \<and> SpanId_wf (fst (SpanId_random s))"
  by simp

text \<open>The span ids one thread draws in a row are pairwise different for the first
  \<open>2 ^ 64 - 2\<close> draws, whatever the seed.\<close>

theorem random_span_ids_distinct:
  assumes "i < j" and "j + 3 \<le> 2 ^ 64"
  shows "fst (SpanId_random (span_states s i)) \<noteq> fst (SpanId_random (span_states s j))"
  using span_states_distinct [of "Suc i" "Suc j" s] assms by (simp add: SpanId_random_inj)

theorem random_span_ids_distinct_witness:
  "fst (SpanId_random (span_states 42 0)) \<noteq> fst (SpanId_random (span_states 42 1000))"
  using random_span_ids_distinct [of 0 1000 42] by simp

text \<open>Formatting into a caller's buffer fails, leaving the buffer as it was, exactly when the
  buffer is null or shorter than the hexadecimal text; otherwise it writes the text at the start
  of the buffer and leaves the rest as it was.\<close>

theorem toHex_into_buffer:
  assumes "TraceId_wf t"
  shows "TraceId_toHex_into t None len = (False, None) \<and>
         TraceId_toHex_into t (Some buf) (length buf) =
           (if length buf < 32 then (False, Some buf)
            else (True, Some (TraceId_toHex t @ drop 32 buf)))"
  using assms formatHex_correct [of "tid_bytes t" 16 buf] formatHex_too_small [of "length buf" 16]
  by (auto simp: TraceId_toHex_into_def TraceId_toHex_encode TraceId_wf_def TraceId_kByteLength_def
      formatHex_def [of _ _ None])

theorem toHex_into_buffer_witness:
  "TraceId_toHex_into TraceId_zero (Some ''short'') (length ''short'') = (False, Some ''short'')"
  using toHex_into_buffer [of TraceId_zero 5 "''short''"] by simp

end
