(* ===== verification/Trace_Context.thy ===== *)
theory Trace_Context
  imports Ids
begin

text \<open>
  Model of \<^verbatim>\<open>galay-tracing/context/trace_context.h\<close>: the propagation context
  \<^verbatim>\<open>TraceContext\<close>, the hot-path identity \<^verbatim>\<open>SpanContext\<close> and the log identity
  \<^verbatim>\<open>LogContext\<close>, each a record with the members of its class. Accessors are the record
  selectors; constructors, setters and conversions are one definition each.

  The locale \<open>trace_identity\<close> states what the three classes share (validity and the sampled
  bit) and is interpreted for each of them.
\<close>

section \<open>TraceContext\<close>

definition kSampledFlag :: u8 where
  "kSampledFlag = 0x01"

record TraceContext =
  tc_traceId :: TraceId
  tc_spanId :: SpanId
  tc_parentSpanId :: "SpanId option"
  tc_traceFlags :: u8
  tc_tracestate :: string

definition TraceContext_default :: TraceContext where
  "TraceContext_default =
     \<lparr>tc_traceId = TraceId_zero, tc_spanId = SpanId_zero, tc_parentSpanId = None,
      tc_traceFlags = 0, tc_tracestate = []\<rparr>"

definition TraceContext_new :: "TraceId \<Rightarrow> SpanId \<Rightarrow> u8 \<Rightarrow> string \<Rightarrow> TraceContext" where
  "TraceContext_new traceId spanId traceFlags tracestate =
     \<lparr>tc_traceId = traceId, tc_spanId = spanId, tc_parentSpanId = None,
      tc_traceFlags = traceFlags, tc_tracestate = tracestate\<rparr>"

definition TraceContext_isValid :: "TraceContext \<Rightarrow> bool" where
  "TraceContext_isValid c \<longleftrightarrow> TraceId_isValid (tc_traceId c) \<and> SpanId_isValid (tc_spanId c)"

definition TraceContext_sampled :: "TraceContext \<Rightarrow> bool" where
  "TraceContext_sampled c \<longleftrightarrow> tc_traceFlags c AND kSampledFlag \<noteq> 0"

definition TraceContext_setSpanId :: "TraceContext \<Rightarrow> SpanId \<Rightarrow> TraceContext" where
  "TraceContext_setSpanId c spanId = c\<lparr>tc_spanId := spanId\<rparr>"

definition TraceContext_setParentSpanId :: "TraceContext \<Rightarrow> SpanId option \<Rightarrow> TraceContext" where
  "TraceContext_setParentSpanId c parentSpanId = c\<lparr>tc_parentSpanId := parentSpanId\<rparr>"

definition TraceContext_setTraceFlags :: "TraceContext \<Rightarrow> u8 \<Rightarrow> TraceContext" where
  "TraceContext_setTraceFlags c traceFlags = c\<lparr>tc_traceFlags := traceFlags\<rparr>"

definition TraceContext_setTracestate :: "TraceContext \<Rightarrow> string \<Rightarrow> TraceContext" where
  "TraceContext_setTracestate c tracestate = c\<lparr>tc_tracestate := tracestate\<rparr>"

definition TraceContext_wf :: "TraceContext \<Rightarrow> bool" where
  "TraceContext_wf c \<longleftrightarrow> TraceId_wf (tc_traceId c) \<and> SpanId_wf (tc_spanId c) \<and>
     pred_option SpanId_wf (tc_parentSpanId c)"

section \<open>SpanContext\<close>

record SpanContext =
  sc_traceId :: TraceId
  sc_spanId :: SpanId
  sc_parentSpanId :: "SpanId option"
  sc_traceFlags :: u8

definition SpanContext_default :: SpanContext where
  "SpanContext_default =
     \<lparr>sc_traceId = TraceId_zero, sc_spanId = SpanId_zero, sc_parentSpanId = None,
      sc_traceFlags = 0\<rparr>"

definition SpanContext_new :: "TraceId \<Rightarrow> SpanId \<Rightarrow> u8 \<Rightarrow> SpanId option \<Rightarrow> SpanContext" where
  "SpanContext_new traceId spanId traceFlags parentSpanId =
     \<lparr>sc_traceId = traceId, sc_spanId = spanId, sc_parentSpanId = parentSpanId,
      sc_traceFlags = traceFlags\<rparr>"

definition SpanContext_of :: "TraceContext \<Rightarrow> SpanContext" where
  "SpanContext_of context =
     SpanContext_new (tc_traceId context) (tc_spanId context) (tc_traceFlags context)
       (tc_parentSpanId context)"

definition SpanContext_isValid :: "SpanContext \<Rightarrow> bool" where
  "SpanContext_isValid c \<longleftrightarrow> TraceId_isValid (sc_traceId c) \<and> SpanId_isValid (sc_spanId c)"

definition SpanContext_sampled :: "SpanContext \<Rightarrow> bool" where
  "SpanContext_sampled c \<longleftrightarrow> sc_traceFlags c AND kSampledFlag \<noteq> 0"

definition SpanContext_setSpanId :: "SpanContext \<Rightarrow> SpanId \<Rightarrow> SpanContext" where
  "SpanContext_setSpanId c spanId = c\<lparr>sc_spanId := spanId\<rparr>"

definition SpanContext_setParentSpanId :: "SpanContext \<Rightarrow> SpanId option \<Rightarrow> SpanContext" where
  "SpanContext_setParentSpanId c parentSpanId = c\<lparr>sc_parentSpanId := parentSpanId\<rparr>"

definition SpanContext_setTraceFlags :: "SpanContext \<Rightarrow> u8 \<Rightarrow> SpanContext" where
  "SpanContext_setTraceFlags c traceFlags = c\<lparr>sc_traceFlags := traceFlags\<rparr>"

definition toTraceContext :: "SpanContext \<Rightarrow> string \<Rightarrow> TraceContext" where
  "toTraceContext c tracestate =
     (let context = TraceContext_new (sc_traceId c) (sc_spanId c) (sc_traceFlags c) tracestate
      in TraceContext_setParentSpanId context (sc_parentSpanId c))"

definition SpanContext_wf :: "SpanContext \<Rightarrow> bool" where
  "SpanContext_wf c \<longleftrightarrow> TraceId_wf (sc_traceId c) \<and> SpanId_wf (sc_spanId c) \<and>
     pred_option SpanId_wf (sc_parentSpanId c)"

section \<open>LogContext\<close>

record LogContext =
  lc_traceId :: TraceId
  lc_spanId :: SpanId
  lc_traceFlags :: u8

definition LogContext_new :: "TraceId \<Rightarrow> SpanId \<Rightarrow> u8 \<Rightarrow> LogContext" where
  "LogContext_new traceId spanId traceFlags =
     \<lparr>lc_traceId = traceId, lc_spanId = spanId, lc_traceFlags = traceFlags\<rparr>"

definition LogContext_of :: "TraceContext \<Rightarrow> LogContext" where
  "LogContext_of context =
     LogContext_new (tc_traceId context) (tc_spanId context) (tc_traceFlags context)"

definition LogContext_isValid :: "LogContext \<Rightarrow> bool" where
  "LogContext_isValid c \<longleftrightarrow> TraceId_isValid (lc_traceId c) \<and> SpanId_isValid (lc_spanId c)"

definition LogContext_sampled :: "LogContext \<Rightarrow> bool" where
  "LogContext_sampled c \<longleftrightarrow> lc_traceFlags c AND kSampledFlag \<noteq> 0"

definition makeLogContext :: "TraceContext option \<Rightarrow> LogContext option" where
  "makeLogContext context =
     (case context of None \<Rightarrow> None | Some c \<Rightarrow> Some (LogContext_of c))"

definition makeLogContext_ref :: "TraceContext \<Rightarrow> LogContext option" where
  "makeLogContext_ref context = Some (LogContext_of context)"

definition makeLogContext_nullopt :: "LogContext option" where
  "makeLogContext_nullopt = None"

section \<open>What the three context classes share\<close>

lemma sampled_flag_iff: "(f :: u8) AND kSampledFlag \<noteq> 0 \<longleftrightarrow> bit f 0"
  by (simp add: kSampledFlag_def and_one_eq mod_2_eq_odd bit_0)

locale trace_identity =
  fixes trace :: "'c \<Rightarrow> TraceId"
    and span :: "'c \<Rightarrow> SpanId"
    and flags :: "'c \<Rightarrow> u8"
    and valid :: "'c \<Rightarrow> bool"
    and sampled :: "'c \<Rightarrow> bool"
  assumes valid_def': "valid c \<longleftrightarrow> TraceId_isValid (trace c) \<and> SpanId_isValid (span c)"
    and sampled_def': "sampled c \<longleftrightarrow> flags c AND kSampledFlag \<noteq> 0"
begin

lemma sampled_bit: "sampled c \<longleftrightarrow> bit (flags c) 0"
  by (simp only: sampled_def' sampled_flag_iff)

lemma sampled_odd: "sampled c \<longleftrightarrow> odd (unat (flags c))"
  using bit_unsigned_iff [where 'a = nat, of "flags c" 0] by (simp add: sampled_bit bit_0)

lemma not_valid_zero_trace: "trace c = TraceId_zero \<Longrightarrow> \<not> valid c"
  by (simp add: valid_def')

lemma not_valid_zero_span: "span c = SpanId_zero \<Longrightarrow> \<not> valid c"
  by (simp add: valid_def')

end

interpretation trace_ctx: trace_identity tc_traceId tc_spanId tc_traceFlags
  TraceContext_isValid TraceContext_sampled
  by unfold_locales (simp_all add: TraceContext_isValid_def TraceContext_sampled_def)

interpretation span_ctx: trace_identity sc_traceId sc_spanId sc_traceFlags
  SpanContext_isValid SpanContext_sampled
  by unfold_locales (simp_all add: SpanContext_isValid_def SpanContext_sampled_def)

interpretation log_ctx: trace_identity lc_traceId lc_spanId lc_traceFlags
  LogContext_isValid LogContext_sampled
  by unfold_locales (simp_all add: LogContext_isValid_def LogContext_sampled_def)

section \<open>Conversions\<close>

lemma toTraceContext_fields [simp, ctx_simps]:
  "tc_traceId (toTraceContext c ts) = sc_traceId c"
  "tc_spanId (toTraceContext c ts) = sc_spanId c"
  "tc_parentSpanId (toTraceContext c ts) = sc_parentSpanId c"
  "tc_traceFlags (toTraceContext c ts) = sc_traceFlags c"
  "tc_tracestate (toTraceContext c ts) = ts"
  by (simp_all add: toTraceContext_def TraceContext_new_def TraceContext_setParentSpanId_def)

lemma SpanContext_of_fields [simp, ctx_simps]:
  "sc_traceId (SpanContext_of c) = tc_traceId c"
  "sc_spanId (SpanContext_of c) = tc_spanId c"
  "sc_parentSpanId (SpanContext_of c) = tc_parentSpanId c"
  "sc_traceFlags (SpanContext_of c) = tc_traceFlags c"
  by (simp_all add: SpanContext_of_def SpanContext_new_def)

lemma SpanContext_new_fields [simp, ctx_simps]:
  "sc_traceId (SpanContext_new t s f p) = t"
  "sc_spanId (SpanContext_new t s f p) = s"
  "sc_parentSpanId (SpanContext_new t s f p) = p"
  "sc_traceFlags (SpanContext_new t s f p) = f"
  by (simp_all add: SpanContext_new_def)

lemma SpanContext_of_toTraceContext [simp, ctx_simps]: "SpanContext_of (toTraceContext c ts) = c"
  by (cases c) (simp add: SpanContext_of_def SpanContext_new_def)

lemma toTraceContext_SpanContext_of [simp, ctx_simps]:
  "toTraceContext (SpanContext_of c) (tc_tracestate c) = c"
  by (cases c) (simp add: toTraceContext_def TraceContext_new_def TraceContext_setParentSpanId_def)

lemma SpanContext_of_valid [simp, ctx_simps]:
  "SpanContext_isValid (SpanContext_of c) = TraceContext_isValid c"
  "TraceContext_isValid (toTraceContext d ts) = SpanContext_isValid d"
  by (simp_all add: SpanContext_isValid_def TraceContext_isValid_def)

lemma SpanContext_of_sampled [simp, ctx_simps]:
  "SpanContext_sampled (SpanContext_of c) = TraceContext_sampled c"
  "TraceContext_sampled (toTraceContext d ts) = SpanContext_sampled d"
  by (simp_all add: SpanContext_sampled_def TraceContext_sampled_def)

lemma SpanContext_of_wf [simp, wf_intros]:
  "SpanContext_wf (SpanContext_of c) = TraceContext_wf c"
  "TraceContext_wf (toTraceContext d ts) = SpanContext_wf d"
  by (simp_all add: SpanContext_wf_def TraceContext_wf_def)

section \<open>Properties\<close>

text \<open>A \<^verbatim>\<open>SpanContext\<close> together with the tracestate string carries exactly the information of
  a \<^verbatim>\<open>TraceContext\<close>: converting either way and back is the identity, the identity that log
  records copy is the same from both, and validity and the sampled decision agree.\<close>

theorem context_conversions:
  "toTraceContext (SpanContext_of c) (tc_tracestate c) = c \<and>
   SpanContext_of (toTraceContext d ts) = d \<and>
   SpanContext_isValid (SpanContext_of c) = TraceContext_isValid c \<and>
   SpanContext_sampled (SpanContext_of c) = TraceContext_sampled c \<and>
   LogContext_isValid (LogContext_of c) = TraceContext_isValid c \<and>
   LogContext_sampled (LogContext_of c) = TraceContext_sampled c \<and>
   LogContext_sampled (LogContext_of c) = odd (unat (tc_traceFlags c))"
  by (simp add: LogContext_isValid_def TraceContext_isValid_def LogContext_of_def LogContext_new_def
      log_ctx.sampled_odd trace_ctx.sampled_odd)

end
