(* ===== verification/Traceparent.thy ===== *)
theory Traceparent
  imports Trace_Context
begin

text \<open>
  Model of \<^verbatim>\<open>galay-tracing/context/traceparent.h\<close> and \<^verbatim>\<open>traceparent.cc\<close>: parsing and
  formatting of the W3C \<^verbatim>\<open>traceparent\<close> header, with \<^verbatim>\<open>tracestate\<close> carried as an opaque
  string. \<^verbatim>\<open>std::expected\<close> is a sum with the error on the left. The lemmas give the exact set
  of accepted headers, the error of every other header, and the two round trips.
\<close>

section \<open>Definitions\<close>

datatype TraceparentError =
    kMalformed
  | kUnsupportedVersion
  | kInvalidTraceId
  | kInvalidSpanId
  | kInvalidFlags

definition kTraceparentLength :: nat where
  "kTraceparentLength = 55"

definition kSeparator :: char where
  "kSeparator = CHR ''-''"

definition hasExpectedSeparators :: "string \<Rightarrow> bool" where
  "hasExpectedSeparators value \<longleftrightarrow>
     length value = kTraceparentLength \<and> value ! 2 = kSeparator \<and> value ! 35 = kSeparator \<and>
     value ! 52 = kSeparator"

definition parseFlags :: "string \<Rightarrow> u8 \<Rightarrow> bool \<times> u8" where
  "parseFlags value flags =
     (if length value \<noteq> 2 then (False, flags)
      else
        let high = hexValue (value ! 0); low = hexValue (value ! 1)
        in if high < 0 \<or> low < 0 then (False, flags)
           else (True, word_of_int (push_bit 4 high OR low)))"

definition substr :: "string \<Rightarrow> nat \<Rightarrow> nat \<Rightarrow> string" where
  "substr s pos n = take n (drop pos s)"

definition extractTraceparent :: "string \<Rightarrow> string \<Rightarrow> TraceparentError + TraceContext" where
  "extractTraceparent value tracestate =
     (if \<not> hasExpectedSeparators value then Inl kMalformed
      else if substr value 0 2 \<noteq> ''00'' then Inl kUnsupportedVersion
      else
        let traceId = TraceId_fromHex (substr value 3 TraceId_kHexLength)
        in if \<not> TraceId_isValid traceId then Inl kInvalidTraceId
           else
             let spanId = SpanId_fromHex (substr value 36 SpanId_kHexLength)
             in if \<not> SpanId_isValid spanId then Inl kInvalidSpanId
                else
                  case parseFlags (substr value 53 2) 0 of
                    (False, _) \<Rightarrow> Inl kInvalidFlags
                  | (True, flags) \<Rightarrow> Inr (TraceContext_new traceId spanId flags tracestate))"

definition injectTraceparent :: "TraceContext \<Rightarrow> string" where
  "injectTraceparent context =
     (if \<not> TraceContext_isValid context then []
      else ''00-'' @ TraceId_toHex (tc_traceId context) @ [kSeparator] @
        SpanId_toHex (tc_spanId context) @ [kSeparator] @
        [kHexDigits ! unat (drop_bit 4 (tc_traceFlags context))] @
        [kHexDigits ! unat (tc_traceFlags context AND 0x0f)])"

definition injectTracestate :: "TraceContext \<Rightarrow> string" where
  "injectTracestate context = tc_tracestate context"

section \<open>The layout of a header\<close>

text \<open>A header with the expected separators is the concatenation of its four fields.\<close>

definition traceparent_layout :: "string \<Rightarrow> string \<Rightarrow> string \<Rightarrow> string \<Rightarrow> string" where
  "traceparent_layout version trace spn flags =
     version @ [kSeparator] @ trace @ [kSeparator] @ spn @ [kSeparator] @ flags"

lemma traceparent_layout_nth:
  assumes "length version = 2" "length trace = 32" "length spn = 16" "length flags = 2"
  shows "hasExpectedSeparators (traceparent_layout version trace spn flags)"
    and "substr (traceparent_layout version trace spn flags) 0 2 = version"
    and "substr (traceparent_layout version trace spn flags) 3 TraceId_kHexLength = trace"
    and "substr (traceparent_layout version trace spn flags) 36 SpanId_kHexLength = spn"
    and "substr (traceparent_layout version trace spn flags) 53 2 = flags"
  using assms
  by (simp_all add: hasExpectedSeparators_def traceparent_layout_def substr_def kTraceparentLength_def
      nth_append TraceId_kHexLength_def TraceId_kByteLength_def SpanId_kHexLength_def
      SpanId_kByteLength_def)

lemma traceparent_layout_split:
  assumes "hasExpectedSeparators v"
  shows "v = traceparent_layout (substr v 0 2) (substr v 3 TraceId_kHexLength)
               (substr v 36 SpanId_kHexLength) (substr v 53 2)"
    and "length (substr v 0 2) = 2" "length (substr v 3 TraceId_kHexLength) = 32"
    and "length (substr v 36 SpanId_kHexLength) = 16" "length (substr v 53 2) = 2"
proof -
  have len: "length v = 55" and sep: "v ! 2 = kSeparator" "v ! 35 = kSeparator" "v ! 52 = kSeparator"
    using assms by (simp_all add: hasExpectedSeparators_def kTraceparentLength_def)
  have cut: "drop n v = take k (drop n v) @ v ! (n + k) # drop (Suc (n + k)) v" if "n + k < 55" for n k
    using that len id_take_nth_drop [of k "drop n v"] by (simp add: add.commute)
  have "v = take 2 v @ kSeparator # drop 3 v" using cut [of 0 2] sep by (simp add: numeral_3_eq_3 numeral_2_eq_2)
  also have "drop 3 v = take 32 (drop 3 v) @ kSeparator # drop 36 v"
    using cut [of 3 32] sep by simp
  also have "drop 36 v = take 16 (drop 36 v) @ kSeparator # drop 53 v"
    using cut [of 36 16] sep by simp
  also have "drop 53 v = take 2 (drop 53 v)" using len by simp
  finally show "v = traceparent_layout (substr v 0 2) (substr v 3 TraceId_kHexLength)
               (substr v 36 SpanId_kHexLength) (substr v 53 2)"
    by (simp add: traceparent_layout_def substr_def TraceId_kHexLength_def TraceId_kByteLength_def
        SpanId_kHexLength_def SpanId_kByteLength_def)
qed (use assms in \<open>simp_all add: hasExpectedSeparators_def kTraceparentLength_def substr_def
      TraceId_kHexLength_def TraceId_kByteLength_def SpanId_kHexLength_def SpanId_kByteLength_def\<close>)

text \<open>The flags field is the hexadecimal form of one byte.\<close>

lemma parseFlags_decode:
  assumes "length v = 2"
  shows "parseFlags v f = (case hex_decode v of Some [b] \<Rightarrow> (True, b) | _ \<Rightarrow> (False, f))"
proof -
  obtain a b where "v = [a, b]"
    using assms by (auto simp: length_Suc_conv numeral_2_eq_2)
  then show ?thesis by (simp add: parseFlags_def)
qed

lemma parseFlags_ok:
  "length v = 2 \<Longrightarrow> (\<exists>f'. parseFlags v f = (True, f')) \<longleftrightarrow> list_all is_hex v"
  by (auto simp: parseFlags_def is_hex_def length_Suc_conv numeral_2_eq_2 Let_def)

lemma hex_decode_two:
  "length v = 2 \<Longrightarrow> hex_decode v = None \<or> (\<exists>b. hex_decode v = Some [b])"
  using hex_decode_length [of v] by (cases "hex_decode v") (auto simp: length_Suc_conv)

lemma injectTraceparent_layout:
  "TraceContext_isValid c \<Longrightarrow>
     injectTraceparent c =
       traceparent_layout ''00'' (TraceId_toHex (tc_traceId c)) (SpanId_toHex (tc_spanId c))
         (hex_encode [tc_traceFlags c])"
  by (simp add: injectTraceparent_def traceparent_layout_def kSeparator_def hex_digit_def)

lemmas traceparent_fields = traceparent_layout_nth traceparent_layout_split

section \<open>What is accepted\<close>

text \<open>The well-formed headers, by their text alone.\<close>

definition traceparent_ok :: "string \<Rightarrow> bool" where
  "traceparent_ok v \<longleftrightarrow>
     length v = 55 \<and> v ! 2 = CHR ''-'' \<and> v ! 35 = CHR ''-'' \<and> v ! 52 = CHR ''-'' \<and>
     take 2 v = ''00'' \<and>
     list_all is_hex (take 32 (drop 3 v)) \<and> (\<exists>c \<in> set (take 32 (drop 3 v)). hexValue c \<noteq> 0) \<and>
     list_all is_hex (take 16 (drop 36 v)) \<and> (\<exists>c \<in> set (take 16 (drop 36 v)). hexValue c \<noteq> 0) \<and>
     list_all is_hex (drop 53 v)"

lemma valid_trace_field:
  "hasExpectedSeparators v \<Longrightarrow>
     TraceId_isValid (TraceId_fromHex (substr v 3 TraceId_kHexLength)) \<longleftrightarrow>
       list_all is_hex (take 32 (drop 3 v)) \<and> (\<exists>c \<in> set (take 32 (drop 3 v)). hexValue c \<noteq> 0)"
  using traceparent_layout_split(3) [of v]
  by (simp add: tid.valid_from_hex_iff substr_def TraceId_kHexLength_def TraceId_kByteLength_def)

lemma valid_span_field:
  "hasExpectedSeparators v \<Longrightarrow>
     SpanId_isValid (SpanId_fromHex (substr v 36 SpanId_kHexLength)) \<longleftrightarrow>
       list_all is_hex (take 16 (drop 36 v)) \<and> (\<exists>c \<in> set (take 16 (drop 36 v)). hexValue c \<noteq> 0)"
  using traceparent_layout_split(4) [of v]
  by (simp add: sid.valid_from_hex_iff substr_def SpanId_kHexLength_def SpanId_kByteLength_def)

lemma valid_flags_field:
  "hasExpectedSeparators v \<Longrightarrow>
     (\<exists>f. parseFlags (substr v 53 2) 0 = (True, f)) \<longleftrightarrow> list_all is_hex (drop 53 v)"
proof -
  assume v: "hasExpectedSeparators v"
  then have len: "length (substr v 53 2) = 2" by (rule traceparent_layout_split)
  have "substr v 53 2 = drop 53 v"
    using v by (simp add: hasExpectedSeparators_def kTraceparentLength_def substr_def)
  then show ?thesis using parseFlags_ok [OF len, of 0] by simp
qed

lemma hasExpectedSeparators_iff:
  "hasExpectedSeparators v \<longleftrightarrow>
     length v = 55 \<and> v ! 2 = CHR ''-'' \<and> v ! 35 = CHR ''-'' \<and> v ! 52 = CHR ''-''"
  by (simp add: hasExpectedSeparators_def kTraceparentLength_def kSeparator_def)

lemma extract_result:
  "extractTraceparent v ts =
     (if \<not> hasExpectedSeparators v then Inl kMalformed
      else if take 2 v \<noteq> ''00'' then Inl kUnsupportedVersion
      else if \<not> TraceId_isValid (TraceId_fromHex (substr v 3 TraceId_kHexLength)) then Inl kInvalidTraceId
      else if \<not> SpanId_isValid (SpanId_fromHex (substr v 36 SpanId_kHexLength)) then Inl kInvalidSpanId
      else if \<not> list_all is_hex (drop 53 v) then Inl kInvalidFlags
      else Inr (TraceContext_new (TraceId_fromHex (substr v 3 TraceId_kHexLength))
                  (SpanId_fromHex (substr v 36 SpanId_kHexLength))
                  (snd (parseFlags (substr v 53 2) 0)) ts))"
  using valid_flags_field [of v]
  by (auto simp: extractTraceparent_def Let_def substr_def [of v 0 2] split: prod.splits bool.splits)

lemma extract_accepts: "(\<exists>c. extractTraceparent v ts = Inr c) \<longleftrightarrow> traceparent_ok v"
proof (cases "hasExpectedSeparators v")
  case True
  then show ?thesis
    using valid_trace_field [OF True] valid_span_field [OF True] hasExpectedSeparators_iff [of v]
    by (auto simp: extract_result traceparent_ok_def)
next
  case False
  then show ?thesis by (auto simp: extract_result traceparent_ok_def hasExpectedSeparators_iff)
qed

lemma extract_Inr_fields:
  assumes "extractTraceparent v ts = Inr c"
  shows "hasExpectedSeparators v" "take 2 v = ''00''"
    and "tc_traceId c = TraceId_fromHex (substr v 3 TraceId_kHexLength)" "TraceId_isValid (tc_traceId c)"
    and "tc_spanId c = SpanId_fromHex (substr v 36 SpanId_kHexLength)" "SpanId_isValid (tc_spanId c)"
    and "hex_decode (substr v 53 2) = Some [tc_traceFlags c]"
    and "tc_parentSpanId c = None" "tc_tracestate c = ts"
proof -
  have c: "c = TraceContext_new (TraceId_fromHex (substr v 3 TraceId_kHexLength))
                  (SpanId_fromHex (substr v 36 SpanId_kHexLength))
                  (snd (parseFlags (substr v 53 2) 0)) ts"
    and sep: "hasExpectedSeparators v"
    using assms by (auto simp: extract_result split: if_splits)
  show "hasExpectedSeparators v" "take 2 v = ''00''"
    "tc_traceId c = TraceId_fromHex (substr v 3 TraceId_kHexLength)" "TraceId_isValid (tc_traceId c)"
    "tc_spanId c = SpanId_fromHex (substr v 36 SpanId_kHexLength)" "SpanId_isValid (tc_spanId c)"
    "tc_parentSpanId c = None" "tc_tracestate c = ts"
    using assms by (auto simp: extract_result TraceContext_new_def split: if_splits)
  have len: "length (substr v 53 2) = 2" using sep by (rule traceparent_layout_split)
  obtain f where f: "parseFlags (substr v 53 2) 0 = (True, f)"
    using assms valid_flags_field [OF sep] by (auto simp: extract_result split: if_splits)
  then have "hex_decode (substr v 53 2) = Some [f]"
    using hex_decode_two [OF len] by (auto simp: parseFlags_decode [OF len])
  then show "hex_decode (substr v 53 2) = Some [tc_traceFlags c]"
    by (simp add: c f TraceContext_new_def)
qed

lemma extract_Inr_valid:
  "extractTraceparent v ts = Inr c \<Longrightarrow> TraceContext_isValid c \<and> TraceContext_wf c"
  using extract_Inr_fields [of v ts c] by (auto simp: TraceContext_isValid_def TraceContext_wf_def)

lemma extract_injected:
  assumes "TraceContext_wf c" and "TraceContext_isValid c"
  shows "extractTraceparent (injectTraceparent c) (injectTracestate c)
         = Inr (TraceContext_setParentSpanId c None)"
proof -
  have wf: "TraceId_wf (tc_traceId c)" "SpanId_wf (tc_spanId c)"
    and valid: "TraceId_isValid (tc_traceId c)" "SpanId_isValid (tc_spanId c)"
    using assms by (simp_all add: TraceContext_wf_def TraceContext_isValid_def)
  let ?v = "traceparent_layout ''00'' (TraceId_toHex (tc_traceId c)) (SpanId_toHex (tc_spanId c))
              (hex_encode [tc_traceFlags c])"
  have len: "length (TraceId_toHex (tc_traceId c)) = 32" "length (SpanId_toHex (tc_spanId c)) = 16"
    using wf tid.length_to_hex sid.length_to_hex
    by (simp_all add: TraceId_kByteLength_def SpanId_kByteLength_def)
  note fields = traceparent_layout_nth [of "''00''", OF _ len, of "hex_encode [tc_traceFlags c]", simplified]
  have "parseFlags (hex_encode [tc_traceFlags c]) 0 = (True, tc_traceFlags c)"
    by (subst parseFlags_decode) (simp_all only: hex_decode_encode length_hex_encode, simp_all)
  then have "extractTraceparent ?v (tc_tracestate c)
      = Inr (TraceContext_new (tc_traceId c) (tc_spanId c) (tc_traceFlags c) (tc_tracestate c))"
    unfolding extractTraceparent_def
    using valid wf by (simp add: fields tid.from_hex_to_hex sid.from_hex_to_hex Let_def)
  then show ?thesis
    using assms(2)
    by (simp add: injectTraceparent_layout injectTracestate_def TraceContext_new_def
        TraceContext_setParentSpanId_def)
qed

text \<open>The two id fields of an injected header.\<close>

lemma injected_fields:
  assumes "TraceContext_wf c" and "TraceContext_isValid c"
  shows "take 32 (drop 3 (injectTraceparent c)) = TraceId_toHex (tc_traceId c)"
    and "take 16 (drop 36 (injectTraceparent c)) = SpanId_toHex (tc_spanId c)"
proof -
  have len: "length (TraceId_toHex (tc_traceId c)) = 32" "length (SpanId_toHex (tc_spanId c)) = 16"
    using assms(1) tid.length_to_hex sid.length_to_hex
    by (simp_all add: TraceContext_wf_def TraceId_kByteLength_def SpanId_kByteLength_def)
  then show "take 32 (drop 3 (injectTraceparent c)) = TraceId_toHex (tc_traceId c)"
    and "take 16 (drop 36 (injectTraceparent c)) = SpanId_toHex (tc_spanId c)"
    using assms(2) by (simp_all add: injectTraceparent_layout traceparent_layout_def)
qed

section \<open>Properties\<close>

text \<open>C2: injecting a valid context into the two W3C headers and extracting them on the other side
  gives the same trace id, span id, flags and tracestate back; the receiver sees no parent span
  id, since the header does not carry one.\<close>

theorem traceparent_extract_inject:
  assumes "TraceContext_wf c" and "TraceContext_isValid c"
  shows "extractTraceparent (injectTraceparent c) (injectTracestate c)
         = Inr (TraceContext_setParentSpanId c None)"
  by (rule extract_injected [OF assms])

theorem traceparent_extract_inject_witness:
  "let c = TraceContext_new (TraceId_fromHex ''4bf92f3577b34da6a3ce929d0e0e4736'')
             (SpanId_fromHex ''00f067aa0ba902b7'') 1 ''vendor=value''
   in extractTraceparent (injectTraceparent c) (injectTracestate c) = Inr c"
proof -
  let ?c = "TraceContext_new (TraceId_fromHex ''4bf92f3577b34da6a3ce929d0e0e4736'')
             (SpanId_fromHex ''00f067aa0ba902b7'') 1 ''vendor=value''"
  have "TraceId_isValid (TraceId_fromHex ''4bf92f3577b34da6a3ce929d0e0e4736'')"
    "SpanId_isValid (SpanId_fromHex ''00f067aa0ba902b7'')" by code_simp+
  then have "TraceContext_wf ?c" "TraceContext_isValid ?c"
    by (simp_all add: TraceContext_wf_def TraceContext_isValid_def TraceContext_new_def)
  from traceparent_extract_inject [OF this] show ?thesis
    by (simp add: TraceContext_new_def TraceContext_setParentSpanId_def Let_def)
qed

text \<open>C28: extracting a header and injecting the context again gives the header back with its
  hexadecimal digits in lower case, and the tracestate unchanged.\<close>

theorem traceparent_inject_extract:
  assumes "extractTraceparent v ts = Inr c"
  shows "injectTraceparent c = map ascii_lower v \<and> injectTracestate c = ts"
proof -
  note f = extract_Inr_fields [OF assms]
  have "injectTraceparent c = traceparent_layout ''00'' (map ascii_lower (substr v 3 TraceId_kHexLength))
      (map ascii_lower (substr v 36 SpanId_kHexLength)) (map ascii_lower (substr v 53 2))"
    using extract_Inr_valid [OF assms] f(3-6) hex_encode_decode [OF f(7)]
    by (simp add: injectTraceparent_layout tid.to_hex_from_hex sid.to_hex_from_hex)
  also have "\<dots> = map ascii_lower (traceparent_layout (substr v 0 2) (substr v 3 TraceId_kHexLength)
      (substr v 36 SpanId_kHexLength) (substr v 53 2))"
    using f(2) by (simp add: traceparent_layout_def substr_def [of v 0 2] ascii_lower_def kSeparator_def)
  also have "\<dots> = map ascii_lower v"
    using traceparent_layout_split(1) [OF f(1)] by simp
  finally show ?thesis using f(9) by (simp add: injectTracestate_def)
qed

theorem traceparent_inject_extract_witness:
  "\<exists>c. extractTraceparent ''00-4BF92F3577b34da6a3ce929d0e0e4736-00f067aa0ba902b7-01'' ''k=v'' = Inr c \<and>
       injectTraceparent c = ''00-4bf92f3577b34da6a3ce929d0e0e4736-00f067aa0ba902b7-01''"
proof -
  have "traceparent_ok ''00-4BF92F3577b34da6a3ce929d0e0e4736-00f067aa0ba902b7-01''" by code_simp
  then obtain c where c: "extractTraceparent ''00-4BF92F3577b34da6a3ce929d0e0e4736-00f067aa0ba902b7-01'' ''k=v'' = Inr c"
    using extract_accepts by blast
  have "map ascii_lower ''00-4BF92F3577b34da6a3ce929d0e0e4736-00f067aa0ba902b7-01''
      = ''00-4bf92f3577b34da6a3ce929d0e0e4736-00f067aa0ba902b7-01''" by code_simp
  with c traceparent_inject_extract [OF c] show ?thesis by auto
qed

text \<open>C16: extraction succeeds exactly on the headers of 55 characters with version 00, separators in
  the right places, hexadecimal fields and ids that are not all zero; the context it returns is
  valid, and every other header is answered with the error of its first bad field.\<close>

theorem traceparent_extract_total:
  "(case extractTraceparent v ts of
      Inr c \<Rightarrow> traceparent_ok v \<and> TraceContext_isValid c \<and> TraceContext_wf c
    | Inl e \<Rightarrow> \<not> traceparent_ok v \<and>
        e = (if \<not> hasExpectedSeparators v then kMalformed
             else if take 2 v \<noteq> ''00'' then kUnsupportedVersion
             else if \<not> list_all is_hex (take 32 (drop 3 v)) \<or> (\<forall>c. c \<in> set (take 32 (drop 3 v)) \<longrightarrow> hexValue c = 0)
             then kInvalidTraceId
             else if \<not> list_all is_hex (take 16 (drop 36 v)) \<or> (\<forall>c. c \<in> set (take 16 (drop 36 v)) \<longrightarrow> hexValue c = 0)
             then kInvalidSpanId
             else kInvalidFlags))"
proof (cases "extractTraceparent v ts")
  case (Inr c)
  then show ?thesis using extract_Inr_valid [OF Inr] extract_accepts [of v ts] by auto
next
  case (Inl e)
  then have "\<not> traceparent_ok v" using extract_accepts [of v ts] by auto
  then show ?thesis
    using Inl valid_trace_field [of v] valid_span_field [of v]
    by (auto simp: extract_result split: if_splits)
qed

theorem traceparent_extract_total_witness:
  "extractTraceparent ''00-00000000000000000000000000000000-00f067aa0ba902b7-01'' [] = Inl kInvalidTraceId"
proof -
  let ?v = "''00-00000000000000000000000000000000-00f067aa0ba902b7-01''"
  have "\<not> traceparent_ok ?v" "hasExpectedSeparators ?v" "take 2 ?v = ''00''"
    "\<forall>c \<in> set (take 32 (drop 3 ?v)). hexValue c = 0"
    by code_simp+
  then show ?thesis
    using traceparent_extract_total [of ?v "[]"]
    by (auto simp del: take_Cons_numeral drop_Cons_numeral split: sum.splits)
qed

text \<open>An invalid context is never propagated: the header text is empty exactly when the context
  is invalid, and otherwise it has the 55 characters of the format.\<close>

theorem traceparent_inject_length:
  assumes "TraceContext_wf c"
  shows "length (injectTraceparent c) = (if TraceContext_isValid c then kTraceparentLength else 0)"
  using assms
  by (simp add: injectTraceparent_def TraceContext_wf_def tid.length_to_hex sid.length_to_hex
      kTraceparentLength_def TraceId_kByteLength_def SpanId_kByteLength_def)

theorem traceparent_inject_length_witness:
  "injectTraceparent (TraceContext_default) = []"
  using traceparent_inject_length [of TraceContext_default]
  by (simp add: TraceContext_default_def TraceContext_wf_def TraceContext_isValid_def)

end
