(* ===== verification/Double64.thy ===== *)
theory Double64
  imports Prelude
begin

text \<open>
  The C++ type \<^verbatim>\<open>double\<close> (IEEE 754 binary64), as far as the library uses it: a value is its bit
  pattern, and comparisons go through the number the pattern denotes. A NaN compares false with
  everything. Decimal formatting of doubles is a parameter of the definitions that need it.
\<close>

datatype double = Double (dbl_bits: u64)

datatype fval = FNaN | FInf bool | FFin rat

definition dbl_negative :: "double \<Rightarrow> bool" where
  "dbl_negative d = bit (dbl_bits d) 63"

definition dbl_exponent :: "double \<Rightarrow> nat" where
  "dbl_exponent d = unat (drop_bit 52 (dbl_bits d) AND 0x7ff)"

definition dbl_mantissa :: "double \<Rightarrow> nat" where
  "dbl_mantissa d = unat (dbl_bits d AND 0xfffffffffffff)"

definition dbl_magnitude :: "double \<Rightarrow> rat" where
  "dbl_magnitude d =
     (if dbl_exponent d = 0 then of_nat (dbl_mantissa d) / 2 ^ 1074
      else of_nat (2 ^ 52 + dbl_mantissa d) * 2 ^ (dbl_exponent d - 1) / 2 ^ 1074)"

definition dbl_value :: "double \<Rightarrow> fval" where
  "dbl_value d =
     (if dbl_exponent d = 0x7ff then
        if dbl_mantissa d = 0 then FInf (dbl_negative d) else FNaN
      else FFin (if dbl_negative d then - dbl_magnitude d else dbl_magnitude d))"

fun fval_less :: "fval \<Rightarrow> fval \<Rightarrow> bool" where
  "fval_less FNaN _ = False"
| "fval_less _ FNaN = False"
| "fval_less (FFin x) (FFin y) = (x < y)"
| "fval_less (FFin x) (FInf neg) = (\<not> neg)"
| "fval_less (FInf neg) (FFin y) = neg"
| "fval_less (FInf neg) (FInf neg') = (neg \<and> \<not> neg')"

fun fval_leq :: "fval \<Rightarrow> fval \<Rightarrow> bool" where
  "fval_leq FNaN _ = False"
| "fval_leq _ FNaN = False"
| "fval_leq (FFin x) (FFin y) = (x \<le> y)"
| "fval_leq (FFin x) (FInf neg) = (\<not> neg)"
| "fval_leq (FInf neg) (FFin y) = neg"
| "fval_leq (FInf neg) (FInf neg') = (neg \<or> \<not> neg')"

definition dbl_less :: "double \<Rightarrow> double \<Rightarrow> bool" where
  "dbl_less a b = fval_less (dbl_value a) (dbl_value b)"

definition dbl_leq :: "double \<Rightarrow> double \<Rightarrow> bool" where
  "dbl_leq a b = fval_leq (dbl_value a) (dbl_value b)"

definition dbl_zero :: double where
  "dbl_zero = Double 0"

definition dbl_one :: double where
  "dbl_one = Double 0x3ff0000000000000"

text \<open>\<^verbatim>\<open>std::clamp\<close>.\<close>

definition dbl_clamp :: "double \<Rightarrow> double \<Rightarrow> double \<Rightarrow> double" where
  "dbl_clamp v lo hi = (if dbl_less v lo then lo else if dbl_less hi v then hi else v)"

lemma dbl_value_zero [simp]: "dbl_value dbl_zero = FFin 0"
  by (simp add: dbl_value_def dbl_zero_def dbl_exponent_def dbl_mantissa_def dbl_negative_def
      dbl_magnitude_def)

lemma dbl_value_one [simp]: "dbl_value dbl_one = FFin 1"
proof -
  have e: "dbl_exponent dbl_one = 1023" and m: "dbl_mantissa dbl_one = 0"
    and n: "\<not> dbl_negative dbl_one"
    by (simp_all add: dbl_one_def dbl_exponent_def dbl_mantissa_def dbl_negative_def)
  have "(2::rat) ^ 52 * 2 ^ 1022 = 2 ^ 1074" by (simp flip: power_add)
  then show ?thesis by (simp add: dbl_value_def dbl_magnitude_def e m n)
qed

text \<open>A clamped ratio is a NaN or a number between zero and one.\<close>

lemma dbl_clamp_unit:
  "dbl_value (dbl_clamp v dbl_zero dbl_one) = FNaN \<or>
   (\<exists>r. dbl_value (dbl_clamp v dbl_zero dbl_one) = FFin r \<and> 0 \<le> r \<and> r \<le> 1)"
  by (cases "dbl_value v") (auto simp: dbl_clamp_def dbl_less_def)

lemma dbl_clamp_id:
  "dbl_value v = FFin r \<Longrightarrow> 0 \<le> r \<Longrightarrow> r \<le> 1 \<Longrightarrow> dbl_clamp v dbl_zero dbl_one = v"
  by (simp add: dbl_clamp_def dbl_less_def)

end
