(* ===== verification/Span_Model.thy ===== *)
theory Span_Model
  imports Double64 Trace_Context
begin

text \<open>
  Model of \<^verbatim>\<open>galay-tracing/kernel/span.h\<close> and \<^verbatim>\<open>span.cc\<close>: attribute values (the
  \<^verbatim>\<open>std::variant\<close> is a datatype with its five alternatives in order), attributes, status, the
  global timing policy and the \<^verbatim>\<open>Span\<close> class. A time point of the steady clock is an integer
  with 0 for the default \<^verbatim>\<open>time_point{}\<close>; a call that reads the clock takes the reading as the
  argument \<open>now\<close>. \<^verbatim>\<open>std::get\<close> on the wrong alternative throws, which is the left side of a sum.
\<close>

section \<open>Attribute values\<close>

type_synonym time_point = int

datatype SpanTimingPolicy = Timing_kDisabled | Timing_kEnabled

datatype SpanKind = Kind_kInternal | Kind_kServer | Kind_kClient | Kind_kProducer | Kind_kConsumer

datatype SpanStatusCode = Status_kUnset | Status_kOk | Status_kError

datatype SpanAttributeType = Attr_kInt64 | Attr_kUInt64 | Attr_kDouble | Attr_kBool | Attr_kString

datatype SpanAttributeValue =
    SA_int64 i64
  | SA_uint64 u64
  | SA_double double
  | SA_bool bool
  | SA_string string

datatype variant_error = BadVariantAccess

definition SpanAttributeValue_default :: SpanAttributeValue where
  "SpanAttributeValue_default = SA_string []"

definition SpanAttributeValue_fromInt64 :: "i64 \<Rightarrow> SpanAttributeValue" where
  "SpanAttributeValue_fromInt64 value = SA_int64 value"

definition SpanAttributeValue_fromUInt64 :: "u64 \<Rightarrow> SpanAttributeValue" where
  "SpanAttributeValue_fromUInt64 value = SA_uint64 value"

definition SpanAttributeValue_fromDouble :: "double \<Rightarrow> SpanAttributeValue" where
  "SpanAttributeValue_fromDouble value = SA_double value"

definition SpanAttributeValue_fromBool :: "bool \<Rightarrow> SpanAttributeValue" where
  "SpanAttributeValue_fromBool value = SA_bool value"

definition SpanAttributeValue_fromString :: "string \<Rightarrow> SpanAttributeValue" where
  "SpanAttributeValue_fromString value = SA_string value"

fun SpanAttributeValue_type :: "SpanAttributeValue \<Rightarrow> SpanAttributeType" where
  "SpanAttributeValue_type (SA_int64 _) = Attr_kInt64"
| "SpanAttributeValue_type (SA_uint64 _) = Attr_kUInt64"
| "SpanAttributeValue_type (SA_double _) = Attr_kDouble"
| "SpanAttributeValue_type (SA_bool _) = Attr_kBool"
| "SpanAttributeValue_type (SA_string _) = Attr_kString"

fun SpanAttributeValue_asInt64 :: "SpanAttributeValue \<Rightarrow> variant_error + i64" where
  "SpanAttributeValue_asInt64 (SA_int64 v) = Inr v"
| "SpanAttributeValue_asInt64 _ = Inl BadVariantAccess"

fun SpanAttributeValue_asUInt64 :: "SpanAttributeValue \<Rightarrow> variant_error + u64" where
  "SpanAttributeValue_asUInt64 (SA_uint64 v) = Inr v"
| "SpanAttributeValue_asUInt64 _ = Inl BadVariantAccess"

fun SpanAttributeValue_asDouble :: "SpanAttributeValue \<Rightarrow> variant_error + double" where
  "SpanAttributeValue_asDouble (SA_double v) = Inr v"
| "SpanAttributeValue_asDouble _ = Inl BadVariantAccess"

fun SpanAttributeValue_asBool :: "SpanAttributeValue \<Rightarrow> variant_error + bool" where
  "SpanAttributeValue_asBool (SA_bool v) = Inr v"
| "SpanAttributeValue_asBool _ = Inl BadVariantAccess"

fun SpanAttributeValue_asString :: "SpanAttributeValue \<Rightarrow> variant_error + string" where
  "SpanAttributeValue_asString (SA_string v) = Inr v"
| "SpanAttributeValue_asString _ = Inl BadVariantAccess"

record SpanAttribute =
  sa_name :: string
  sa_value :: SpanAttributeValue

text \<open>The overloads of \<^verbatim>\<open>spanAttribute\<close>. A C string is \<^term>\<open>None\<close> for the null pointer.\<close>

definition spanAttribute_int64 :: "string \<Rightarrow> i64 \<Rightarrow> SpanAttribute" where
  "spanAttribute_int64 name value = \<lparr>sa_name = name, sa_value = SpanAttributeValue_fromInt64 value\<rparr>"

definition spanAttribute_int :: "string \<Rightarrow> 32 word \<Rightarrow> SpanAttribute" where
  "spanAttribute_int name value = spanAttribute_int64 name (scast value)"

definition spanAttribute_uint64 :: "string \<Rightarrow> u64 \<Rightarrow> SpanAttribute" where
  "spanAttribute_uint64 name value = \<lparr>sa_name = name, sa_value = SpanAttributeValue_fromUInt64 value\<rparr>"

definition spanAttribute_double :: "string \<Rightarrow> double \<Rightarrow> SpanAttribute" where
  "spanAttribute_double name value = \<lparr>sa_name = name, sa_value = SpanAttributeValue_fromDouble value\<rparr>"

definition spanAttribute_bool :: "string \<Rightarrow> bool \<Rightarrow> SpanAttribute" where
  "spanAttribute_bool name value = \<lparr>sa_name = name, sa_value = SpanAttributeValue_fromBool value\<rparr>"

definition spanAttribute_string :: "string \<Rightarrow> string \<Rightarrow> SpanAttribute" where
  "spanAttribute_string name value = \<lparr>sa_name = name, sa_value = SpanAttributeValue_fromString value\<rparr>"

definition spanAttribute_cstr :: "string \<Rightarrow> string option \<Rightarrow> SpanAttribute" where
  "spanAttribute_cstr name value =
     spanAttribute_string name (case value of None \<Rightarrow> [] | Some s \<Rightarrow> s)"

section \<open>Span\<close>

record SpanStatus =
  st_code :: SpanStatusCode
  st_message :: string

definition SpanStatus_default :: SpanStatus where
  "SpanStatus_default = \<lparr>st_code = Status_kUnset, st_message = []\<rparr>"

definition kMaxAttributes :: nat where
  "kMaxAttributes = 32"

record Span =
  sp_name :: string
  sp_context :: SpanContext
  sp_tracestate :: string
  sp_kind :: SpanKind
  sp_status :: SpanStatus
  sp_attributes :: "SpanAttribute list"
  sp_startedAt :: time_point
  sp_endedAt :: time_point
  sp_ended :: bool

definition Span_default :: Span where
  "Span_default =
     \<lparr>sp_name = [], sp_context = SpanContext_default, sp_tracestate = [], sp_kind = Kind_kInternal,
      sp_status = SpanStatus_default, sp_attributes = [], sp_startedAt = 0, sp_endedAt = 0,
      sp_ended = False\<rparr>"

definition setSpanTimingPolicy :: "SpanTimingPolicy \<Rightarrow> SpanTimingPolicy \<Rightarrow> SpanTimingPolicy" where
  "setSpanTimingPolicy policy g_spanTimingPolicy = policy"

definition spanTimingPolicy :: "SpanTimingPolicy \<Rightarrow> SpanTimingPolicy" where
  "spanTimingPolicy g_spanTimingPolicy = g_spanTimingPolicy"

text \<open>The four constructors; the last one, with every argument given, does the work.\<close>

definition Span_new ::
  "string \<Rightarrow> SpanContext \<Rightarrow> string \<Rightarrow> SpanTimingPolicy \<Rightarrow> time_point \<Rightarrow> Span" where
  "Span_new name ctx tracestate timingPolicy now =
     Span_default\<lparr>sp_name := name, sp_context := ctx, sp_tracestate := tracestate,
       sp_startedAt := (if timingPolicy = Timing_kEnabled then now else 0)\<rparr>"

definition Span_new_global ::
  "string \<Rightarrow> SpanContext \<Rightarrow> string \<Rightarrow> SpanTimingPolicy \<Rightarrow> time_point \<Rightarrow> Span" where
  "Span_new_global name ctx tracestate g_spanTimingPolicy now =
     Span_new name ctx tracestate (spanTimingPolicy g_spanTimingPolicy) now"

definition Span_new_traceContext ::
  "string \<Rightarrow> TraceContext \<Rightarrow> SpanTimingPolicy \<Rightarrow> time_point \<Rightarrow> Span" where
  "Span_new_traceContext name ctx timingPolicy now =
     Span_new name (SpanContext_of ctx) (tc_tracestate ctx) timingPolicy now"

definition Span_new_traceContext_global ::
  "string \<Rightarrow> TraceContext \<Rightarrow> SpanTimingPolicy \<Rightarrow> time_point \<Rightarrow> Span" where
  "Span_new_traceContext_global name ctx g_spanTimingPolicy now =
     Span_new_traceContext name ctx (spanTimingPolicy g_spanTimingPolicy) now"

definition Span_context :: "Span \<Rightarrow> TraceContext" where
  "Span_context s = toTraceContext (sp_context s) (sp_tracestate s)"

definition Span_setKind :: "SpanKind \<Rightarrow> Span \<Rightarrow> Span" where
  "Span_setKind kind s = s\<lparr>sp_kind := kind\<rparr>"

definition Span_setStatus :: "SpanStatusCode \<Rightarrow> string \<Rightarrow> Span \<Rightarrow> Span" where
  "Span_setStatus code message s = s\<lparr>sp_status := \<lparr>st_code = code, st_message = message\<rparr>\<rparr>"

definition Span_setAttribute :: "SpanAttribute \<Rightarrow> Span \<Rightarrow> bool \<times> Span" where
  "Span_setAttribute attribute s =
     (if length (sp_attributes s) \<ge> kMaxAttributes then (False, s)
      else (True, s\<lparr>sp_attributes := sp_attributes s @ [attribute]\<rparr>))"

definition Span_setAttribute_int64 :: "string \<Rightarrow> i64 \<Rightarrow> Span \<Rightarrow> bool \<times> Span" where
  "Span_setAttribute_int64 name value = Span_setAttribute (spanAttribute_int64 name value)"

definition Span_setAttribute_int :: "string \<Rightarrow> 32 word \<Rightarrow> Span \<Rightarrow> bool \<times> Span" where
  "Span_setAttribute_int name value = Span_setAttribute_int64 name (scast value)"

definition Span_setAttribute_uint64 :: "string \<Rightarrow> u64 \<Rightarrow> Span \<Rightarrow> bool \<times> Span" where
  "Span_setAttribute_uint64 name value = Span_setAttribute (spanAttribute_uint64 name value)"

definition Span_setAttribute_double :: "string \<Rightarrow> double \<Rightarrow> Span \<Rightarrow> bool \<times> Span" where
  "Span_setAttribute_double name value = Span_setAttribute (spanAttribute_double name value)"

definition Span_setAttribute_bool :: "string \<Rightarrow> bool \<Rightarrow> Span \<Rightarrow> bool \<times> Span" where
  "Span_setAttribute_bool name value = Span_setAttribute (spanAttribute_bool name value)"

definition Span_setAttribute_string :: "string \<Rightarrow> string \<Rightarrow> Span \<Rightarrow> bool \<times> Span" where
  "Span_setAttribute_string name value = Span_setAttribute (spanAttribute_string name value)"

definition Span_setAttribute_cstr :: "string \<Rightarrow> string option \<Rightarrow> Span \<Rightarrow> bool \<times> Span" where
  "Span_setAttribute_cstr name value =
     Span_setAttribute_string name (case value of None \<Rightarrow> [] | Some s \<Rightarrow> s)"

definition Span_end :: "time_point \<Rightarrow> Span \<Rightarrow> Span" where
  "Span_end now s =
     (if \<not> sp_ended s then
        (if sp_startedAt s \<noteq> 0 then s\<lparr>sp_endedAt := now\<rparr> else s)\<lparr>sp_ended := True\<rparr>
      else s)"

section \<open>Facts on spans\<close>

lemma Span_new_fields [simp, ctx_simps]:
  "sp_name (Span_new n c ts p now) = n"
  "sp_context (Span_new n c ts p now) = c"
  "sp_tracestate (Span_new n c ts p now) = ts"
  "sp_attributes (Span_new n c ts p now) = []"
  "sp_kind (Span_new n c ts p now) = Kind_kInternal"
  "sp_ended (Span_new n c ts p now) = False"
  "sp_startedAt (Span_new n c ts p now) = (if p = Timing_kEnabled then now else 0)"
  "sp_endedAt (Span_new n c ts p now) = 0"
  by (simp_all add: Span_new_def Span_default_def)

lemma Span_end_fields [simp, ctx_simps]:
  "sp_name (Span_end now s) = sp_name s"
  "sp_context (Span_end now s) = sp_context s"
  "sp_tracestate (Span_end now s) = sp_tracestate s"
  "sp_attributes (Span_end now s) = sp_attributes s"
  "sp_kind (Span_end now s) = sp_kind s"
  "sp_status (Span_end now s) = sp_status s"
  "sp_startedAt (Span_end now s) = sp_startedAt s"
  "sp_ended (Span_end now s)"
  by (simp_all add: Span_end_def)

text \<open>One call of an overload of \<^verbatim>\<open>setAttribute\<close>, as data.\<close>

fun set_attributes :: "SpanAttribute list \<Rightarrow> Span \<Rightarrow> bool list \<times> Span" where
  "set_attributes [] s = ([], s)"
| "set_attributes (a # as) s =
     (let (ok, s') = Span_setAttribute a s; (oks, s'') = set_attributes as s' in (ok # oks, s''))"

lemma set_attributes_result:
  "length (sp_attributes s) \<le> kMaxAttributes \<Longrightarrow>
   set_attributes as s =
     (let n = kMaxAttributes - length (sp_attributes s)
      in (replicate (min n (length as)) True @ replicate (length as - n) False,
          s\<lparr>sp_attributes := sp_attributes s @ take n as\<rparr>))"
proof (induction as arbitrary: s)
  case (Cons a as)
  show ?case
  proof (cases "length (sp_attributes s) = kMaxAttributes")
    case True
    then have "Span_setAttribute a s = (False, s)" by (simp add: Span_setAttribute_def)
    then show ?thesis using Cons.IH [OF Cons.prems] True by simp
  next
    case False
    let ?s = "s\<lparr>sp_attributes := sp_attributes s @ [a]\<rparr>"
    have set: "Span_setAttribute a s = (True, ?s)"
      using False Cons.prems by (simp add: Span_setAttribute_def)
    obtain k where k: "kMaxAttributes - length (sp_attributes s) = Suc k"
      using False Cons.prems by (metis diff_is_0_eq le_antisym not0_implies_Suc)
    then have "kMaxAttributes - length (sp_attributes ?s) = k" "length (sp_attributes ?s) \<le> kMaxAttributes"
      using Cons.prems False by simp_all
    then show ?thesis using Cons.IH [of ?s] k by (simp add: set Let_def)
  qed
qed simp

section \<open>Properties\<close>

text \<open>Whatever attributes are set on a span that has at most 32, the span keeps the first ones up
  to 32 in the order of the calls, the calls that were kept return true and the others return
  false, and nothing else of the span changes.\<close>

theorem span_attributes_bounded:
  assumes "length (sp_attributes s) \<le> kMaxAttributes"
  shows "let n = kMaxAttributes - length (sp_attributes s); (oks, s') = set_attributes as s
         in length (sp_attributes s') \<le> kMaxAttributes \<and>
            s' = s\<lparr>sp_attributes := sp_attributes s @ take n as\<rparr> \<and>
            oks = replicate (min n (length as)) True @ replicate (length as - n) False"
  using assms set_attributes_result [OF assms, of as] by (simp add: Let_def)

theorem span_attributes_bounded_witness:
  "fst (set_attributes (replicate 34 (spanAttribute_bool ''retry'' True)) Span_default)
     = replicate 32 True @ [False, False]"
proof -
  let ?as = "replicate 34 (spanAttribute_bool ''retry'' True)"
  have "fst (set_attributes ?as Span_default) =
      replicate (min kMaxAttributes (length ?as)) True @ replicate (length ?as - kMaxAttributes) False"
    using span_attributes_bounded [of Span_default ?as]
    by (simp add: Span_default_def split_beta Let_def del: set_attributes.simps)
  then show ?thesis by (simp add: kMaxAttributes_def numeral_2_eq_2 del: set_attributes.simps)
qed

text \<open>Reading an attribute value through the accessor of the type it was made with gives the
  value back, and every other accessor throws; an \<^verbatim>\<open>int\<close> argument keeps its signed value when it
  is widened to 64 bits.\<close>

theorem attribute_value_roundtrip:
  "SpanAttributeValue_asInt64 (SpanAttributeValue_fromInt64 i) = Inr i \<and>
   SpanAttributeValue_asUInt64 (SpanAttributeValue_fromUInt64 u) = Inr u \<and>
   SpanAttributeValue_asDouble (SpanAttributeValue_fromDouble d) = Inr d \<and>
   SpanAttributeValue_asBool (SpanAttributeValue_fromBool b) = Inr b \<and>
   SpanAttributeValue_asString (SpanAttributeValue_fromString s) = Inr s \<and>
   sa_value (spanAttribute_int name n) = SpanAttributeValue_fromInt64 (word_of_int (sint n)) \<and>
   sint (word_of_int (sint n) :: i64) = sint n \<and>
   (SpanAttributeValue_asInt64 v = Inl BadVariantAccess) = (SpanAttributeValue_type v \<noteq> Attr_kInt64) \<and>
   (SpanAttributeValue_asUInt64 v = Inl BadVariantAccess) = (SpanAttributeValue_type v \<noteq> Attr_kUInt64) \<and>
   (SpanAttributeValue_asDouble v = Inl BadVariantAccess) = (SpanAttributeValue_type v \<noteq> Attr_kDouble) \<and>
   (SpanAttributeValue_asBool v = Inl BadVariantAccess) = (SpanAttributeValue_type v \<noteq> Attr_kBool) \<and>
   (SpanAttributeValue_asString v = Inl BadVariantAccess) = (SpanAttributeValue_type v \<noteq> Attr_kString)"
proof -
  have "sint (word_of_int (sint n) :: i64) = sint n"
    by transfer simp
  moreover have "sa_value (spanAttribute_int name n) = SpanAttributeValue_fromInt64 (word_of_int (sint n))"
    by (simp add: spanAttribute_int_def spanAttribute_int64_def)
  ultimately show ?thesis
    by (cases v) (simp_all add: SpanAttributeValue_fromInt64_def SpanAttributeValue_fromUInt64_def
        SpanAttributeValue_fromDouble_def SpanAttributeValue_fromBool_def SpanAttributeValue_fromString_def)
qed

text \<open>Ending a span again changes nothing; with timing enabled and a clock that does not run
  backwards the end time is not before the start time, and with timing disabled both stay zero.\<close>

theorem span_end_once_and_ordered:
  assumes "0 < t0" and "t0 \<le> t1"
  shows "Span_end t2 (Span_end t1 s) = Span_end t1 s \<and>
         sp_startedAt (Span_end t1 (Span_new n c ts Timing_kEnabled t0)) = t0 \<and>
         sp_endedAt (Span_end t1 (Span_new n c ts Timing_kEnabled t0)) = t1 \<and>
         sp_startedAt (Span_end t1 (Span_new n c ts Timing_kDisabled t0)) = 0 \<and>
         sp_endedAt (Span_end t1 (Span_new n c ts Timing_kDisabled t0)) = 0"
  using assms by (simp add: Span_end_def)

theorem span_end_once_and_ordered_witness:
  "sp_endedAt (Span_end 9 (Span_new ''op'' SpanContext_default [] Timing_kEnabled 5)) = 9"
  using span_end_once_and_ordered [of 5 9 9 Span_default "''op''" SpanContext_default "[]"] by simp

end
