(* ===== verification/Sampler.thy ===== *)
theory Sampler
  imports Double64 Trace_Context
begin

text \<open>
  Model of \<^verbatim>\<open>galay-tracing/kernel/sampler.h\<close> and \<^verbatim>\<open>sampler.cc\<close>. A sampler object is a value
  of the datatype \<open>Sampler\<close>, one constructor per class and one for samplers that a user of the
  library derives; the virtual \<^verbatim>\<open>shouldSample\<close> is a function on it. The global pointer
  \<^verbatim>\<open>g_sampler\<close> is an optional sampler.

  The quotient by \<^verbatim>\<open>UINT64_MAX + 1\<close> in \<^verbatim>\<open>TraceIdRatioSampler::shouldSample\<close> is computed
  in \<^verbatim>\<open>long double\<close>. With the 64-bit significand of the x86 extended format (or a wider one) the
  conversion and the division by a power of two are exact, so the model computes them in the
  rational numbers.
\<close>

section \<open>Definitions\<close>

datatype Sampler =
    AlwaysOnSampler
  | AlwaysOffSampler
  | ParentBasedSampler (m_rootSampler: "Sampler option")
  | TraceIdRatioSampler (m_ratio: double)
  | CustomSampler "SpanContext option \<Rightarrow> TraceId \<Rightarrow> bool"

definition traceIdHighBits :: "TraceId \<Rightarrow> u64" where
  "traceIdHighBits traceId =
     fold (\<lambda>i value. push_bit 8 value OR ucast (tid_bytes traceId ! i)) [0..<8] 0"

definition ParentBasedSampler_new :: "Sampler \<Rightarrow> Sampler" where
  "ParentBasedSampler_new rootSampler = ParentBasedSampler (Some rootSampler)"

definition TraceIdRatioSampler_new :: "double \<Rightarrow> Sampler" where
  "TraceIdRatioSampler_new ratio = TraceIdRatioSampler (dbl_clamp ratio dbl_zero dbl_one)"

definition kDenominator :: rat where
  "kDenominator = of_nat (2 ^ 64 - 1) + 1"

definition ratioShouldSample :: "double \<Rightarrow> TraceId \<Rightarrow> bool" where
  "ratioShouldSample ratio traceId =
     (if dbl_leq ratio dbl_zero then False
      else if dbl_leq dbl_one ratio then True
      else
        let normalized = of_nat (unat (traceIdHighBits traceId)) / kDenominator
        in fval_less (FFin normalized) (dbl_value ratio))"

fun shouldSample :: "Sampler \<Rightarrow> SpanContext option \<Rightarrow> TraceId \<Rightarrow> bool" where
  "shouldSample AlwaysOnSampler parent traceId = True"
| "shouldSample AlwaysOffSampler parent traceId = False"
| "shouldSample (ParentBasedSampler rootSampler) parent traceId =
     (case parent of
        Some p \<Rightarrow>
          if SpanContext_isValid p then SpanContext_sampled p
          else (case rootSampler of None \<Rightarrow> True | Some r \<Rightarrow> shouldSample r None traceId)
      | None \<Rightarrow> (case rootSampler of None \<Rightarrow> True | Some r \<Rightarrow> shouldSample r None traceId))"
| "shouldSample (TraceIdRatioSampler ratio) parent traceId = ratioShouldSample ratio traceId"
| "shouldSample (CustomSampler f) parent traceId = f parent traceId"

definition builtInSampler :: Sampler where
  "builtInSampler = ParentBasedSampler_new AlwaysOnSampler"

definition setSampler :: "Sampler option \<Rightarrow> Sampler option \<Rightarrow> Sampler option" where
  "setSampler sampler g_sampler = sampler"

definition currentSampler :: "Sampler option \<Rightarrow> Sampler" where
  "currentSampler g_sampler = (case g_sampler of Some s \<Rightarrow> s | None \<Rightarrow> builtInSampler)"

section \<open>The high bits of a trace id\<close>

lemma high_bits_fold:
  assumes "k \<le> 8"
  shows "bit (fold (\<lambda>i value. push_bit 8 value OR ucast (bs ! i)) [0..<k] (0 :: u64)) n \<longleftrightarrow>
     n < 8 * k \<and> bit ((bs :: byte list) ! (k - 1 - n div 8)) (n mod 8)"
  using assms
proof (induction k arbitrary: n)
  case 0
  then show ?case by simp
next
  case (Suc k)
  let ?f = "fold (\<lambda>i value. push_bit 8 value OR ucast (bs ! i)) [0..<k] (0 :: u64)"
  have "bit (push_bit 8 ?f OR ucast (bs ! k)) n \<longleftrightarrow>
      (8 \<le> n \<and> n < 64 \<and> bit ?f (n - 8)) \<or> (n < 8 \<and> bit (bs ! k) n)"
    by (auto simp: bit_or_iff bit_push_bit_iff bit_unsigned_iff dest: bit_imp_le_length)
  also have "\<dots> \<longleftrightarrow> n < 8 * Suc k \<and> bit (bs ! (k - n div 8)) (n mod 8)"
  proof (cases "n < 8")
    case False
    then have "8 \<le> n" by simp
    then obtain m where n: "n = m + 8" using le_Suc_ex by (metis add.commute)
    have "k - 1 - m div 8 = k - n div 8" "n mod 8 = m mod 8" by (simp_all add: n)
    moreover have "bit ?f m \<longleftrightarrow> m < 8 * k \<and> bit (bs ! (k - 1 - m div 8)) (m mod 8)"
      using Suc by simp
    moreover have "m < 8 * k \<longrightarrow> m < 56" using Suc.prems by linarith
    ultimately show ?thesis by (auto simp: n)
  qed simp
  finally show ?case by simp
qed

text \<open>The big-endian bytes of a 64-bit value.\<close>

definition be_bytes :: "u64 \<Rightarrow> byte list" where
  "be_bytes w = map (\<lambda>i. ucast (drop_bit (8 * (7 - i)) w)) [0..<8]"

lemma traceIdHighBits_be_bytes: "traceIdHighBits \<lparr>tid_bytes = be_bytes w @ bs\<rparr> = w"
proof (rule bit_word_eqI)
  fix n assume n: "n < LENGTH(64)"
  then have i: "7 - n div 8 < 8" "7 - (7 - n div 8) = n div 8" by auto
  have "(be_bytes w @ bs) ! (7 - n div 8) = ucast (drop_bit (8 * (n div 8)) w)"
    using i by (simp add: be_bytes_def nth_append)
  then show "bit (traceIdHighBits \<lparr>tid_bytes = be_bytes w @ bs\<rparr>) n = bit w n"
    using n high_bits_fold [of 8 "be_bytes w @ bs" n]
    by (simp add: traceIdHighBits_def bit_unsigned_iff bit_drop_bit_eq)
qed

section \<open>Ratio sampling\<close>

lemma kDenominator_eq: "kDenominator = 2 ^ 64"
  by (simp add: kDenominator_def)

lemma ratioShouldSample_iff:
  assumes "dbl_value ratio = FFin r" "0 \<le> r" "r \<le> 1"
  shows "ratioShouldSample ratio t \<longleftrightarrow> of_nat (unat (traceIdHighBits t)) < r * 2 ^ 64"
proof -
  have "(of_nat (unat (traceIdHighBits t)) :: rat) < of_nat (2 ^ 64)"
    using word64_lt [of "traceIdHighBits t"] by (simp only: of_nat_less_iff)
  then have lt: "(of_nat (unat (traceIdHighBits t)) :: rat) < 2 ^ 64" by simp
  have nonneg: "(0::rat) \<le> of_nat (unat (traceIdHighBits t))"
    by (simp only: of_nat_0_le_iff)
  consider "r = 0" | "r = 1" | "0 < r" "r < 1" using assms(2,3) by linarith
  then show ?thesis
  proof cases
    case 3
    then show ?thesis
      using assms(1)
      by (simp add: ratioShouldSample_def dbl_leq_def kDenominator_eq Let_def pos_divide_less_eq)
  qed (use assms(1) lt nonneg in \<open>auto simp: ratioShouldSample_def dbl_leq_def not_less\<close>)
qed

lemma ratioShouldSample_NaN: "dbl_value ratio = FNaN \<Longrightarrow> \<not> ratioShouldSample ratio t"
  by (simp add: ratioShouldSample_def dbl_leq_def Let_def)

lemma card_less_words:
  assumes "0 \<le> q" "q \<le> 2 ^ 64"
  shows "card {w :: u64. of_nat (unat w) < (q :: rat)} = nat \<lceil>q\<rceil>"
proof -
  have ceil: "0 \<le> \<lceil>q\<rceil>" "\<lceil>q\<rceil> \<le> 2 ^ 64"
    using assms by (simp_all add: ceiling_le_iff)
  have iff: "of_nat (unat w) < q \<longleftrightarrow> unat w < nat \<lceil>q\<rceil>" for w :: u64
    using less_ceiling_iff [of "int (unat w)" q] ceil(1) by (simp add: zless_nat_eq_int_zless)
  have "unat ` {w :: u64. of_nat (unat w) < q} = {..<nat \<lceil>q\<rceil>}"
  proof (intro set_eqI iffI)
    fix n assume n: "n \<in> {..<nat \<lceil>q\<rceil>}"
    then have "int n < \<lceil>q\<rceil>" by (simp add: zless_nat_eq_int_zless)
    then have "int n < 2 ^ 64" using ceil(2) by (rule less_le_trans)
    then have "n < 2 ^ 64" by simp
    then have "unat (of_nat n :: u64) = n" by (simp add: unsigned_of_nat take_bit_nat_eq_self)
    with n iff show "n \<in> unat ` {w :: u64. of_nat (unat w) < q}"
      by (metis imageI lessThan_iff mem_Collect_eq)
  next
    fix n assume "n \<in> unat ` {w :: u64. of_nat (unat w) < q}"
    then obtain w :: u64 where "n = unat w" "of_nat (unat w) < q" by blast
    then show "n \<in> {..<nat \<lceil>q\<rceil>}" unfolding iff by simp
  qed
  moreover have "inj_on unat {w :: u64. of_nat (unat w) < q}"
    by (simp add: inj_on_def word_unat_eq_iff)
  ultimately show ?thesis by (metis card_image card_lessThan)
qed

section \<open>Contracts of samplers\<close>

text \<open>A sampler that follows the decision of a valid parent.\<close>

locale parent_following =
  fixes sample :: "SpanContext option \<Rightarrow> TraceId \<Rightarrow> bool"
  assumes follows: "SpanContext_isValid p \<Longrightarrow> sample (Some p) t = SpanContext_sampled p"
begin

lemma siblings_agree: "SpanContext_isValid p \<Longrightarrow> sample (Some p) t = sample (Some p) t'"
  by (simp add: follows)

end

text \<open>A sampler whose decision is a function of the trace id, so that all spans of a trace agree.\<close>

locale trace_consistent =
  fixes sample :: "SpanContext option \<Rightarrow> TraceId \<Rightarrow> bool"
  assumes ignores_parent: "sample p t = sample None t"
begin

lemma trace_agrees: "sample p t = sample p' t"
  using ignores_parent [of p] ignores_parent [of p'] by simp

end

interpretation parent_based: parent_following "shouldSample (ParentBasedSampler r)" for r
  by unfold_locales simp

interpretation built_in: parent_following "shouldSample builtInSampler"
  by unfold_locales (simp add: builtInSampler_def ParentBasedSampler_new_def)

interpretation always_on: trace_consistent "shouldSample AlwaysOnSampler"
  by unfold_locales simp

interpretation always_off: trace_consistent "shouldSample AlwaysOffSampler"
  by unfold_locales simp

interpretation ratio_based: trace_consistent "shouldSample (TraceIdRatioSampler r)" for r
  by unfold_locales simp

section \<open>Properties\<close>

text \<open>C26: of the \<open>2 ^ 64\<close> values of the high half of a trace id, a ratio sampler with ratio \<open>r\<close>
  samples exactly \<open>\<lceil>r * 2 ^ 64\<rceil>\<close>, so uniformly drawn trace ids are sampled with the
  configured probability up to the rounding of one value; ratios 0 and 1 sample none and all.\<close>

theorem ratio_sampler_fraction:
  assumes "dbl_value ratio = FFin r" "0 \<le> r" "r \<le> 1"
  shows "card {traceIdHighBits t | t. TraceId_wf t \<and>
            shouldSample (TraceIdRatioSampler_new ratio) parent t} = nat \<lceil>r * 2 ^ 64\<rceil>"
proof -
  have sample: "shouldSample (TraceIdRatioSampler_new ratio) parent t \<longleftrightarrow>
      of_nat (unat (traceIdHighBits t)) < r * 2 ^ 64" for t
    using assms by (simp add: TraceIdRatioSampler_new_def dbl_clamp_id ratioShouldSample_iff)
  have "{traceIdHighBits t | t. TraceId_wf t \<and> shouldSample (TraceIdRatioSampler_new ratio) parent t}
      = {w. of_nat (unat w) < r * 2 ^ 64}"
  proof (intro set_eqI iffI)
    fix w assume w: "w \<in> {w :: u64. of_nat (unat w) < r * 2 ^ 64}"
    let ?t = "\<lparr>tid_bytes = be_bytes w @ replicate 8 0\<rparr>"
    have "TraceId_wf ?t" by (simp add: TraceId_wf_def TraceId_kByteLength_def be_bytes_def)
    moreover have "traceIdHighBits ?t = w" by (rule traceIdHighBits_be_bytes)
    ultimately show "w \<in> {traceIdHighBits t | t. TraceId_wf t \<and>
        shouldSample (TraceIdRatioSampler_new ratio) parent t}"
      using w sample by (intro CollectI exI [of _ ?t]) (simp add: sample)
  qed (auto simp: sample)
  then show ?thesis using card_less_words [of "r * 2 ^ 64"] assms(2,3) by simp
qed

theorem ratio_sampler_fraction_witness:
  "card {traceIdHighBits t | t. TraceId_wf t \<and>
      shouldSample (TraceIdRatioSampler_new (Double 0x3fe0000000000000)) None t} = 2 ^ 63"
proof -
  have e: "dbl_exponent (Double 0x3fe0000000000000) = 1022"
    and m: "dbl_mantissa (Double 0x3fe0000000000000) = 0"
    and n: "\<not> dbl_negative (Double 0x3fe0000000000000)"
    by (simp_all add: dbl_exponent_def dbl_mantissa_def dbl_negative_def)
  have "(2::rat) ^ 52 * 2 ^ 1021 * 2 = 2 ^ 1074" by (simp flip: power_add power_Suc2)
  then have "dbl_value (Double 0x3fe0000000000000) = FFin (1 / 2)"
    by (simp add: dbl_value_def dbl_magnitude_def e m n)
  from ratio_sampler_fraction [OF this, of None] show ?thesis by simp
qed

text \<open>A larger ratio samples every trace that a smaller one samples, and the decision depends on
  the trace id alone, not on the parent.\<close>

theorem ratio_sampler_monotone:
  assumes "dbl_leq a b" and "shouldSample (TraceIdRatioSampler_new a) p t"
  shows "shouldSample (TraceIdRatioSampler_new b) p' t"
proof -
  let ?a = "dbl_clamp a dbl_zero dbl_one" and ?b = "dbl_clamp b dbl_zero dbl_one"
  have "ratioShouldSample ?a t" using assms(2) by (simp add: TraceIdRatioSampler_new_def)
  then obtain ra where ra: "dbl_value ?a = FFin ra" "0 \<le> ra" "ra \<le> 1"
    using dbl_clamp_unit [of a] ratioShouldSample_NaN by blast
  have "dbl_value b \<noteq> FNaN" using assms(1) by (cases "dbl_value a") (auto simp: dbl_leq_def)
  then obtain rb where rb: "dbl_value ?b = FFin rb" "0 \<le> rb" "rb \<le> 1"
    using dbl_clamp_unit [of b] by (cases "dbl_value b") (auto simp: dbl_clamp_def split: if_splits)
  have "ra \<le> rb"
    using assms(1) ra rb
    by (cases "dbl_value a"; cases "dbl_value b")
      (auto simp: dbl_leq_def dbl_clamp_def dbl_less_def split: if_splits)
  moreover have "of_nat (unat (traceIdHighBits t)) < ra * 2 ^ 64"
    using \<open>ratioShouldSample ?a t\<close> ra by (simp add: ratioShouldSample_iff)
  ultimately show ?thesis
    using rb by (simp add: TraceIdRatioSampler_new_def ratioShouldSample_iff)
qed

theorem ratio_sampler_monotone_witness:
  "shouldSample (TraceIdRatioSampler_new dbl_one) None (TraceId_fromHex ''ff'')"
  by (rule ratio_sampler_monotone [of dbl_one dbl_one None])
    (simp_all add: dbl_leq_def TraceIdRatioSampler_new_def dbl_clamp_def dbl_less_def ratioShouldSample_def)

text \<open>With no sampler configured the library samples every root span and otherwise follows the
  decision of a valid parent, and a parent that is not valid counts as none; configuring a
  sampler makes it the current one and configuring none restores this default.\<close>

theorem default_sampler_parent_based:
  "shouldSample (currentSampler (setSampler None g)) parent t =
     (case parent of Some p \<Rightarrow> if SpanContext_isValid p then SpanContext_sampled p else True
                   | None \<Rightarrow> True) \<and>
   currentSampler (setSampler (Some s) g) = s"
  by (simp add: currentSampler_def setSampler_def builtInSampler_def ParentBasedSampler_new_def
      split: option.splits)

end
