(* ===== verification/Context_Storage.thy ===== *)
theory Context_Storage
  imports Trace_Context
begin

text \<open>
  Model of \<^verbatim>\<open>galay-tracing/context/context_storage.h\<close> and \<^verbatim>\<open>context_storage.cc\<close> (the
  thread-local slot \<^verbatim>\<open>t_currentContext\<close>) and of \<^verbatim>\<open>galay-tracing/adapters/kernel_context.h\<close>
  (the RAII scope that sets the slot and puts the old value back). Every operation takes the slot
  of the calling thread and returns the new one.

  The locale \<open>scoped_slot\<close> is the contract a scope guard relies on: writing back a value that was
  read from the slot restores the slot, whatever happened in between. It is interpreted for the
  two pairs of accessors the library uses, \<^verbatim>\<open>currentContextState\<close> with
  \<^verbatim>\<open>setCurrentContextState\<close> (span guards) and \<^verbatim>\<open>currentContext\<close> with
  \<^verbatim>\<open>setCurrentContext\<close> (kernel scopes).
\<close>

section \<open>Definitions\<close>

record CurrentContextState =
  ccs_spanContext :: "SpanContext option"
  ccs_tracestate :: string

text \<open>The initial value of \<^verbatim>\<open>t_currentContext\<close> in a new thread.\<close>

definition t_currentContext_init :: CurrentContextState where
  "t_currentContext_init = \<lparr>ccs_spanContext = None, ccs_tracestate = []\<rparr>"

definition currentContextState :: "CurrentContextState \<Rightarrow> CurrentContextState" where
  "currentContextState slot = slot"

definition setCurrentContextState ::
  "CurrentContextState \<Rightarrow> CurrentContextState \<Rightarrow> CurrentContextState" where
  "setCurrentContextState state slot =
     (if ccs_spanContext state = None then state\<lparr>ccs_tracestate := []\<rparr> else state)"

definition currentContext :: "CurrentContextState \<Rightarrow> TraceContext option" where
  "currentContext slot =
     (case ccs_spanContext slot of
        None \<Rightarrow> None
      | Some sc \<Rightarrow> Some (toTraceContext sc (ccs_tracestate slot)))"

definition clearCurrentContext :: "CurrentContextState \<Rightarrow> CurrentContextState" where
  "clearCurrentContext slot = slot\<lparr>ccs_spanContext := None, ccs_tracestate := []\<rparr>"

definition setCurrentContext :: "TraceContext option \<Rightarrow> CurrentContextState \<Rightarrow> CurrentContextState" where
  "setCurrentContext context slot =
     (case context of
        None \<Rightarrow> clearCurrentContext slot
      | Some c \<Rightarrow> \<lparr>ccs_spanContext = Some (SpanContext_of c), ccs_tracestate = tc_tracestate c\<rparr>)"

definition setCurrentContext_ref :: "TraceContext \<Rightarrow> CurrentContextState \<Rightarrow> CurrentContextState" where
  "setCurrentContext_ref context slot = setCurrentContext (Some context) slot"

text \<open>\<^verbatim>\<open>adapters/kernel_context.h\<close>. Copying the tracestate while the scope is destroyed can throw
  \<^verbatim>\<open>std::bad_alloc\<close>; \<open>throws\<close> says whether it does, and the handler then clears the slot.\<close>

record KernelTraceContextScope =
  ks_previous :: "TraceContext option"

definition KernelTraceContextScope_new ::
  "TraceContext option \<Rightarrow> CurrentContextState \<Rightarrow> KernelTraceContextScope \<times> CurrentContextState" where
  "KernelTraceContextScope_new context slot =
     (\<lparr>ks_previous = currentContext slot\<rparr>, setCurrentContext context slot)"

definition KernelTraceContextScope_destroy ::
  "KernelTraceContextScope \<Rightarrow> bool \<Rightarrow> CurrentContextState \<Rightarrow> CurrentContextState" where
  "KernelTraceContextScope_destroy scope throws slot =
     (if throws then clearCurrentContext slot else setCurrentContext (ks_previous scope) slot)"

definition captureTraceContext :: "CurrentContextState \<Rightarrow> TraceContext option" where
  "captureTraceContext slot = currentContext slot"

text \<open>The invariant of the slot: without a span context there is no tracestate either.\<close>

definition slot_ok :: "CurrentContextState \<Rightarrow> bool" where
  "slot_ok slot \<longleftrightarrow> (ccs_spanContext slot = None \<longrightarrow> ccs_tracestate slot = [])"

definition slot_wf :: "CurrentContextState \<Rightarrow> bool" where
  "slot_wf slot \<longleftrightarrow> pred_option SpanContext_wf (ccs_spanContext slot)"

section \<open>The slot invariant\<close>

lemma slot_ok_init [simp]: "slot_ok t_currentContext_init"
  by (simp add: slot_ok_def t_currentContext_init_def)

lemma slot_ok_setCurrentContextState [simp]: "slot_ok (setCurrentContextState state slot)"
  by (auto simp: slot_ok_def setCurrentContextState_def)

lemma slot_ok_clear [simp]: "slot_ok (clearCurrentContext slot)"
  by (simp add: slot_ok_def clearCurrentContext_def)

lemma slot_ok_setCurrentContext [simp]: "slot_ok (setCurrentContext ctx slot)"
  by (cases ctx) (simp_all add: setCurrentContext_def, simp add: slot_ok_def)

lemma setCurrentContextState_ok [slot_simps]:
  "slot_ok state \<Longrightarrow> setCurrentContextState state slot = state"
  by (cases state) (simp add: slot_ok_def setCurrentContextState_def)

lemma currentContext_clear [simp, slot_simps]: "currentContext (clearCurrentContext slot) = None"
  by (simp add: currentContext_def clearCurrentContext_def)

lemma currentContext_setCurrentContext [simp, slot_simps]:
  "currentContext (setCurrentContext ctx slot) = ctx"
  by (cases ctx) (simp_all add: setCurrentContext_def, simp add: currentContext_def)

lemma currentContext_Some:
  "ccs_spanContext slot = Some sc \<Longrightarrow>
     currentContext slot = Some (toTraceContext sc (ccs_tracestate slot))"
  by (simp add: currentContext_def)

lemma setCurrentContext_currentContext [slot_simps]:
  "slot_ok slot \<Longrightarrow> setCurrentContext (currentContext slot) slot' = slot"
  by (cases slot)
    (auto simp: setCurrentContext_def currentContext_def clearCurrentContext_def slot_ok_def
      split: option.splits)

section \<open>The contract of a scoped slot\<close>

locale scoped_slot =
  fixes get :: "'s \<Rightarrow> 'v"
    and set :: "'v \<Rightarrow> 's \<Rightarrow> 's"
    and ok :: "'s \<Rightarrow> bool"
  assumes ok_set: "ok (set v s)"
    and set_get: "ok s \<Longrightarrow> set (get s) s' = s"
begin

lemma bracket: "ok s \<Longrightarrow> set (get s) (body (set v s)) = s"
  by (rule set_get)

lemma get_inj: "ok s \<Longrightarrow> ok s' \<Longrightarrow> get s = get s' \<Longrightarrow> s = s'"
  by (metis set_get)

lemma set_overwrites: "ok s \<Longrightarrow> set (get s) s' = set (get s) s''"
  by (simp add: set_get)

end

interpretation state_slot: scoped_slot currentContextState setCurrentContextState slot_ok
  by unfold_locales (simp_all add: currentContextState_def slot_simps)

interpretation context_slot: scoped_slot currentContext setCurrentContext slot_ok
  by unfold_locales (simp_all add: slot_simps)

section \<open>Properties\<close>

text \<open>Reading the slot after a write gives what was written, and clearing it gives nothing;
  every write leaves the slot without a stale tracestate.\<close>

theorem context_slot_read_write:
  "currentContext (setCurrentContext ctx slot) = ctx \<and>
   currentContext (clearCurrentContext slot) = None \<and>
   currentContext (setCurrentContextState state slot) =
     map_option (\<lambda>sc. toTraceContext sc (ccs_tracestate state)) (ccs_spanContext state) \<and>
   slot_ok (setCurrentContext ctx slot) \<and> slot_ok (clearCurrentContext slot) \<and>
   slot_ok (setCurrentContextState state slot)"
  by (simp add: slot_simps) (simp add: currentContext_def setCurrentContextState_def split: option.splits)

text \<open>A kernel scope makes its context the current one and its destructor restores the slot that
  the constructor found, whatever the code in between did to the slot; if restoring runs out of
  memory the slot is left empty rather than with the context of the scope.\<close>

theorem kernel_scope_restores:
  assumes "slot_ok slot" and "KernelTraceContextScope_new ctx slot = (scope, slot1)"
  shows "captureTraceContext slot1 = ctx \<and>
         KernelTraceContextScope_destroy scope False slot2 = slot \<and>
         captureTraceContext (KernelTraceContextScope_destroy scope True slot2) = None"
  using assms context_slot.set_get [OF assms(1)]
  by (auto simp: KernelTraceContextScope_new_def KernelTraceContextScope_destroy_def
      captureTraceContext_def)

theorem kernel_scope_restores_witness:
  "KernelTraceContextScope_destroy
     (fst (KernelTraceContextScope_new (Some TraceContext_default) t_currentContext_init)) False
     (setCurrentContext (Some (TraceContext_default\<lparr>tc_tracestate := ''x''\<rparr>)) t_currentContext_init)
   = t_currentContext_init"
  using kernel_scope_restores [OF slot_ok_init surjective_pairing] by simp

end
