(* ===== verification/Span_Guard.thy ===== *)
theory Span_Guard
  imports Span_Model Sampler Context_Storage
begin

text \<open>
  Model of \<^verbatim>\<open>galay-tracing/kernel/span_guard.h\<close> and \<^verbatim>\<open>span_guard.cc\<close>: starting spans and the
  RAII guard that ends a span and restores the context of the thread.

  The record \<open>Thread\<close> holds what the operations read and write: the thread-local context slot, the
  thread-local random state, the global sampler and the global timing policy. The arguments of the
  root constructor \<^verbatim>\<open>SpanContext(TraceId::random(), SpanId::random())\<close> are evaluated from left to
  right.

  A move leaves the source members with values the language does not specify; \<open>moved\<close> is the guard
  that the moves of all members of a guard leave behind, an arbitrary function in every statement.
  Guards live at addresses of a store, since move assignment compares the addresses of its two
  operands.

  The section on scopes runs nested blocks that each hold one guard, and collects the ended spans.
\<close>

section \<open>Contexts of new spans\<close>

record Thread =
  t_currentContext :: CurrentContextState
  t_random :: u64
  g_sampler :: "Sampler option"
  g_spanTimingPolicy :: SpanTimingPolicy

text \<open>The two ids of a root context are arguments of one constructor call, whose order of evaluation C++ leaves
  open; here the trace id is drawn first.\<close>

definition makeRootContext :: "Thread \<Rightarrow> SpanContext \<times> Thread" where
  "makeRootContext t =
     (let (traceId, r1) = TraceId_random (t_random t);
          (spanId, r2) = SpanId_random r1
      in (SpanContext_new traceId spanId 0 None, t\<lparr>t_random := r2\<rparr>))"

definition makeChildContext :: "SpanContext \<Rightarrow> Thread \<Rightarrow> SpanContext \<times> Thread" where
  "makeChildContext parent t =
     (let (spanId, r) = SpanId_random (t_random t);
          ctx = SpanContext_new (sc_traceId parent) spanId (sc_traceFlags parent) None
      in (SpanContext_setParentSpanId ctx (Some (sc_spanId parent)), t\<lparr>t_random := r\<rparr>))"

definition makeChildContext_trace :: "TraceContext \<Rightarrow> Thread \<Rightarrow> SpanContext \<times> Thread" where
  "makeChildContext_trace parent t =
     (let (spanId, r) = SpanId_random (t_random t);
          ctx = SpanContext_new (tc_traceId parent) spanId (tc_traceFlags parent) None
      in (SpanContext_setParentSpanId ctx (Some (tc_spanId parent)), t\<lparr>t_random := r\<rparr>))"

definition makeNextContext :: "SpanContext option \<Rightarrow> Thread \<Rightarrow> SpanContext \<times> Thread" where
  "makeNextContext parent t =
     (case parent of
        Some p \<Rightarrow> if SpanContext_isValid p then makeChildContext p t else makeRootContext t
      | None \<Rightarrow> makeRootContext t)"

definition applySampling :: "Sampler option \<Rightarrow> SpanContext option \<Rightarrow> SpanContext \<Rightarrow> SpanContext" where
  "applySampling sampler parent ctx =
     (let flags = sc_traceFlags ctx;
          flags = (if shouldSample (currentSampler sampler) parent (sc_traceId ctx)
                   then flags OR kSampledFlag
                   else flags AND NOT kSampledFlag)
      in SpanContext_setTraceFlags ctx flags)"

section \<open>The guard\<close>

record SpanGuard =
  m_span :: Span
  m_previousContext :: "SpanContext option"
  m_previousTracestate :: string
  m_active :: bool

definition SpanGuard_default :: SpanGuard where
  "SpanGuard_default =
     \<lparr>m_span = Span_default, m_previousContext = None, m_previousTracestate = [], m_active = False\<rparr>"

definition SpanGuard_new :: "Span \<Rightarrow> SpanContext option \<Rightarrow> string \<Rightarrow> SpanGuard" where
  "SpanGuard_new s previousContext previousTracestate =
     \<lparr>m_span = s, m_previousContext = previousContext,
      m_previousTracestate = previousTracestate, m_active = True\<rparr>"

definition SpanGuard_end :: "time_point \<Rightarrow> SpanGuard \<Rightarrow> SpanGuard" where
  "SpanGuard_end now g = (if m_active g then g\<lparr>m_span := Span_end now (m_span g)\<rparr> else g)"

definition SpanGuard_restore ::
  "(SpanGuard \<Rightarrow> SpanGuard) \<Rightarrow> time_point \<Rightarrow> bool \<Rightarrow> SpanGuard \<Rightarrow> Thread \<Rightarrow> SpanGuard \<times> Thread" where
  "SpanGuard_restore moved now throws g t =
     (if \<not> m_active g then (g, t)
      else
        let g = SpanGuard_end now g;
            state = \<lparr>ccs_spanContext = m_previousContext g, ccs_tracestate = m_previousTracestate g\<rparr>;
            slot = (if throws then clearCurrentContext (t_currentContext t)
                    else setCurrentContextState state (t_currentContext t))
        in (g\<lparr>m_previousContext := m_previousContext (moved g),
              m_previousTracestate := m_previousTracestate (moved g), m_active := False\<rparr>,
            t\<lparr>t_currentContext := slot\<rparr>))"

definition SpanGuard_destroy ::
  "(SpanGuard \<Rightarrow> SpanGuard) \<Rightarrow> time_point \<Rightarrow> bool \<Rightarrow> SpanGuard \<Rightarrow> Thread \<Rightarrow> SpanGuard \<times> Thread" where
  "SpanGuard_destroy moved now throws g t = SpanGuard_restore moved now throws g t"

type_synonym guards = "nat \<Rightarrow> SpanGuard"

definition SpanGuard_move :: "(SpanGuard \<Rightarrow> SpanGuard) \<Rightarrow> nat \<Rightarrow> nat \<Rightarrow> guards \<Rightarrow> guards" where
  "SpanGuard_move moved this other G =
     (let g = G other
      in G(other := (moved g)\<lparr>m_active := False\<rparr>, this := g))"

definition SpanGuard_moveAssign ::
  "(SpanGuard \<Rightarrow> SpanGuard) \<Rightarrow> time_point \<Rightarrow> bool \<Rightarrow> nat \<Rightarrow> nat \<Rightarrow> guards \<Rightarrow> Thread \<Rightarrow> guards \<times> Thread" where
  "SpanGuard_moveAssign moved now throws this other G t =
     (if this \<noteq> other then
        let (g, t') = SpanGuard_restore moved now throws (G this) t;
            src = G other
        in (G(this := src, other := (moved src)\<lparr>m_active := False\<rparr>), t')
      else (G, t))"

section \<open>Starting spans\<close>

definition startSpan :: "string \<Rightarrow> time_point \<Rightarrow> Thread \<Rightarrow> SpanGuard \<times> Thread" where
  "startSpan name now t =
     (let previous = currentContextState (t_currentContext t);
          parent = (case ccs_spanContext previous of
                      Some p \<Rightarrow> if SpanContext_isValid p then Some p else None
                    | None \<Rightarrow> None);
          (ctx, t1) = makeNextContext (ccs_spanContext previous) t;
          ctx = applySampling (g_sampler t1) parent ctx;
          tracestate = (if ccs_spanContext previous \<noteq> None then ccs_tracestate previous else []);
          s = Span_new_global name ctx tracestate (g_spanTimingPolicy t1) now;
          slot = setCurrentContextState \<lparr>ccs_spanContext = Some ctx, ccs_tracestate = tracestate\<rparr>
                   (t_currentContext t1)
      in (SpanGuard_new s (ccs_spanContext previous) (ccs_tracestate previous),
          t1\<lparr>t_currentContext := slot\<rparr>))"

definition startServerSpan ::
  "string \<Rightarrow> TraceContext \<Rightarrow> time_point \<Rightarrow> Thread \<Rightarrow> SpanGuard \<times> Thread" where
  "startServerSpan name parent now t =
     (let previous = currentContextState (t_currentContext t);
          (ctx, t1) = (if TraceContext_isValid parent then makeChildContext_trace parent t
                       else makeRootContext t);
          samplingParent = (if TraceContext_isValid parent then Some (SpanContext_of parent) else None);
          ctx = applySampling (g_sampler t1) samplingParent ctx;
          tracestate = (if TraceContext_isValid parent then tc_tracestate parent else []);
          s = Span_new_global name ctx tracestate (g_spanTimingPolicy t1) now;
          s = Span_setKind Kind_kServer s;
          slot = setCurrentContextState \<lparr>ccs_spanContext = Some ctx, ccs_tracestate = tracestate\<rparr>
                   (t_currentContext t1)
      in (SpanGuard_new s (ccs_spanContext previous) (ccs_tracestate previous),
          t1\<lparr>t_currentContext := slot\<rparr>))"

section \<open>Contexts of new spans: facts\<close>

lemma makeRootContext_fields:
  "makeRootContext t =
     (SpanContext_new (fst (TraceId_random (t_random t)))
        (fst (SpanId_random (snd (TraceId_random (t_random t))))) 0 None,
      t\<lparr>t_random := snd (SpanId_random (snd (TraceId_random (t_random t))))\<rparr>)"
  by (simp add: makeRootContext_def split: prod.splits)

lemma makeChildContext_fields:
  "makeChildContext p t =
     (SpanContext_new (sc_traceId p) (fst (SpanId_random (t_random t))) (sc_traceFlags p)
        (Some (sc_spanId p)),
      t\<lparr>t_random := snd (SpanId_random (t_random t))\<rparr>)"
  by (simp add: makeChildContext_def SpanContext_setParentSpanId_def SpanContext_new_def
      split: prod.splits)

text \<open>Both overloads of \<^verbatim>\<open>makeChildContext\<close> agree.\<close>

lemma makeChildContext_trace_eq:
  "makeChildContext_trace p t = makeChildContext (SpanContext_of p) t"
  by (simp add: makeChildContext_trace_def makeChildContext_def)

lemma applySampling_fields [simp]:
  "sc_traceId (applySampling s p c) = sc_traceId c"
  "sc_spanId (applySampling s p c) = sc_spanId c"
  "sc_parentSpanId (applySampling s p c) = sc_parentSpanId c"
  by (simp_all add: applySampling_def SpanContext_setTraceFlags_def Let_def)

lemma applySampling_valid [simp]: "SpanContext_isValid (applySampling s p c) = SpanContext_isValid c"
  by (simp add: SpanContext_isValid_def)

lemma applySampling_bit:
  "bit (sc_traceFlags (applySampling s p c)) n \<longleftrightarrow>
     (if n = 0 then shouldSample (currentSampler s) p (sc_traceId c)
      else bit (sc_traceFlags c) n)"
  by (auto simp: applySampling_def SpanContext_setTraceFlags_def kSampledFlag_def Let_def
      bit_or_iff bit_and_iff bit_not_iff bit_1_iff dest: bit_imp_le_length)

lemma applySampling_sampled [simp]:
  "SpanContext_sampled (applySampling s p c) \<longleftrightarrow> shouldSample (currentSampler s) p (sc_traceId c)"
  by (simp add: span_ctx.sampled_bit applySampling_bit)

lemma SpanGuard_new_fields [simp]:
  "m_span (SpanGuard_new s p ts) = s"
  "m_previousContext (SpanGuard_new s p ts) = p"
  "m_previousTracestate (SpanGuard_new s p ts) = ts"
  "m_active (SpanGuard_new s p ts)"
  by (simp_all add: SpanGuard_new_def)

lemma SpanGuard_end_fields [simp]:
  "m_previousContext (SpanGuard_end now g) = m_previousContext g"
  "m_previousTracestate (SpanGuard_end now g) = m_previousTracestate g"
  "m_active (SpanGuard_end now g) = m_active g"
  "m_active g \<Longrightarrow> m_span (SpanGuard_end now g) = Span_end now (m_span g)"
  by (simp_all add: SpanGuard_end_def)

lemma SpanGuard_restore_inactive [simp]: "\<not> m_active g \<Longrightarrow> SpanGuard_restore moved now throws g t = (g, t)"
  by (simp add: SpanGuard_restore_def)

lemma SpanGuard_restore_active:
  "m_active g \<Longrightarrow>
     t_currentContext (snd (SpanGuard_restore moved now False g t)) =
       setCurrentContextState \<lparr>ccs_spanContext = m_previousContext g,
         ccs_tracestate = m_previousTracestate g\<rparr> (t_currentContext t)"
  "m_active g \<Longrightarrow>
     t_currentContext (snd (SpanGuard_restore moved now True g t)) =
       clearCurrentContext (t_currentContext t)"
  "m_active g \<Longrightarrow> m_span (fst (SpanGuard_restore moved now throws g t)) = Span_end now (m_span g)"
  by (simp_all add: SpanGuard_restore_def Let_def)

lemma SpanGuard_restore_frame [simp]:
  "t_random (snd (SpanGuard_restore moved now throws g t)) = t_random t"
  "g_sampler (snd (SpanGuard_restore moved now throws g t)) = g_sampler t"
  "g_spanTimingPolicy (snd (SpanGuard_restore moved now throws g t)) = g_spanTimingPolicy t"
  "\<not> m_active (fst (SpanGuard_restore moved now throws g t))"
  by (simp_all add: SpanGuard_restore_def Let_def)

section \<open>What every way of starting a span guarantees\<close>

text \<open>The parent that counts: a context that is present and valid.\<close>

definition valid_parent :: "SpanContext option \<Rightarrow> SpanContext option" where
  "valid_parent parent =
     (case parent of Some p \<Rightarrow> if SpanContext_isValid p then Some p else None | None \<Rightarrow> None)"

lemma valid_parent_Some [simp]:
  "valid_parent parent = Some p \<longleftrightarrow> parent = Some p \<and> SpanContext_isValid p"
  by (auto simp: valid_parent_def split: option.splits)

lemma makeNextContext_valid_parent: "makeNextContext (valid_parent parent) t = makeNextContext parent t"
  by (auto simp: makeNextContext_def valid_parent_def split: option.splits)

lemma makeNextContext_frame [simp]:
  "t_currentContext (snd (makeNextContext parent t)) = t_currentContext t"
  "g_sampler (snd (makeNextContext parent t)) = g_sampler t"
  "g_spanTimingPolicy (snd (makeNextContext parent t)) = g_spanTimingPolicy t"
  by (auto simp: makeNextContext_def makeChildContext_fields makeRootContext_fields split: option.splits)

lemma makeNextContext_valid [simp]: "SpanContext_isValid (fst (makeNextContext parent t))"
  by (auto simp: makeNextContext_def makeChildContext_fields makeRootContext_fields
      SpanContext_isValid_def split: option.splits)

locale span_starter =
  fixes start :: "Thread \<Rightarrow> SpanGuard \<times> Thread"
    and parent :: "Thread \<Rightarrow> SpanContext option"
    and state :: "Thread \<Rightarrow> string"
  assumes guard_active: "m_active (fst (start t))"
    and guard_saves: "m_previousContext (fst (start t)) = ccs_spanContext (t_currentContext t)"
      "m_previousTracestate (fst (start t)) = ccs_tracestate (t_currentContext t)"
    and span_ctx: "sp_context (m_span (fst (start t))) =
      applySampling (g_sampler t) (valid_parent (parent t)) (fst (makeNextContext (parent t) t))"
    and span_state: "sp_tracestate (m_span (fst (start t))) = state t"
    and span_open: "\<not> sp_ended (m_span (fst (start t)))"
    and thread: "snd (start t) = (snd (makeNextContext (parent t) t))
      \<lparr>t_currentContext := \<lparr>ccs_spanContext = Some (sp_context (m_span (fst (start t)))),
                            ccs_tracestate = state t\<rparr>\<rparr>"
begin

lemma activates:
  "currentContext (t_currentContext (snd (start t))) = Some (Span_context (m_span (fst (start t))))"
  by (simp add: thread currentContext_def Span_context_def span_state)

lemma span_valid: "SpanContext_isValid (sp_context (m_span (fst (start t))))"
  by (simp add: span_ctx)

lemma slot_ok_start: "slot_ok (t_currentContext (snd (start t)))"
  by (simp add: thread slot_ok_def)

lemma child:
  assumes "parent t = Some p" and "SpanContext_isValid p"
  shows "sc_traceId (sp_context (m_span (fst (start t)))) = sc_traceId p"
    and "sc_parentSpanId (sp_context (m_span (fst (start t)))) = Some (sc_spanId p)"
    and "sc_spanId (sp_context (m_span (fst (start t)))) = fst (SpanId_random (t_random t))"
    and "t_random (snd (start t)) = snd (SpanId_random (t_random t))"
  by (simp_all add: assms span_ctx thread makeNextContext_def makeChildContext_fields)

lemma root:
  assumes "\<And>p. parent t = Some p \<Longrightarrow> \<not> SpanContext_isValid p"
  shows "sc_parentSpanId (sp_context (m_span (fst (start t)))) = None"
    and "sc_traceId (sp_context (m_span (fst (start t)))) = fst (TraceId_random (t_random t))"
  using assms by (simp_all add: span_ctx makeNextContext_def makeRootContext_fields split: option.splits)

lemma flags_bit:
  "bit (sc_traceFlags (sp_context (m_span (fst (start t))))) n \<longleftrightarrow>
     (if n = 0
      then shouldSample (currentSampler (g_sampler t)) (valid_parent (parent t))
             (sc_traceId (sp_context (m_span (fst (start t)))))
      else (case valid_parent (parent t) of None \<Rightarrow> False | Some p \<Rightarrow> bit (sc_traceFlags p) n))"
  by (auto simp: span_ctx applySampling_bit makeNextContext_def valid_parent_def
      makeChildContext_fields makeRootContext_fields split: option.splits)

lemma restores:
  assumes "slot_ok (t_currentContext t)"
  shows "t_currentContext (snd (SpanGuard_destroy moved now False (fst (start t)) t')) = t_currentContext t"
proof -
  have "\<lparr>ccs_spanContext = m_previousContext (fst (start t)),
         ccs_tracestate = m_previousTracestate (fst (start t))\<rparr> = t_currentContext t"
    by (simp add: guard_saves)
  then show ?thesis
    using assms state_slot.set_get [OF assms]
    by (simp add: SpanGuard_destroy_def SpanGuard_restore_active(1) guard_active currentContextState_def)
qed

lemma ends: "m_span (fst (SpanGuard_destroy moved now throws (fst (start t)) t'))
    = Span_end now (m_span (fst (start t)))"
  by (simp add: SpanGuard_destroy_def SpanGuard_restore_active(3) guard_active)

lemma frame: "g_sampler (snd (start t)) = g_sampler t"
  "g_spanTimingPolicy (snd (start t)) = g_spanTimingPolicy t"
  by (simp_all add: thread)

end

definition startSpan_state :: "Thread \<Rightarrow> string" where
  "startSpan_state t =
     (if ccs_spanContext (t_currentContext t) = None then [] else ccs_tracestate (t_currentContext t))"

definition startServerSpan_state :: "TraceContext \<Rightarrow> string" where
  "startServerSpan_state p = (if TraceContext_isValid p then tc_tracestate p else [])"

lemma startSpan_eq:
  "startSpan name now t =
     (let (c, t1) = makeNextContext (ccs_spanContext (t_currentContext t)) t;
          c' = applySampling (g_sampler t) (valid_parent (ccs_spanContext (t_currentContext t))) c
      in (SpanGuard_new (Span_new name c' (startSpan_state t) (g_spanTimingPolicy t) now)
            (ccs_spanContext (t_currentContext t)) (ccs_tracestate (t_currentContext t)),
          t1\<lparr>t_currentContext := \<lparr>ccs_spanContext = Some c', ccs_tracestate = startSpan_state t\<rparr>\<rparr>))"
  by (simp add: startSpan_def currentContextState_def valid_parent_def setCurrentContextState_def
      startSpan_state_def Span_new_global_def spanTimingPolicy_def Let_def case_prod_beta)

lemma makeServerContext_eq:
  "(if TraceContext_isValid p then makeChildContext_trace p t else makeRootContext t) =
     makeNextContext (Some (SpanContext_of p)) t"
  by (simp add: makeNextContext_def makeChildContext_trace_eq)

lemma startServerSpan_eq:
  "startServerSpan name p now t =
     (let (c, t1) = makeNextContext (Some (SpanContext_of p)) t;
          c' = applySampling (g_sampler t) (valid_parent (Some (SpanContext_of p))) c
      in (SpanGuard_new (Span_setKind Kind_kServer
              (Span_new name c' (startServerSpan_state p) (g_spanTimingPolicy t) now))
            (ccs_spanContext (t_currentContext t)) (ccs_tracestate (t_currentContext t)),
          t1\<lparr>t_currentContext := \<lparr>ccs_spanContext = Some c', ccs_tracestate = startServerSpan_state p\<rparr>\<rparr>))"
  unfolding startServerSpan_def makeServerContext_eq
  by (simp add: currentContextState_def valid_parent_def setCurrentContextState_def
      startServerSpan_state_def Span_new_global_def spanTimingPolicy_def Let_def case_prod_beta)

interpretation local_span: span_starter "startSpan name now"
  "\<lambda>t. ccs_spanContext (t_currentContext t)" startSpan_state for name now
  by unfold_locales (simp_all add: startSpan_eq Let_def split: prod.splits)

interpretation server_span: span_starter "startServerSpan name p now"
  "\<lambda>_. Some (SpanContext_of p)" "\<lambda>_. startServerSpan_state p" for name p now
  by unfold_locales (simp_all add: startServerSpan_eq Let_def Span_setKind_def split: prod.splits)

section \<open>Nested scopes\<close>

text \<open>A block holds one guard or kernel scope, runs the blocks of its body and destroys its guard
  at the end. A span block carries the clock readings at its start and end. Running a block gives
  the tree of the ended spans.\<close>

datatype scope =
    SpanScope string time_point time_point "scope list"
  | ServerScope string TraceContext time_point time_point "scope list"
  | KernelScope "TraceContext option" "scope list"

datatype span_tree = SpanNode (node_span: Span) (node_children: "span_tree list")

fun run_scope :: "(SpanGuard \<Rightarrow> SpanGuard) \<Rightarrow> scope \<Rightarrow> Thread \<Rightarrow> span_tree list \<times> Thread"
  and run_scopes :: "(SpanGuard \<Rightarrow> SpanGuard) \<Rightarrow> scope list \<Rightarrow> Thread \<Rightarrow> span_tree list \<times> Thread" where
  "run_scope moved (SpanScope name t0 t1 body) t =
     (let (g, t') = startSpan name t0 t;
          (trees, t'') = run_scopes moved body t';
          (g', t''') = SpanGuard_destroy moved t1 False g t''
      in ([SpanNode (m_span g') trees], t'''))"
| "run_scope moved (ServerScope name parent t0 t1 body) t =
     (let (g, t') = startServerSpan name parent t0 t;
          (trees, t'') = run_scopes moved body t';
          (g', t''') = SpanGuard_destroy moved t1 False g t''
      in ([SpanNode (m_span g') trees], t'''))"
| "run_scope moved (KernelScope ctx body) t =
     (let (ks, slot) = KernelTraceContextScope_new ctx (t_currentContext t);
          (trees, t') = run_scopes moved body (t\<lparr>t_currentContext := slot\<rparr>)
      in (trees, t'\<lparr>t_currentContext :=
                    KernelTraceContextScope_destroy ks False (t_currentContext t')\<rparr>))"
| "run_scopes moved [] t = ([], t)"
| "run_scopes moved (s # ss) t =
     (let (trees, t') = run_scope moved s t; (trees', t'') = run_scopes moved ss t'
      in (trees @ trees', t''))"

text \<open>Blocks that start spans with \<^verbatim>\<open>startSpan\<close> only.\<close>

fun local_scope :: "scope \<Rightarrow> bool" where
  "local_scope (SpanScope _ _ _ body) = list_all local_scope body"
| "local_scope _ = False"

text \<open>Every span of the tree belongs to the trace, has the span around it as its parent, is valid
  and has ended.\<close>

fun tree_ok :: "TraceId \<Rightarrow> SpanId \<Rightarrow> span_tree \<Rightarrow> bool" where
  "tree_ok tr parent (SpanNode s children) \<longleftrightarrow>
     sc_traceId (sp_context s) = tr \<and> sc_parentSpanId (sp_context s) = Some parent \<and>
     SpanContext_isValid (sp_context s) \<and> sp_ended s \<and>
     list_all (tree_ok tr (sc_spanId (sp_context s))) children"

fun tree_spans :: "span_tree \<Rightarrow> Span list" where
  "tree_spans (SpanNode s children) = s # concat (map tree_spans children)"

abbreviation span_id :: "Span \<Rightarrow> SpanId" where
  "span_id s \<equiv> sc_spanId (sp_context s)"

abbreviation forest_spans :: "span_tree list \<Rightarrow> Span list" where
  "forest_spans trees \<equiv> concat (map tree_spans trees)"

text \<open>The span ids that the generator of a thread yields next.\<close>

definition drawn_ids :: "u64 \<Rightarrow> nat \<Rightarrow> SpanId list" where
  "drawn_ids r n = map (\<lambda>i. fst (SpanId_random (span_states r i))) [0..<n]"

lemma span_states_add: "span_states r (i + j) = span_states (span_states r i) j"
  by (induction j) simp_all

lemma drawn_ids_add: "drawn_ids r (i + j) = drawn_ids r i @ drawn_ids (span_states r i) j"
  by (rule nth_equalityI) (auto simp: drawn_ids_def nth_append span_states_add [symmetric])

lemma drawn_ids_Suc: "drawn_ids r (Suc n) = fst (SpanId_random r) # drawn_ids (snd (SpanId_random r)) n"
  using drawn_ids_add [of r 1 n] by (simp add: drawn_ids_def)

lemma drawn_ids_distinct: "n + 2 \<le> 2 ^ 64 \<Longrightarrow> distinct (drawn_ids r n)"
proof -
  assume n: "n + 2 \<le> 2 ^ 64"
  have "fst (SpanId_random (span_states r i)) \<noteq> fst (SpanId_random (span_states r j))"
    if "i < j" "j < n" for i j
    using that n span_states_distinct [of "Suc i" "Suc j" r] by (simp add: SpanId_random_inj)
  then show ?thesis
    by (auto simp: drawn_ids_def distinct_conv_nth) (metis linorder_neqE_nat)
qed

lemma run_scope_eqs:
  "run_scope moved (SpanScope name t0 t1 body) t =
     (let g = fst (startSpan name t0 t); out = run_scopes moved body (snd (startSpan name t0 t))
      in ([SpanNode (Span_end t1 (m_span g)) (fst out)],
          snd (SpanGuard_destroy moved t1 False g (snd out))))"
  "run_scope moved (ServerScope name p t0 t1 body) t =
     (let g = fst (startServerSpan name p t0 t); out = run_scopes moved body (snd (startServerSpan name p t0 t))
      in ([SpanNode (Span_end t1 (m_span g)) (fst out)],
          snd (SpanGuard_destroy moved t1 False g (snd out))))"
  "run_scope moved (KernelScope c body) t =
     (let out = run_scopes moved body (t\<lparr>t_currentContext := setCurrentContext c (t_currentContext t)\<rparr>)
      in (fst out, (snd out)\<lparr>t_currentContext :=
            setCurrentContext (currentContext (t_currentContext t)) (t_currentContext (snd out))\<rparr>))"
  "run_scopes moved (s # ss) t =
     (let out = run_scope moved s t; out' = run_scopes moved ss (snd out)
      in (fst out @ fst out', snd out'))"
  by (simp_all add: Let_def case_prod_beta local_span.ends server_span.ends
      KernelTraceContextScope_new_def KernelTraceContextScope_destroy_def)

text \<open>The computation induction of the two functions, with the results projected.\<close>

lemma scopes_induct [case_names Span Server Kernel Nil Cons]:
  assumes "\<And>name t0 t1 body t. Q body (snd (startSpan name t0 t)) \<Longrightarrow> P (SpanScope name t0 t1 body) t"
    and "\<And>name p t0 t1 body t. Q body (snd (startServerSpan name p t0 t)) \<Longrightarrow>
           P (ServerScope name p t0 t1 body) t"
    and "\<And>c body t. Q body (t\<lparr>t_currentContext := setCurrentContext c (t_currentContext t)\<rparr>) \<Longrightarrow>
           P (KernelScope c body) t"
    and "\<And>t. Q [] t"
    and "\<And>s ss t. P s t \<Longrightarrow> Q ss (snd (run_scope moved s t)) \<Longrightarrow> Q (s # ss) t"
  shows "P s t" and "Q ss t"
proof -
  have "m = moved \<Longrightarrow> P s t" and "m = moved \<Longrightarrow> Q ss t" for m
  proof (induction m s t and m ss t rule: run_scope_run_scopes.induct)
    case (1 m name t0 t1 body t)
    show ?case by (rule assms(1), rule 1(1) [OF refl prod.collapse 1(2)])
  next
    case (2 m name p t0 t1 body t)
    show ?case by (rule assms(2), rule 2(1) [OF refl prod.collapse 2(2)])
  next
    case (3 m c body t)
    show ?case
      using 3(1) [OF refl prod.collapse 3(2)] by (intro assms(3)) (simp add: KernelTraceContextScope_new_def)
  next
    case (5 m s ss t)
    show ?case
      using 5(1) 5(2) [OF refl prod.collapse 5(3)] 5(3) by (intro assms(5)) simp_all
  qed (simp_all add: assms(4))
  then show "P s t" and "Q ss t" by simp_all
qed

lemma run_scope_restores:
  "slot_ok (t_currentContext t) \<Longrightarrow>
     t_currentContext (snd (run_scope moved s t)) = t_currentContext t"
  "slot_ok (t_currentContext t) \<Longrightarrow>
     t_currentContext (snd (run_scopes moved ss t)) = t_currentContext t"
  by (induction s t and ss t rule: scopes_induct [where moved = moved])
    (simp_all add: run_scope_eqs Let_def local_span.restores server_span.restores context_slot.set_get
      del: run_scope.simps run_scopes.simps(2))

text \<open>The result of running a forest below a valid span context.\<close>

definition forest_result :: "SpanContext \<Rightarrow> Thread \<Rightarrow> span_tree list \<times> Thread \<Rightarrow> bool" where
  "forest_result p t out \<longleftrightarrow>
     list_all (tree_ok (sc_traceId p) (sc_spanId p)) (fst out) \<and>
     map span_id (forest_spans (fst out)) = drawn_ids (t_random t) (length (forest_spans (fst out))) \<and>
     t_random (snd out) = span_states (t_random t) (length (forest_spans (fst out))) \<and>
     g_sampler (snd out) = g_sampler t \<and>
     (g_sampler t = None \<longrightarrow>
        (\<forall>s \<in> set (forest_spans (fst out)). sc_traceFlags (sp_context s) = sc_traceFlags p))"

lemma forest_result_append:
  "forest_result p t out \<Longrightarrow> forest_result p (snd out) out' \<Longrightarrow>
     forest_result p t (fst out @ fst out', snd out')"
  by (auto simp: forest_result_def drawn_ids_add span_states_add)

lemma default_sampler_keeps_flags:
  assumes "ccs_spanContext (t_currentContext t) = Some p" and "SpanContext_isValid p"
    and "g_sampler t = None"
  shows "sc_traceFlags (sp_context (m_span (fst (startSpan name now t)))) = sc_traceFlags p"
  by (rule bit_word_eqI)
    (simp add: local_span.flags_bit assms valid_parent_def currentSampler_def builtInSampler_def
      ParentBasedSampler_new_def span_ctx.sampled_bit)

lemma forest_result_span:
  assumes "ccs_spanContext (t_currentContext t) = Some p" and "SpanContext_isValid p"
    and IH: "forest_result (sp_context (m_span (fst (startSpan name t0 t)))) (snd (startSpan name t0 t))
          (run_scopes moved body (snd (startSpan name t0 t)))"
  shows "forest_result p t (run_scope moved (SpanScope name t0 t1 body) t)"
proof -
  note start = local_span.child [where name = name and now = t0, OF assms(1,2)]
  have "span_states (t_random t) (Suc n) = span_states (t_random (snd (startSpan name t0 t))) n" for n
    using span_states_add [of "t_random t" 1 n] start(4) by simp
  then show ?thesis
    using IH start local_span.span_valid [of name t0 t] local_span.frame [of name t0 t]
      default_sampler_keeps_flags [OF assms(1,2)]
    by (simp add: forest_result_def SpanGuard_destroy_def drawn_ids_Suc run_scope_eqs Let_def
        del: span_states.simps run_scope.simps)
qed

lemma run_local_scope:
  "local_scope s \<Longrightarrow> ccs_spanContext (t_currentContext t) = Some p \<Longrightarrow> SpanContext_isValid p \<Longrightarrow>
     forest_result p t (run_scope moved s t)"
  "list_all local_scope ss \<Longrightarrow> ccs_spanContext (t_currentContext t) = Some p \<Longrightarrow>
     SpanContext_isValid p \<Longrightarrow> forest_result p t (run_scopes moved ss t)"
proof (induction s t and ss t arbitrary: p and p rule: scopes_induct [where moved = moved])
  case (Span name t0 t1 body t)
  have "ccs_spanContext (t_currentContext (snd (startSpan name t0 t))) =
      Some (sp_context (m_span (fst (startSpan name t0 t))))"
    by (subst local_span.thread) simp
  then show ?case
    using Span local_span.span_valid [of name t0 t] by (intro forest_result_span) simp_all
next
  case (Cons s ss t)
  then have "slot_ok (t_currentContext t)" by (simp add: slot_ok_def)
  then show ?case
    using Cons run_scope_restores(1) [of t moved s]
    by (simp add: run_scope_eqs Let_def forest_result_append del: run_scopes.simps(2))
qed (simp_all add: drawn_ids_def forest_result_def)

section \<open>The life of a guard\<close>

text \<open>What can happen to the guards of a store: a guard is moved into storage that holds no active
  guard, is move-assigned, ends its span, or is destroyed.\<close>

inductive guard_step :: "(SpanGuard \<Rightarrow> SpanGuard) \<Rightarrow> guards \<times> Thread \<Rightarrow> guards \<times> Thread \<Rightarrow> bool"
  for moved where
  move: "\<not> m_active (G this) \<Longrightarrow> guard_step moved (G, t) (SpanGuard_move moved this other G, t)"
| assign: "guard_step moved (G, t) (SpanGuard_moveAssign moved now False this other G t)"
| end_span: "guard_step moved (G, t) (G(a := SpanGuard_end now (G a)), t)"
| destroy: "SpanGuard_destroy moved now False (G a) t = (g', t') \<Longrightarrow> guard_step moved (G, t) (G(a := g'), t')"

inductive_cases guard_stepE: "guard_step moved (G, t) s"

text \<open>One guard is active and holds the state to restore, or none is and the state is restored.\<close>

definition guard_life :: "CurrentContextState \<Rightarrow> CurrentContextState \<Rightarrow> guards \<times> Thread \<Rightarrow> bool" where
  "guard_life saved active st \<longleftrightarrow>
     (\<exists>a. (\<forall>b. m_active (fst st b) \<longleftrightarrow> b = a) \<and>
          m_previousContext (fst st a) = ccs_spanContext saved \<and>
          m_previousTracestate (fst st a) = ccs_tracestate saved \<and>
          t_currentContext (snd st) = active) \<or>
     (\<forall>b. \<not> m_active (fst st b)) \<and> t_currentContext (snd st) = saved"

lemma guard_life_cases:
  assumes "guard_life saved active (G, t)"
  obtains a where "\<And>b. m_active (G b) \<longleftrightarrow> b = a" "m_previousContext (G a) = ccs_spanContext saved"
      "m_previousTracestate (G a) = ccs_tracestate saved" "t_currentContext t = active"
  | "\<And>b. \<not> m_active (G b)" "t_currentContext t = saved"
  using assms by (auto simp: guard_life_def)

lemma guard_lifeI1:
  "(\<And>b. m_active (G b) \<longleftrightarrow> b = a) \<Longrightarrow> m_previousContext (G a) = ccs_spanContext saved \<Longrightarrow>
   m_previousTracestate (G a) = ccs_tracestate saved \<Longrightarrow> t_currentContext t = active \<Longrightarrow>
   guard_life saved active (G, t)"
  by (auto simp: guard_life_def)

lemma guard_lifeI2:
  "(\<And>b. \<not> m_active (G b)) \<Longrightarrow> t_currentContext t = saved \<Longrightarrow> guard_life saved active (G, t)"
  by (simp add: guard_life_def)

lemma guard_life_restore:
  assumes "guard_life saved active (G, t)" and "slot_ok saved"
    and "SpanGuard_restore moved now False (G a) t = (g', t')"
  shows "guard_life saved active (G(a := g'), t') \<and> \<not> m_active g'"
proof (cases "m_active (G a)")
  case False
  then show ?thesis using assms by (auto simp: fun_upd_idem)
next
  case True
  with assms(1) have only: "m_active (G b) \<longleftrightarrow> b = a" for b by (cases rule: guard_life_cases) auto
  have saved: "\<lparr>ccs_spanContext = m_previousContext (G a),
      ccs_tracestate = m_previousTracestate (G a)\<rparr> = saved"
    using assms(1) True by (cases rule: guard_life_cases) auto
  have "t_currentContext t' = saved"
    using SpanGuard_restore_active(1) [OF True, of moved now t] assms(2,3) saved
    by (simp add: setCurrentContextState_ok)
  moreover have "\<not> m_active g'" using SpanGuard_restore_frame(4) [of moved now False "G a" t] assms(3) by simp
  ultimately show ?thesis using only by (simp add: guard_lifeI2)
qed

lemma guard_life_transfer:
  assumes "guard_life saved active (G, t)" and "\<not> m_active (G this)" and "this \<noteq> other"
  shows "guard_life saved active (G(other := (moved (G other))\<lparr>m_active := False\<rparr>, this := G other), t)"
  using assms(1)
proof (cases rule: guard_life_cases)
  case (1 a)
  then have "a \<noteq> this" using assms(2) by blast
  then show ?thesis
    using 1 assms(3)
    by (cases "a = other") (simp_all add: guard_lifeI1 [where a = this] guard_lifeI1 [where a = a])
next
  case 2
  then show ?thesis by (intro guard_lifeI2) simp_all
qed

lemma guard_life_step:
  assumes "guard_step moved st st'" and "guard_life saved active st" and "slot_ok saved"
  shows "guard_life saved active st'"
  using assms
proof (induction rule: guard_step.induct)
  case (move G this t other)
  then show ?case
    by (cases "this = other") (simp_all add: SpanGuard_move_def Let_def guard_life_transfer)
next
  case (assign G t now this other)
  obtain g' t' where r: "SpanGuard_restore moved now False (G this) t = (g', t')" by fastforce
  note life = guard_life_restore [OF assign r]
  show ?case
  proof (cases "this = other")
    case False
    have "guard_life saved active
        ((G(this := g'))(other := (moved ((G(this := g')) other))\<lparr>m_active := False\<rparr>,
                         this := (G(this := g')) other), t')"
      by (rule guard_life_transfer) (use False life in \<open>simp_all only: fun_upd_same simp_thms\<close>)
    then show ?thesis using False r by (simp add: SpanGuard_moveAssign_def Let_def fun_upd_twist)
  qed (use assign in \<open>simp add: SpanGuard_moveAssign_def\<close>)
next
  case (end_span G t a now)
  from end_span(1) show ?case
  proof (cases rule: guard_life_cases)
    case (1 c)
    then show ?thesis by (intro guard_lifeI1 [where a = c]) auto
  qed (simp add: guard_lifeI2)
next
  case (destroy now G a t g' t')
  then show ?case using guard_life_restore by (simp add: SpanGuard_destroy_def)
qed

lemma guard_life_reachable:
  assumes "(guard_step moved)\<^sup>*\<^sup>* st st'" and "guard_life saved active st" and "slot_ok saved"
  shows "guard_life saved active st'"
  using assms by (induction rule: rtranclp_induct) (auto intro: guard_life_step)

section \<open>Properties\<close>

text \<open>A span started while a valid span is current belongs to the trace of that span, has it as
  its parent, has a new valid span id and the tracestate of the thread, and becomes current; the
  returned guard is active and its span has not ended.\<close>

theorem startSpan_child:
  assumes "ccs_spanContext (t_currentContext t) = Some p" and "SpanContext_isValid p"
    and "startSpan name now t = (g, t')"
  shows "sc_traceId (sp_context (m_span g)) = sc_traceId p \<and>
         sc_parentSpanId (sp_context (m_span g)) = Some (sc_spanId p) \<and>
         sc_spanId (sp_context (m_span g)) = fst (SpanId_random (t_random t)) \<and>
         SpanContext_isValid (sp_context (m_span g)) \<and>
         sp_tracestate (m_span g) = ccs_tracestate (t_currentContext t) \<and>
         currentContext (t_currentContext t') = Some (Span_context (m_span g)) \<and>
         m_active g \<and> \<not> sp_ended (m_span g)"
  using local_span.child [OF assms(1,2), of name now] local_span.span_valid [of name now t]
    local_span.activates [of name now t] local_span.guard_active [of name now t]
    local_span.span_open [of name now t] local_span.span_state [of name now t] assms
  by (simp add: startSpan_state_def)

text \<open>A span started with no current span, or with a current one that is not valid, is the root
  of a new trace with a random trace id and no parent; a server span is likewise the root of a
  new trace when the context from the request is not valid, whatever is current on the thread.\<close>

theorem start_root_span:
  assumes "\<And>p. ccs_spanContext (t_currentContext t) = Some p \<Longrightarrow> \<not> SpanContext_isValid p"
    and "\<not> TraceContext_isValid remote"
  shows "let s = m_span (fst (startSpan name now t)); r = m_span (fst (startServerSpan name remote now t'))
         in sc_parentSpanId (sp_context s) = None \<and>
            sc_traceId (sp_context s) = fst (TraceId_random (t_random t)) \<and>
            SpanContext_isValid (sp_context s) \<and>
            sc_parentSpanId (sp_context r) = None \<and>
            sc_traceId (sp_context r) = fst (TraceId_random (t_random t')) \<and>
            SpanContext_isValid (sp_context r) \<and> sp_tracestate r = [] \<and> sp_kind r = Kind_kServer"
  using local_span.root [OF assms(1)] server_span.root [of remote name now t'] assms(2)
    local_span.span_valid server_span.span_valid server_span.span_state [of name remote now t']
  by (simp add: Let_def startServerSpan_state_def)
    (simp add: startServerSpan_eq Let_def case_prod_beta Span_setKind_def)

text \<open>C29: a server span started from a valid remote context continues the remote trace: it has the
  remote trace id, the remote span as its parent, the remote tracestate and the kind server, and
  it becomes current; destroying its guard brings back the local context.\<close>

theorem startServerSpan_continues_trace:
  assumes "TraceContext_isValid remote" and "slot_ok (t_currentContext t)"
    and "startServerSpan name remote now t = (g, t')"
  shows "sc_traceId (sp_context (m_span g)) = tc_traceId remote \<and>
         sc_parentSpanId (sp_context (m_span g)) = Some (tc_spanId remote) \<and>
         sp_tracestate (m_span g) = tc_tracestate remote \<and> sp_kind (m_span g) = Kind_kServer \<and>
         SpanContext_isValid (sp_context (m_span g)) \<and>
         currentContext (t_currentContext t') = Some (Span_context (m_span g)) \<and>
         t_currentContext (snd (SpanGuard_destroy moved later False g t2)) = t_currentContext t"
proof -
  have "sp_kind (m_span g) = Kind_kServer"
    using assms(3) by (auto simp: startServerSpan_eq Let_def case_prod_beta Span_setKind_def)
  then show ?thesis
    using server_span.child [of remote "SpanContext_of remote" name now t]
      server_span.span_valid [of name remote now t] server_span.activates [of name remote now t]
      server_span.span_state [of name remote now t] server_span.restores [OF assms(2)] assms
    by (metis (no_types, lifting) SpanContext_of_fields(1,2) SpanContext_of_valid(1) fst_conv snd_conv
        startServerSpan_state_def)
qed

text \<open>The sampling decision of a new span sets the lowest bit of its flags and nothing else: the
  other bits are those of a valid parent, and zero for a root span.\<close>

theorem new_span_sampling:
  "let s = m_span (fst (startSpan name now t));
       parent = valid_parent (ccs_spanContext (t_currentContext t))
   in (SpanContext_sampled (sp_context s) \<longleftrightarrow>
         shouldSample (currentSampler (g_sampler t)) parent (sc_traceId (sp_context s))) \<and>
      (\<forall>n. n \<noteq> 0 \<longrightarrow> (bit (sc_traceFlags (sp_context s)) n \<longleftrightarrow>
         (case parent of None \<Rightarrow> False | Some p \<Rightarrow> bit (sc_traceFlags p) n)))"
  by (simp add: Let_def local_span.flags_bit span_ctx.sampled_bit)

text \<open>C13: however a guard is moved, move-assigned, ended and destroyed, at most one guard is active and
  holds the context to restore, and the thread keeps the context of the span until that guard is
  destroyed or overwritten; then the context from before the span is current again, and it stays.\<close>

theorem guard_restores_once:
  assumes "slot_ok (t_currentContext t)" and "startSpan name now t = (g, t1)"
    and "\<forall>b. b \<noteq> a \<longrightarrow> \<not> m_active (G b)"
    and "(guard_step moved)\<^sup>*\<^sup>* (G(a := g), t1) (G', t')"
  shows "(\<exists>!c. m_active (G' c)) \<and> t_currentContext t' = t_currentContext t1 \<or>
         (\<forall>c. \<not> m_active (G' c)) \<and> t_currentContext t' = t_currentContext t"
proof -
  have "guard_life (t_currentContext t) (t_currentContext t1) (G(a := g), t1)"
    using assms(2,3) local_span.guard_active [of name now t] local_span.guard_saves [of name now t]
    by (intro guard_lifeI1 [where a = a]) simp_all
  from guard_life_reachable [OF assms(4) this assms(1)] show ?thesis
    by (cases rule: guard_life_cases) auto
qed

text \<open>\<^verbatim>\<open>SpanGuard::end\<close> ends the span and nothing else: the guard stays active and the ended
  span stays current until the guard is destroyed, which keeps the end time of the first call.\<close>

theorem guard_end_keeps_context:
  assumes "slot_ok (t_currentContext t)" and "startSpan name now t = (g, t')"
  shows "sp_ended (m_span (SpanGuard_end t1 g)) \<and> m_active (SpanGuard_end t1 g) \<and>
         currentContext (t_currentContext t') = Some (Span_context (m_span (SpanGuard_end t1 g))) \<and>
         m_span (fst (SpanGuard_destroy moved t2 False (SpanGuard_end t1 g) t')) =
           m_span (SpanGuard_end t1 g) \<and>
         t_currentContext (snd (SpanGuard_destroy moved t2 False (SpanGuard_end t1 g) t')) =
           t_currentContext t"
proof -
  have g: "g = fst (startSpan name now t)" "t' = snd (startSpan name now t)" using assms(2) by simp_all
  have act: "m_active g" by (simp add: g local_span.guard_active)
  then have e: "m_span (SpanGuard_end t1 g) = Span_end t1 (m_span g)" "m_active (SpanGuard_end t1 g)"
    by simp_all
  have "t_currentContext (snd (SpanGuard_destroy moved t2 False (SpanGuard_end t1 g) t')) =
      t_currentContext (snd (SpanGuard_destroy moved t2 False g t'))"
    using act by (simp add: SpanGuard_destroy_def SpanGuard_restore_active(1))
  moreover have "Span_end t2 (Span_end t1 s) = Span_end t1 s" for s by (simp add: Span_end_def)
  ultimately show ?thesis
    using local_span.activates [of name now t] e
      local_span.restores [OF assms(1), where name = name and now = t2 and nowa = now and t' = t']
    by (simp add: SpanGuard_destroy_def SpanGuard_restore_active(3) Span_context_def flip: g)
qed

text \<open>C25: when blocks with spans, server spans and kernel scopes are nested in any way, each destroying
  its guard at its end, the thread has the same context after them as before.\<close>

theorem nested_scopes_restore:
  assumes "slot_ok (t_currentContext t)"
  shows "t_currentContext (snd (run_scopes moved ss t)) = t_currentContext t"
  by (rule run_scope_restores(2) [OF assms])

text \<open>C3: the spans that nested blocks start below a valid span form a tree of one trace: every span
  has the span around it as its parent, all are ended, the span ids are pairwise different for
  fewer than \<open>2 ^ 64 - 1\<close> spans, and without a configured sampler all carry the flags of the span
  above.\<close>

theorem nested_spans_tree:
  assumes "ccs_spanContext (t_currentContext t) = Some p" and "SpanContext_isValid p"
    and "list_all local_scope ss" and "run_scopes moved ss t = (trees, t')"
    and "length (forest_spans trees) + 2 \<le> 2 ^ 64"
  shows "list_all (tree_ok (sc_traceId p) (sc_spanId p)) trees \<and>
         distinct (map span_id (forest_spans trees)) \<and>
         (g_sampler t = None \<longrightarrow>
           (\<forall>s \<in> set (forest_spans trees). sc_traceFlags (sp_context s) = sc_traceFlags p))"
  using run_local_scope(2) [OF assms(3,1,2), of moved] assms(4,5) drawn_ids_distinct
  by (simp add: forest_result_def del: map_concat)

text \<open>A thread inside a valid span, for the witnesses.\<close>

definition sample_context :: SpanContext where
  "sample_context =
     SpanContext_new (TraceId_fromHex ''4bf92f3577b34da6a3ce929d0e0e4736'')
       (SpanId_fromHex ''00f067aa0ba902b7'') 1 None"

definition sample_thread :: Thread where
  "sample_thread =
     \<lparr>t_currentContext = \<lparr>ccs_spanContext = Some sample_context, ccs_tracestate = ''k=v''\<rparr>,
      t_random = 42, g_sampler = None, g_spanTimingPolicy = Timing_kEnabled\<rparr>"

lemma sample_context_valid [simp]: "SpanContext_isValid sample_context"
  unfolding sample_context_def by code_simp

lemma sample_thread_slot [simp]:
  "ccs_spanContext (t_currentContext sample_thread) = Some sample_context"
  "ccs_tracestate (t_currentContext sample_thread) = ''k=v''"
  "slot_ok (t_currentContext sample_thread)"
  by (simp_all add: sample_thread_def slot_ok_def)

theorem startSpan_child_witness:
  "sc_parentSpanId (sp_context (m_span (fst (startSpan ''db'' 5 sample_thread)))) =
     Some (sc_spanId sample_context)"
  using startSpan_child [OF sample_thread_slot(1) sample_context_valid prod.collapse [symmetric]] by blast

theorem start_root_span_witness:
  "sc_parentSpanId (sp_context (m_span (fst (startSpan ''db'' 5
      (sample_thread\<lparr>t_currentContext := t_currentContext_init\<rparr>))))) = None"
  using start_root_span [of "sample_thread\<lparr>t_currentContext := t_currentContext_init\<rparr>"
      TraceContext_default "''db''" 5 sample_thread]
  by (simp add: t_currentContext_init_def TraceContext_isValid_def TraceContext_default_def Let_def)

theorem startServerSpan_continues_trace_witness:
  "t_currentContext (snd (SpanGuard_destroy (\<lambda>g. g) 9 False
     (fst (startServerSpan ''GET'' (toTraceContext sample_context []) 5 sample_thread)) sample_thread)) =
   t_currentContext sample_thread"
  using startServerSpan_continues_trace [OF _ sample_thread_slot(3) prod.collapse [symmetric],
      of "toTraceContext sample_context []"] by simp

theorem new_span_sampling_witness:
  "SpanContext_sampled (sp_context (m_span (fst (startSpan ''db'' 5 sample_thread)))) \<and>
   \<not> bit (sc_traceFlags (sp_context (m_span (fst (startSpan ''db'' 5 sample_thread))))) 1"
proof -
  have "SpanContext_sampled sample_context" unfolding sample_context_def by code_simp
  moreover have "\<not> bit (sc_traceFlags sample_context) 1" by (simp add: sample_context_def)
  ultimately show ?thesis
    using new_span_sampling [of "''db''" 5 sample_thread]
    by (simp add: Let_def valid_parent_def)
      (simp add: sample_thread_def currentSampler_def builtInSampler_def ParentBasedSampler_new_def)
qed

theorem guard_restores_once_witness:
  "let (g, t1) = startSpan ''db'' 5 sample_thread;
       G = (\<lambda>_. SpanGuard_default)(0 := g);
       (G', t') = SpanGuard_moveAssign (\<lambda>g. g) 9 False 1 0 G t1
   in t_currentContext t' = t_currentContext t1 \<or> t_currentContext t' = t_currentContext sample_thread"
proof -
  let ?out = "startSpan ''db'' 5 sample_thread"
  let ?G = "(\<lambda>_. SpanGuard_default)(0 := fst ?out)"
  let ?st = "SpanGuard_moveAssign (\<lambda>g. g) 9 False 1 0 ?G (snd ?out)"
  have "(guard_step (\<lambda>g. g))\<^sup>*\<^sup>* (?G, snd ?out) (fst ?st, snd ?st)"
    using guard_step.assign [of "\<lambda>g. g" ?G "snd ?out" 9 1 0] by auto
  from guard_restores_once [OF sample_thread_slot(3) prod.collapse [symmetric] _ this]
  show ?thesis by (auto simp: SpanGuard_default_def Let_def case_prod_beta)
qed

theorem guard_end_keeps_context_witness:
  "m_active (SpanGuard_end 9 (fst (startSpan ''db'' 5 sample_thread)))"
  using guard_end_keeps_context [OF sample_thread_slot(3) prod.collapse [symmetric]] by blast

theorem nested_scopes_restore_witness:
  "t_currentContext (snd (run_scopes (\<lambda>g. g)
     [SpanScope ''a'' 1 4 [KernelScope None [ServerScope ''b'' TraceContext_default 2 3 []]]] sample_thread)) =
   t_currentContext sample_thread"
  by (rule nested_scopes_restore) simp

theorem nested_spans_tree_witness:
  "list_all (tree_ok (sc_traceId sample_context) (sc_spanId sample_context))
     (fst (run_scopes (\<lambda>g. g) [SpanScope ''a'' 1 4 [SpanScope ''b'' 2 3 []]] sample_thread))"
proof -
  have "length (forest_spans (fst (run_scopes (\<lambda>g. g) [SpanScope ''a'' 1 4 [SpanScope ''b'' 2 3 []]]
      sample_thread))) = 2"
    by (simp add: Let_def case_prod_beta)
  then show ?thesis
    using nested_spans_tree [OF sample_thread_slot(1) sample_context_valid _ prod.collapse [symmetric],
        of "[SpanScope ''a'' 1 4 [SpanScope ''b'' 2 3 []]]" "\<lambda>g. g"]
    by simp
qed

end
