(* ===== verification/Json.thy ===== *)
theory Json
  imports Id_Format
begin

text \<open>
  A reference for the JSON that the exporters write, independent of their code: JSON values, their
  compact text, a parser for compact JSON texts after RFC 8259, and decimal numbers. Strings are
  sequences of bytes; the parser refuses raw control characters inside strings and decodes the
  escapes, of the \<^verbatim>\<open>\u\<close> escapes those below 256.

  The locale \<open>json_string_writer\<close> is the contract of a routine that writes the body of a JSON
  string character by character; both exporters have such a routine of their own.
\<close>

section \<open>Values and their text\<close>

datatype json =
    JStr string
  | JNum string
  | JBool bool
  | JArr "json list"
  | JObj "(string \<times> json) list"

definition quote_char :: char where "quote_char = CHR 0x22"

definition backslash :: char where "backslash = CHR 0x5C"

text \<open>The standard way to write one byte inside a string.\<close>

definition json_escape :: "char \<Rightarrow> string" where
  "json_escape c =
     (if c = quote_char \<or> c = backslash then [backslash, c]
      else if c = CHR 0x0A then [backslash, CHR ''n'']
      else if c = CHR 0x0D then [backslash, CHR ''r'']
      else if c = CHR 0x09 then [backslash, CHR ''t'']
      else if char_code c < 0x20 then
        [backslash, CHR ''u'', CHR ''0'', CHR ''0'',
         kHexDigits ! (nat (char_code c) div 16), kHexDigits ! (nat (char_code c) mod 16)]
      else [c])"

definition json_string :: "string \<Rightarrow> string" where
  "json_string s = quote_char # concat (map json_escape s) @ [quote_char]"

fun comma_sep :: "string list \<Rightarrow> string" where
  "comma_sep [] = []"
| "comma_sep [x] = x"
| "comma_sep (x # xs) = x @ CHR '','' # comma_sep xs"

fun json_print :: "json \<Rightarrow> string" where
  "json_print (JStr s) = json_string s"
| "json_print (JNum n) = n"
| "json_print (JBool b) = (if b then ''true'' else ''false'')"
| "json_print (JArr vs) = CHR ''['' # comma_sep (map json_print vs) @ '']''"
| "json_print (JObj kvs) =
     CHR ''{'' # comma_sep (map (\<lambda>kv. json_string (fst kv) @ CHR '':'' # json_print (snd kv)) kvs) @ ''}''"

section \<open>The parser\<close>

text \<open>The rest of a string after its opening quote: the decoded text and what follows the closing
  quote.\<close>

fun json_unescape :: "string \<Rightarrow> (string \<times> string) option" where
  "json_unescape [] = None"
| "json_unescape (c # cs) =
     (if c = quote_char then Some ([], cs)
      else if c = backslash then
        (case cs of
           [] \<Rightarrow> None
         | e # es \<Rightarrow>
             if e = CHR ''u'' then
               (case es of
                  a # b # h # l # rest \<Rightarrow>
                    if a = CHR ''0'' \<and> b = CHR ''0'' \<and> is_hex h \<and> is_hex l
                    then map_option (\<lambda>(s, r). (char_of (nat (16 * hexValue h + hexValue l)) # s, r))
                           (json_unescape rest)
                    else None
                | _ \<Rightarrow> None)
             else
               (case map_of (zip (quote_char # backslash # ''/bfnrt'')
                        [quote_char, backslash, CHR ''/'', CHR 0x08, CHR 0x0C, CHR 0x0A, CHR 0x0D, CHR 0x09]) e of
                  None \<Rightarrow> None
                | Some d \<Rightarrow> map_option (\<lambda>(s, r). (d # s, r)) (json_unescape es)))
      else if char_code c < 0x20 then None
      else map_option (\<lambda>(s, r). (c # s, r)) (json_unescape cs))"

text \<open>Number tokens: an optional minus sign, an integer part without leading zeros, an optional
  fraction and an optional exponent.\<close>

definition is_digit :: "char \<Rightarrow> bool" where
  "is_digit c \<longleftrightarrow> c \<in> set ''0123456789''"

definition is_number_char :: "char \<Rightarrow> bool" where
  "is_number_char c \<longleftrightarrow> is_digit c \<or> c \<in> set ''+-.eE''"

definition drop_sign :: "string \<Rightarrow> string" where
  "drop_sign s = (case s of c # cs \<Rightarrow> if c = CHR ''-'' then cs else s | [] \<Rightarrow> [])"

definition json_exponent :: "string \<Rightarrow> bool" where
  "json_exponent s =
     (case s of
        [] \<Rightarrow> True
      | c # cs \<Rightarrow> (c = CHR ''e'' \<or> c = CHR ''E'') \<and>
          (let ds = (case cs of d # ds \<Rightarrow> if d = CHR ''+'' \<or> d = CHR ''-'' then ds else cs | [] \<Rightarrow> [])
           in ds \<noteq> [] \<and> list_all is_digit ds))"

definition json_fraction :: "string \<Rightarrow> bool" where
  "json_fraction s =
     (case s of
        c # cs \<Rightarrow>
          if c = CHR ''.'' then takeWhile is_digit cs \<noteq> [] \<and> json_exponent (dropWhile is_digit cs)
          else json_exponent s
      | [] \<Rightarrow> True)"

definition json_number :: "string \<Rightarrow> bool" where
  "json_number s =
     (let t = drop_sign s; ds = takeWhile is_digit t
      in ds \<noteq> [] \<and> (hd ds = CHR ''0'' \<longrightarrow> length ds = 1) \<and> json_fraction (dropWhile is_digit t))"

text \<open>The fuel bounds the nesting and the number of elements.\<close>

fun json_value :: "nat \<Rightarrow> string \<Rightarrow> (json \<times> string) option"
  and json_elements :: "nat \<Rightarrow> string \<Rightarrow> (json list \<times> string) option"
  and json_members :: "nat \<Rightarrow> string \<Rightarrow> ((string \<times> json) list \<times> string) option" where
  "json_value 0 s = None"
| "json_value (Suc n) s =
     (case s of
        [] \<Rightarrow> None
      | c # cs \<Rightarrow>
          if c = quote_char then map_option (\<lambda>(t, r). (JStr t, r)) (json_unescape cs)
          else if c = CHR ''['' then
            (if cs \<noteq> [] \<and> hd cs = CHR '']'' then Some (JArr [], tl cs)
             else map_option (\<lambda>(vs, r). (JArr vs, r)) (json_elements n cs))
          else if c = CHR ''{'' then
            (if cs \<noteq> [] \<and> hd cs = CHR ''}'' then Some (JObj [], tl cs)
             else map_option (\<lambda>(kvs, r). (JObj kvs, r)) (json_members n cs))
          else if take 4 s = ''true'' then Some (JBool True, drop 4 s)
          else if take 5 s = ''false'' then Some (JBool False, drop 5 s)
          else if json_number (takeWhile is_number_char s)
          then Some (JNum (takeWhile is_number_char s), dropWhile is_number_char s)
          else None)"
| "json_elements 0 s = None"
| "json_elements (Suc n) s =
     (case json_value n s of
        Some (v, c # r) \<Rightarrow>
          if c = CHR '']'' then Some ([v], r)
          else if c = CHR '','' then map_option (\<lambda>(vs, r). (v # vs, r)) (json_elements n r)
          else None
      | _ \<Rightarrow> None)"
| "json_members 0 s = None"
| "json_members (Suc n) s =
     (case s of
        [] \<Rightarrow> None
      | q # s' \<Rightarrow>
          if q \<noteq> quote_char then None
          else
            (case json_unescape s' of
               Some (k, d # s'') \<Rightarrow>
                 if d \<noteq> CHR '':'' then None
                 else
                   (case json_value n s'' of
                      Some (v, c # r) \<Rightarrow>
                        if c = CHR ''}'' then Some ([(k, v)], r)
                        else if c = CHR '','' then map_option (\<lambda>(kvs, r). ((k, v) # kvs, r)) (json_members n r)
                        else None
                    | _ \<Rightarrow> None)
             | _ \<Rightarrow> None))"

definition json_parse :: "string \<Rightarrow> json option" where
  "json_parse s =
     (case json_value (Suc (length s)) s of
        Some (v, []) \<Rightarrow> Some v
      | _ \<Rightarrow> None)"

section \<open>Strings\<close>

lemma json_unescape_plain:
  "c \<noteq> quote_char \<Longrightarrow> c \<noteq> backslash \<Longrightarrow> \<not> char_code c < 0x20 \<Longrightarrow>
     json_unescape (c # s) = map_option (\<lambda>(t, r). (c # t, r)) (json_unescape s)"
  by simp

lemma json_unescape_simple:
  "json_unescape (backslash # quote_char # s) = map_option (\<lambda>(t, r). (quote_char # t, r)) (json_unescape s)"
  "json_unescape (backslash # backslash # s) = map_option (\<lambda>(t, r). (backslash # t, r)) (json_unescape s)"
  "json_unescape (backslash # CHR ''n'' # s) = map_option (\<lambda>(t, r). (CHR 0x0A # t, r)) (json_unescape s)"
  "json_unescape (backslash # CHR ''r'' # s) = map_option (\<lambda>(t, r). (CHR 0x0D # t, r)) (json_unescape s)"
  "json_unescape (backslash # CHR ''t'' # s) = map_option (\<lambda>(t, r). (CHR 0x09 # t, r)) (json_unescape s)"
  by (simp_all add: quote_char_def backslash_def)

lemma json_unescape_control:
  assumes "char_code c < 0x20"
  shows "json_unescape (backslash # CHR ''u'' # CHR ''0'' # CHR ''0'' #
      kHexDigits ! (nat (char_code c) div 16) # kHexDigits ! (nat (char_code c) mod 16) # s) =
    map_option (\<lambda>(t, r). (c # t, r)) (json_unescape s)"
proof -
  let ?n = "of_char c :: nat"
  have c: "char_code c = int ?n" by (simp only: char_code_def of_nat_of_char)
  then have code: "nat (char_code c) = ?n" by (simp only: nat_int)
  have "int ?n < 32" using assms c by simp
  then have n: "?n < 32" by linarith
  have hi: "hexValue (kHexDigits ! (?n div 16)) = int (?n div 16)"
    and lo: "hexValue (kHexDigits ! (?n mod 16)) = int (?n mod 16)"
    by (rule hexValue_digit_nat, use n in simp)+
  have "16 * int (?n div 16) + int (?n mod 16) = int ?n" by (metis of_nat_add of_nat_mult of_nat_numeral mult_div_mod_eq)
  then have "char_of (nat (16 * int (?n div 16) + int (?n mod 16))) = c" by (simp only: nat_int) simp
  then show ?thesis
    unfolding code by (simp add: is_hex_def hi lo quote_char_def backslash_def del: of_nat_of_char)
qed

locale json_string_writer =
  fixes esc :: "char \<Rightarrow> string"
    and ok :: "char \<Rightarrow> bool"
  assumes unescape_esc: "ok c \<Longrightarrow> json_unescape (esc c @ s) = map_option (\<lambda>(t, r). (c # t, r)) (json_unescape s)"
begin

lemma unescape_body:
  "list_all ok s \<Longrightarrow> json_unescape (concat (map esc s) @ quote_char # r) = Some (s, r)"
  by (induction s) (simp_all add: unescape_esc del: json_unescape.simps(2), simp)

lemma body_inj:
  "list_all ok s \<Longrightarrow> list_all ok t \<Longrightarrow>
     concat (map esc s) @ quote_char # r = concat (map esc t) @ quote_char # r' \<Longrightarrow> s = t \<and> r = r'"
  by (metis unescape_body option.inject prod.inject)

end

interpretation json_std: json_string_writer json_escape "\<lambda>_. True"
  by unfold_locales
    (auto simp: json_escape_def json_unescape_simple json_unescape_control json_unescape_plain
      simp del: json_unescape.simps(2))

lemma json_string_unescape: "json_unescape (tl (json_string s) @ r) = Some (s, r)"
  using json_std.unescape_body [of s r] by (simp add: json_string_def list_all_iff)

section \<open>Printing and parsing\<close>

text \<open>Values whose number tokens are numbers.\<close>

fun json_ok :: "json \<Rightarrow> bool" where
  "json_ok (JNum n) = (json_number n \<and> list_all is_number_char n)"
| "json_ok (JArr vs) = list_all json_ok vs"
| "json_ok (JObj kvs) = list_all (\<lambda>kv. json_ok (snd kv)) kvs"
| "json_ok _ = True"

abbreviation json_pair :: "string \<times> json \<Rightarrow> string" where
  "json_pair kv \<equiv> json_string (fst kv) @ CHR '':'' # json_print (snd kv)"

text \<open>A text after which a number token ends.\<close>

definition token_end :: "string \<Rightarrow> bool" where
  "token_end r \<longleftrightarrow> r = [] \<or> \<not> is_number_char (hd r)"

lemma token_end_delims [simp]:
  "token_end []" "token_end (CHR '','' # r)" "token_end (CHR '']'' # r)" "token_end (CHR ''}'' # r)"
  by (simp_all add: token_end_def is_number_char_def is_digit_def)

lemma json_string_length: "2 \<le> length (json_string s)"
  by (simp add: json_string_def)

lemma json_number_start:
  assumes "json_number n"
  shows "n \<noteq> []" and "hd n \<notin> {quote_char, CHR ''['', CHR ''{'', CHR ''t'', CHR ''f'', CHR '']'', CHR ''}''}"
proof -
  show "n \<noteq> []" using assms by (auto simp: json_number_def drop_sign_def)
  then have "is_digit (hd n) \<or> hd n = CHR ''-''"
    using assms by (cases n) (auto simp: json_number_def drop_sign_def Let_def split: if_splits)
  then show "hd n \<notin> {quote_char, CHR ''['', CHR ''{'', CHR ''t'', CHR ''f'', CHR '']'', CHR ''}''}"
    by (auto simp: is_digit_def quote_char_def)
qed

lemma json_print_start:
  assumes "json_ok v"
  shows "json_print v \<noteq> []" and "hd (json_print v) \<noteq> CHR '']''" and "hd (json_print v) \<noteq> CHR ''}''"
  using assms json_number_start by (cases v; auto simp: json_string_def quote_char_def)+

lemma takeWhile_number:
  "list_all is_number_char n \<Longrightarrow> token_end r \<Longrightarrow>
     takeWhile is_number_char (n @ r) = n \<and> dropWhile is_number_char (n @ r) = r"
  by (induction n) (auto simp: token_end_def takeWhile_eq_Nil_iff dropWhile_eq_self_iff)

lemma comma_sep_Cons: "xs \<noteq> [] \<Longrightarrow> comma_sep (x # xs) = x @ CHR '','' # comma_sep xs"
  by (cases xs) simp_all

lemma comma_sep_start: "xs \<noteq> [] \<Longrightarrow> hd xs \<noteq> [] \<Longrightarrow> comma_sep xs \<noteq> [] \<and> hd (comma_sep xs) = hd (hd xs)"
  by (cases xs rule: comma_sep.cases) simp_all

lemma json_elements_print:
  assumes "vs \<noteq> []"
    and "\<And>v r n. v \<in> set vs \<Longrightarrow> token_end r \<Longrightarrow> length (json_print v) \<le> n \<Longrightarrow>
           json_value n (json_print v @ r) = Some (v, r)"
    and "length (comma_sep (map json_print vs)) < n"
  shows "json_elements n (comma_sep (map json_print vs) @ CHR '']'' # r) = Some (vs, r)"
  using assms
proof (induction vs arbitrary: n rule: list_nonempty_induct)
  case (single v)
  then obtain m where "n = Suc m" by (cases n) auto
  then show ?case using single(1) [of v "CHR '']'' # r" m] single(2) by simp
next
  case (cons v vs)
  then obtain m where n: "n = Suc m" by (cases n) auto
  have "json_value m (json_print v @ CHR '','' # comma_sep (map json_print vs) @ CHR '']'' # r) =
      Some (v, CHR '','' # comma_sep (map json_print vs) @ CHR '']'' # r)"
    using cons(1,4) n by (intro cons(3)) (simp_all add: comma_sep_Cons)
  moreover have "json_elements m (comma_sep (map json_print vs) @ CHR '']'' # r) = Some (vs, r)"
    using cons(1,3,4) n by (intro cons(2)) (simp_all add: comma_sep_Cons)
  ultimately show ?case using cons(1) n by (simp add: comma_sep_Cons)
qed

lemma json_members_print:
  assumes "kvs \<noteq> []"
    and "\<And>kv r n. kv \<in> set kvs \<Longrightarrow> token_end r \<Longrightarrow> length (json_print (snd kv)) \<le> n \<Longrightarrow>
           json_value n (json_print (snd kv) @ r) = Some (snd kv, r)"
    and "length (comma_sep (map json_pair kvs)) < n"
  shows "json_members n (comma_sep (map json_pair kvs) @ CHR ''}'' # r) = Some (kvs, r)"
  using assms
proof (induction kvs arbitrary: n rule: list_nonempty_induct)
  case (single kv)
  then obtain m where n: "n = Suc m" by (cases n) auto
  have "json_value m (json_print (snd kv) @ CHR ''}'' # r) = Some (snd kv, CHR ''}'' # r)"
    using single(2) n by (intro single(1)) simp_all
  then show ?case
    using n json_string_unescape [of "fst kv" "CHR '':'' # json_print (snd kv) @ CHR ''}'' # r"]
    by (simp add: json_string_def)
next
  case (cons kv kvs)
  let ?rest = "CHR '','' # comma_sep (map json_pair kvs) @ CHR ''}'' # r"
  obtain m where n: "n = Suc m" using cons(4) by (cases n) auto
  have len: "length (json_print (snd kv)) + length (comma_sep (map json_pair kvs)) + 1 < m"
    using cons(1,4) n json_string_length [of "fst kv"] by (simp add: comma_sep_Cons)
  have "json_value m (json_print (snd kv) @ ?rest) = Some (snd kv, ?rest)"
    using len by (intro cons(3)) simp_all
  moreover have "json_members m (comma_sep (map json_pair kvs) @ CHR ''}'' # r) = Some (kvs, r)"
    using cons(3) len by (intro cons(2)) simp_all
  ultimately show ?case
    using cons(1) n json_string_unescape [of "fst kv" "CHR '':'' # json_print (snd kv) @ ?rest"]
    by (simp add: comma_sep_Cons json_string_def)
qed

lemma json_value_print:
  "json_ok v \<Longrightarrow> token_end r \<Longrightarrow> length (json_print v) \<le> n \<Longrightarrow>
     json_value n (json_print v @ r) = Some (v, r)"
proof (induction v arbitrary: n r)
  case (JStr s)
  then obtain m where "n = Suc m" using json_string_length [of s] by (cases n) auto
  then show ?case using json_string_unescape [of s r] by (simp add: json_string_def)
next
  case (JNum s)
  then obtain m where n: "n = Suc m" using json_number_start(1) [of s] by (cases n) auto
  obtain c cs where s: "s = c # cs" using JNum json_number_start(1) [of s] by (cases s) auto
  have "c \<notin> {quote_char, CHR ''['', CHR ''{'', CHR ''t'', CHR ''f''}"
    using JNum json_number_start(2) [of s] by (simp add: s)
  then show ?case
    using JNum takeWhile_number [of s r] by (simp add: n s del: takeWhile.simps dropWhile.simps)
next
  case (JBool b)
  then obtain m where "n = Suc m" by (cases n) (auto split: if_splits)
  then show ?case by (simp add: quote_char_def)
next
  case (JArr vs)
  obtain m where n: "n = Suc m" using JArr(4) by (cases n) auto
  show ?case
  proof (cases "vs = []")
    case False
    have "hd (json_print (hd vs)) \<noteq> CHR '']''" "json_print (hd vs) \<noteq> []"
      using JArr(2) False json_print_start [of "hd vs"] by (auto simp: list_all_iff)
    then have "hd (comma_sep (map json_print vs) @ CHR '']'' # r) \<noteq> CHR '']''"
      using False comma_sep_start [of "map json_print vs"] by (simp add: hd_map)
    moreover have "json_elements m (comma_sep (map json_print vs) @ CHR '']'' # r) = Some (vs, r)"
      using JArr False n by (intro json_elements_print) (simp_all add: list_all_iff)
    ultimately show ?thesis by (simp add: n quote_char_def)
  qed (simp add: n quote_char_def)
next
  case (JObj kvs)
  obtain m where n: "n = Suc m" using JObj(4) by (cases n) auto
  show ?case
  proof (cases "kvs = []")
    case False
    then have "hd (comma_sep (map json_pair kvs) @ CHR ''}'' # r) = quote_char"
      using comma_sep_start [of "map json_pair kvs"] by (simp add: hd_map json_string_def)
    moreover have "json_members m (comma_sep (map json_pair kvs) @ CHR ''}'' # r) = Some (kvs, r)"
      using JObj False n by (intro json_members_print) (auto simp: list_all_iff snds.simps)
    ultimately show ?thesis by (simp add: n quote_char_def)
  qed (simp add: n quote_char_def)
qed

lemma json_parse_print: "json_ok v \<Longrightarrow> json_parse (json_print v) = Some v"
  using json_value_print [of v "[]" "Suc (length (json_print v))"] by (simp add: json_parse_def)

section \<open>Texts with tokens that are not numbers\<close>

definition bad_token :: "string \<Rightarrow> bool" where
  "bad_token t \<longleftrightarrow> t \<in> {''nan'', ''inf'', ''-nan'', ''-inf''}"

text \<open>Values whose number tokens are numbers or not-a-number tokens.\<close>

fun json_or_bad :: "json \<Rightarrow> bool" where
  "json_or_bad (JNum n) = (json_ok (JNum n) \<or> bad_token n)"
| "json_or_bad (JArr vs) = list_all json_or_bad vs"
| "json_or_bad (JObj kvs) = list_all (\<lambda>kv. json_or_bad (snd kv)) kvs"
| "json_or_bad _ = True"

lemma comma_sep_concat_length: "length x \<le> length (comma_sep (x # xs))"
  by (cases xs) simp_all

lemma json_value_bad_token: "bad_token t \<Longrightarrow> json_value n (t @ r) = None"
  by (cases n) (auto simp: bad_token_def quote_char_def is_number_char_def is_digit_def json_number_def
      drop_sign_def Let_def)

lemma json_or_bad_start:
  assumes "json_or_bad v"
  shows "json_print v \<noteq> []" and "hd (json_print v) \<noteq> CHR '']''"
  using assms json_number_start by (cases v; auto simp: json_string_def quote_char_def bad_token_def)+

lemma json_elements_bad:
  assumes "list_all json_or_bad vs" and "\<not> list_all json_ok vs"
    and "\<And>v r n. v \<in> set vs \<Longrightarrow> \<not> json_ok v \<Longrightarrow> length (json_print v) \<le> n \<Longrightarrow> json_value n (json_print v @ r) = None"
    and "length (comma_sep (map json_print vs)) < n"
  shows "json_elements n (comma_sep (map json_print vs) @ r) = None"
  using assms
proof (induction vs arbitrary: n)
  case (Cons v vs)
  obtain m where n: "n = Suc m" using Cons.prems(4) by (cases n) auto
  show ?case
  proof (cases "json_ok v")
    case False
    have "json_value m (json_print v @ r') = None" for r'
      using Cons.prems(4) False n comma_sep_concat_length [of "json_print v" "map json_print vs"]
      by (intro Cons.prems(3)) simp_all
    then show ?thesis using n by (cases vs) simp_all
  next
    case True
    then have vs: "vs \<noteq> []" using Cons.prems(2) by auto
    have "json_value m (json_print v @ CHR '','' # comma_sep (map json_print vs) @ r) =
        Some (v, CHR '','' # comma_sep (map json_print vs) @ r)"
      using True Cons.prems(4) n vs by (intro json_value_print) (simp_all add: comma_sep_Cons)
    moreover have "json_elements m (comma_sep (map json_print vs) @ r) = None"
      using Cons.prems True n vs by (intro Cons.IH) (simp_all add: comma_sep_Cons)
    ultimately show ?thesis using n vs by (simp add: comma_sep_Cons)
  qed
qed simp

lemma json_members_bad:
  assumes "list_all (\<lambda>kv. json_or_bad (snd kv)) kvs" and "\<not> list_all (\<lambda>kv. json_ok (snd kv)) kvs"
    and "\<And>kv r n. kv \<in> set kvs \<Longrightarrow> \<not> json_ok (snd kv) \<Longrightarrow> length (json_print (snd kv)) \<le> n \<Longrightarrow>
           json_value n (json_print (snd kv) @ r) = None"
    and "length (comma_sep (map json_pair kvs)) < n"
  shows "json_members n (comma_sep (map json_pair kvs) @ r) = None"
  using assms
proof (induction kvs arbitrary: n)
  case (Cons kv kvs)
  obtain m where n: "n = Suc m" using Cons.prems(4) by (cases n) auto
  let ?rest = "if kvs = [] then r else CHR '','' # comma_sep (map json_pair kvs) @ r"
  have line: "comma_sep (map json_pair (kv # kvs)) @ r = json_string (fst kv) @ CHR '':'' # json_print (snd kv) @ ?rest"
    by (cases kvs) simp_all
  have key: "json_unescape (tl (json_string (fst kv) @ CHR '':'' # json_print (snd kv) @ ?rest)) =
      Some (fst kv, CHR '':'' # json_print (snd kv) @ ?rest)"
    using json_string_unescape [of "fst kv" "CHR '':'' # json_print (snd kv) @ ?rest"] by (simp add: json_string_def)
  have len: "length (json_print (snd kv)) \<le> m"
    using Cons.prems(4) n comma_sep_concat_length [of "json_pair kv" "map json_pair kvs"] by simp
  show ?case
  proof (cases "json_ok (snd kv)")
    case False
    have "json_value m (json_print (snd kv) @ ?rest) = None"
      using len False by (intro Cons.prems(3)) simp_all
    then show ?thesis unfolding line using key n by (simp add: json_string_def split del: if_split)
  next
    case True
    then have kvs: "kvs \<noteq> []" using Cons.prems(2) by auto
    have "json_value m (json_print (snd kv) @ ?rest) = Some (snd kv, ?rest)"
      using len True kvs by (intro json_value_print) simp_all
    moreover have "json_members m (comma_sep (map json_pair kvs) @ r) = None"
      using Cons.prems True n kvs by (intro Cons.IH) (simp_all add: comma_sep_Cons)
    ultimately show ?thesis unfolding line using key n kvs by (simp add: json_string_def)
  qed
qed simp

lemma json_value_bad:
  "json_or_bad v \<Longrightarrow> \<not> json_ok v \<Longrightarrow> length (json_print v) \<le> n \<Longrightarrow> json_value n (json_print v @ r) = None"
proof (induction v arbitrary: n r)
  case (JNum s)
  then have "bad_token s" by auto
  then show ?case by (simp add: json_value_bad_token)
next
  case (JArr vs)
  then obtain m where n: "n = Suc m" by (cases n) auto
  have vs: "vs \<noteq> []" using JArr(3) by auto
  then have "hd (comma_sep (map json_print vs) @ CHR '']'' # r) \<noteq> CHR '']''"
    using JArr(2) json_or_bad_start [of "hd vs"] comma_sep_start [of "map json_print vs"]
    by (auto simp: hd_map list_all_iff)
  moreover have "json_elements m (comma_sep (map json_print vs) @ CHR '']'' # r) = None"
    using JArr n by (intro json_elements_bad) (simp_all add: list_all_iff)
  ultimately show ?case by (simp add: n quote_char_def)
next
  case (JObj kvs)
  then obtain m where n: "n = Suc m" by (cases n) auto
  have kvs: "kvs \<noteq> []" using JObj(3) by auto
  then have "hd (comma_sep (map json_pair kvs) @ CHR ''}'' # r) = quote_char"
    using comma_sep_start [of "map json_pair kvs"] by (simp add: hd_map json_string_def)
  moreover have "json_members m (comma_sep (map json_pair kvs) @ CHR ''}'' # r) = None"
    using JObj n by (intro json_members_bad) (auto simp: list_all_iff snds.simps)
  ultimately show ?case by (simp add: n quote_char_def)
qed simp_all

lemma json_parse_bad: "json_or_bad v \<Longrightarrow> json_parse (json_print v) = (if json_ok v then Some v else None)"
  using json_value_bad [of v "Suc (length (json_print v))" "[]"] json_parse_print [of v]
  by (simp add: json_parse_def)

section \<open>Decimal numbers\<close>

function dec_of_nat :: "nat \<Rightarrow> string" where
  "dec_of_nat n = (if n < 10 then [''0123456789'' ! n] else dec_of_nat (n div 10) @ [''0123456789'' ! (n mod 10)])"
  by auto
termination by (relation "measure (\<lambda>n. n)") auto

declare dec_of_nat.simps [simp del]

definition dec_of_int :: "int \<Rightarrow> string" where
  "dec_of_int i = (if i < 0 then CHR ''-'' # dec_of_nat (nat (- i)) else dec_of_nat (nat i))"

text \<open>Reading a decimal back.\<close>

definition nat_of_dec :: "string \<Rightarrow> nat" where
  "nat_of_dec s = foldl (\<lambda>a c. 10 * a + nat (hexValue c)) 0 s"

definition int_of_dec :: "string \<Rightarrow> int" where
  "int_of_dec s = (case s of c # cs \<Rightarrow> if c = CHR ''-'' then - int (nat_of_dec cs) else int (nat_of_dec s) | [] \<Rightarrow> 0)"

lemma digit_table: "d < 10 \<Longrightarrow> ''0123456789'' ! d = kHexDigits ! d"
  by (cases d rule: nat.exhaust; simp add: kHexDigits_def nth_Cons split: nat.splits)

lemma nat_of_dec_of_nat: "nat_of_dec (dec_of_nat n) = n"
proof (induction n rule: dec_of_nat.induct)
  case (1 n)
  show ?case
    using 1 hexValue_digit_nat [of n] hexValue_digit_nat [of "n mod 10"]
    by (subst dec_of_nat.simps) (simp add: nat_of_dec_def digit_table)
qed

lemma dec_of_nat_digits: "dec_of_nat n \<noteq> [] \<and> list_all is_digit (dec_of_nat n)"
proof (induction n rule: dec_of_nat.induct)
  case (1 n)
  have "is_digit (''0123456789'' ! d)" if "d < 10" for d
    unfolding is_digit_def using that by (intro nth_mem) simp
  then show ?case using 1 by (subst (1 2) dec_of_nat.simps) simp
qed

lemma int_of_dec_of_int: "int_of_dec (dec_of_int i) = i"
proof (cases "i < 0")
  case False
  have "hd (dec_of_nat (nat i)) \<noteq> CHR ''-''" "dec_of_nat (nat i) \<noteq> []"
    using dec_of_nat_digits [of "nat i"] by (cases "dec_of_nat (nat i)"; auto simp: is_digit_def)+
  then show ?thesis
    using False nat_of_dec_of_nat [of "nat i"]
    by (auto simp: dec_of_int_def int_of_dec_def split: list.splits)
qed (simp add: dec_of_int_def int_of_dec_def nat_of_dec_of_nat)

lemma dec_of_nat_length: "n < 10 ^ Suc k \<Longrightarrow> length (dec_of_nat n) \<le> Suc k"
proof (induction k arbitrary: n)
  case 0
  then show ?case by (subst dec_of_nat.simps) simp
next
  case (Suc k)
  show ?case
  proof (cases "n < 10")
    case False
    have "n div 10 < 10 ^ Suc k" using Suc.prems by (simp add: less_mult_imp_div_less mult.commute)
    then show ?thesis using Suc.IH [of "n div 10"] False by (subst dec_of_nat.simps) simp
  qed (subst dec_of_nat.simps, simp)
qed

lemma dec_word_length:
  "length (dec_of_nat (unat (u :: u64))) \<le> 32" "length (dec_of_int (sint (i :: i64))) \<le> 32"
proof -
  have "unat u < 10 ^ Suc 19" using word64_lt [of u] by simp
  then show "length (dec_of_nat (unat u)) \<le> 32" using dec_of_nat_length [of "unat u" 19] by simp
  have "- (2 ^ 63) \<le> sint i" "sint i < 2 ^ 63" using sint_range_size [of i] by (simp_all add: word_size)
  then have "nat (sint i) < 10 ^ Suc 18" "nat (- sint i) < 10 ^ Suc 18" by auto
  then show "length (dec_of_int (sint i)) \<le> 32"
    using dec_of_nat_length [of "nat (sint i)" 18] dec_of_nat_length [of "nat (- sint i)" 18]
    by (simp add: dec_of_int_def)
qed

end
