(* ===== verification/Span_Exporter.thy ===== *)
theory Span_Exporter
  imports Span_Model Json
begin

text \<open>
  Model of the exporter interface \<^verbatim>\<open>galay-tracing/kernel/span_exporter.h\<close> and of the file exporter
  \<^verbatim>\<open>file_span_exporter.h\<close>, \<^verbatim>\<open>file_span_exporter.cc\<close>.

  The abstract class \<^verbatim>\<open>SpanExporter\<close> is a record of its virtual functions over a state type.
  The \<^verbatim>\<open>std::ofstream\<close> of the file exporter is a record of its error state, whether it is open, the
  bytes of the file and the bytes that are still in its buffer. What is written goes to the buffer; the
  stream decides how much of the buffer it passes on at once, and the device how many of those bytes it
  takes. A flush and the closing pass on the whole buffer. If the device takes too few bytes, or the file
  is closed, the stream enters the error state, in which further writes and flushes do nothing.
\<close>

section \<open>The exporter interface\<close>

type_synonym milliseconds = int

datatype ExportResult = Export_kSuccess | Export_kFailure

record 'e SpanExporter =
  exportSpans :: "Span list \<Rightarrow> 'e \<Rightarrow> ExportResult \<times> 'e"
  forceFlush :: "milliseconds \<Rightarrow> 'e \<Rightarrow> bool \<times> 'e"
  shutdown :: "milliseconds \<Rightarrow> 'e \<Rightarrow> bool \<times> 'e"

text \<open>The default implementations of the two optional functions.\<close>

definition SpanExporter_forceFlush :: "milliseconds \<Rightarrow> 'e \<Rightarrow> bool \<times> 'e" where
  "SpanExporter_forceFlush timeout e = (True, e)"

definition SpanExporter_shutdown :: "milliseconds \<Rightarrow> 'e \<Rightarrow> bool \<times> 'e" where
  "SpanExporter_shutdown timeout e = (True, e)"

section \<open>The file exporter\<close>

record ofstream =
  os_good :: bool
  os_open :: bool
  os_content :: string
  os_buffer :: string

text \<open>\<open>dev_spill content buffer\<close> is the number of buffered bytes that a write passes on, and
  \<open>dev_take content s\<close> the number of bytes of \<open>s\<close> the device takes after \<open>content\<close>.\<close>

record device =
  dev_spill :: "string \<Rightarrow> string \<Rightarrow> nat"
  dev_take :: "string \<Rightarrow> string \<Rightarrow> nat"

text \<open>Passing on the first \<open>n\<close> bytes of the buffer, and whether the device took them.\<close>

definition ofstream_pass :: "device \<Rightarrow> nat \<Rightarrow> ofstream \<Rightarrow> bool \<times> ofstream" where
  "ofstream_pass dev n out =
     (let chunk = take n (os_buffer out);
          taken = take (dev_take dev (os_content out) chunk) chunk
      in (length taken = length chunk,
          out\<lparr>os_content := os_content out @ taken, os_buffer := drop (length taken) (os_buffer out)\<rparr>))"

definition ofstream_write :: "device \<Rightarrow> string \<Rightarrow> ofstream \<Rightarrow> ofstream" where
  "ofstream_write dev s out =
     (if \<not> os_good out then out
      else if \<not> os_open out then out\<lparr>os_good := False\<rparr>
      else
        let out = out\<lparr>os_buffer := os_buffer out @ s\<rparr>;
            (ok, out) = ofstream_pass dev (dev_spill dev (os_content out) (os_buffer out)) out
        in out\<lparr>os_good := ok\<rparr>)"

definition ofstream_flush :: "device \<Rightarrow> ofstream \<Rightarrow> ofstream" where
  "ofstream_flush dev out =
     (if os_good out \<and> os_open out
      then let (ok, out) = ofstream_pass dev (length (os_buffer out)) out in out\<lparr>os_good := ok\<rparr>
      else out)"

definition ofstream_close :: "device \<Rightarrow> ofstream \<Rightarrow> ofstream" where
  "ofstream_close dev out =
     (if os_open out
      then let (ok, out) = ofstream_pass dev (length (os_buffer out)) out
           in out\<lparr>os_open := False, os_buffer := [], os_good := os_good out \<and> ok\<rparr>
      else out\<lparr>os_good := False\<rparr>)"

definition file_escape :: "char \<Rightarrow> string" where
  "file_escape ch = (if ch = quote_char \<or> ch = backslash then [backslash] else []) @ [ch]"

definition file_appendJsonString :: "string \<Rightarrow> string \<Rightarrow> string" where
  "file_appendJsonString out value =
     fold (\<lambda>ch out. out @ file_escape ch) value (out @ [quote_char]) @ [quote_char]"

definition renderSpanJson :: "Span \<Rightarrow> string" where
  "renderSpanJson s =
     (let ctx = sp_context s;
          line = ''{'' @ [quote_char] @ ''name'' @ [quote_char] @ '':'';
          line = file_appendJsonString line (sp_name s);
          line = line @ '','' @ [quote_char] @ ''trace_id'' @ [quote_char] @ '':'' @ [quote_char];
          line = line @ TraceId_toHex (sc_traceId ctx);
          line = line @ [quote_char] @ '','' @ [quote_char] @ ''span_id'' @ [quote_char] @ '':'' @ [quote_char];
          line = line @ SpanId_toHex (sc_spanId ctx);
          line = line @ [quote_char] @ '','' @ [quote_char] @ ''sampled'' @ [quote_char] @ '':'';
          line = line @ (if SpanContext_sampled ctx then ''true'' else ''false'')
      in line @ ''}'')"

record FileSpanExporter =
  m_out :: ofstream

text \<open>The constructor opens the file in append mode; \<open>opened\<close> is the content it finds, if the file
  could be opened.\<close>

definition FileSpanExporter_new :: "string option \<Rightarrow> FileSpanExporter" where
  "FileSpanExporter_new opened =
     \<lparr>m_out = (case opened of
        None \<Rightarrow> \<lparr>os_good = False, os_open = False, os_content = [], os_buffer = []\<rparr>
      | Some content \<Rightarrow> \<lparr>os_good = True, os_open = True, os_content = content, os_buffer = []\<rparr>)\<rparr>"

definition FileSpanExporter_exportSpans ::
  "device \<Rightarrow> Span list \<Rightarrow> FileSpanExporter \<Rightarrow> ExportResult \<times> FileSpanExporter" where
  "FileSpanExporter_exportSpans dev spans e =
     (if \<not> os_good (m_out e) then (Export_kFailure, e)
      else
        let out = fold (\<lambda>s out. ofstream_write dev [CHR 0x0A] (ofstream_write dev (renderSpanJson s) out))
                    spans (m_out e)
        in (if os_good out then Export_kSuccess else Export_kFailure, e\<lparr>m_out := out\<rparr>))"

definition FileSpanExporter_forceFlush ::
  "device \<Rightarrow> milliseconds \<Rightarrow> FileSpanExporter \<Rightarrow> bool \<times> FileSpanExporter" where
  "FileSpanExporter_forceFlush dev timeout e =
     (let out = ofstream_flush dev (m_out e) in (os_good out, e\<lparr>m_out := out\<rparr>))"

definition FileSpanExporter_shutdown ::
  "device \<Rightarrow> milliseconds \<Rightarrow> FileSpanExporter \<Rightarrow> bool \<times> FileSpanExporter" where
  "FileSpanExporter_shutdown dev timeout e =
     (True, e\<lparr>m_out := ofstream_close dev (ofstream_flush dev (m_out e))\<rparr>)"

text \<open>The class as an implementation of the interface.\<close>

definition file_exporter :: "device \<Rightarrow> FileSpanExporter SpanExporter" where
  "file_exporter dev =
     \<lparr>exportSpans = FileSpanExporter_exportSpans dev,
      forceFlush = FileSpanExporter_forceFlush dev,
      shutdown = FileSpanExporter_shutdown dev\<rparr>"

section \<open>Lines\<close>

lemma fold_append: "fold (\<lambda>x out. out @ f x) xs acc = acc @ concat (map f xs)"
  by (induction xs arbitrary: acc) simp_all

lemma file_appendJsonString_eq:
  "file_appendJsonString out s = out @ quote_char # concat (map file_escape s) @ [quote_char]"
  by (simp add: file_appendJsonString_def fold_append)

definition not_control :: "char \<Rightarrow> bool" where
  "not_control c \<longleftrightarrow> \<not> char_code c < 0x20"

interpretation file_writer: json_string_writer file_escape not_control
  by unfold_locales
    (auto simp: file_escape_def not_control_def json_unescape_simple json_unescape_plain
      simp del: json_unescape.simps(2))

text \<open>The JSON object a line of the file means.\<close>

definition span_line_json :: "Span \<Rightarrow> json" where
  "span_line_json s =
     JObj [(''name'', JStr (sp_name s)),
           (''trace_id'', JStr (TraceId_toHex (sc_traceId (sp_context s)))),
           (''span_id'', JStr (SpanId_toHex (sc_spanId (sp_context s)))),
           (''sampled'', JBool (SpanContext_sampled (sp_context s)))]"

lemma file_escape_standard: "not_control c \<Longrightarrow> file_escape c = json_escape c"
  by (auto simp: file_escape_def json_escape_def not_control_def char_code_def)

lemma hex_not_control: "list_all is_hex s \<Longrightarrow> concat (map json_escape s) = s"
proof (induction s)
  case (Cons c s)
  have "c \<noteq> quote_char" "c \<noteq> backslash" "\<not> char_code c < 0x20"
    using Cons(2) is_hex_chars [of c] by (auto simp: quote_char_def backslash_def char_code_def)
  then have "json_escape c = [c]"
    by (auto simp: json_escape_def char_code_def)
  then show ?case using Cons by simp
qed simp

lemma id_hex_digits:
  "TraceId_wf t \<Longrightarrow> list_all is_hex (TraceId_toHex t)" "SpanId_wf s \<Longrightarrow> list_all is_hex (SpanId_toHex s)"
  by (rule tid.to_hex_digits, assumption) (rule sid.to_hex_digits)

lemma json_string_hex: "list_all is_hex s \<Longrightarrow> json_string s = quote_char # s @ [quote_char]"
  by (simp add: json_string_def hex_not_control)

lemma json_keys:
  "json_string ''name'' = quote_char # ''name'' @ [quote_char]"
  "json_string ''trace_id'' = quote_char # ''trace_id'' @ [quote_char]"
  "json_string ''span_id'' = quote_char # ''span_id'' @ [quote_char]"
  "json_string ''sampled'' = quote_char # ''sampled'' @ [quote_char]"
  by (simp_all add: json_string_def json_escape_def quote_char_def backslash_def char_code_def)

lemma renderSpanJson_eq:
  "renderSpanJson s =
     CHR ''{'' # json_string ''name'' @ CHR '':'' # quote_char # concat (map file_escape (sp_name s)) @
     quote_char # '','' @ json_string ''trace_id'' @ CHR '':'' # quote_char #
     TraceId_toHex (sc_traceId (sp_context s)) @ quote_char # '','' @ json_string ''span_id'' @
     CHR '':'' # quote_char # SpanId_toHex (sc_spanId (sp_context s)) @ quote_char # '','' @
     json_string ''sampled'' @ CHR '':'' #
     (if SpanContext_sampled (sp_context s) then ''true'' else ''false'') @ ''}''"
  by (simp add: renderSpanJson_def file_appendJsonString_eq json_keys Let_def)

lemma renderSpanJson_print:
  assumes "SpanContext_wf (sp_context s)" and "list_all not_control (sp_name s)"
  shows "renderSpanJson s = json_print (span_line_json s)"
proof -
  have "concat (map file_escape (sp_name s)) = concat (map json_escape (sp_name s))"
    using assms(2) by (intro arg_cong [where f = concat] map_cong) (auto simp: list_all_iff file_escape_standard)
  then show ?thesis
    using assms(1)
    by (simp add: renderSpanJson_eq span_line_json_def json_string_hex id_hex_digits SpanContext_wf_def)
      (simp add: json_string_def)
qed

lemma unescape_control_None:
  "\<not> list_all not_control s \<Longrightarrow> json_unescape (concat (map file_escape s) @ r) = None"
proof (induction s)
  case (Cons c s)
  show ?case
  proof (cases "not_control c")
    case True
    then show ?thesis using Cons by (simp add: file_writer.unescape_esc del: json_unescape.simps(2))
  next
    case False
    then have "c \<noteq> quote_char" "c \<noteq> backslash"
      by (auto simp: not_control_def char_code_def quote_char_def backslash_def)
    then show ?thesis using False by (simp add: file_escape_def not_control_def)
  qed
qed simp

lemma json_value_bad_member:
  "json_unescape x = None \<Longrightarrow>
     json_value (Suc (Suc (Suc n))) (CHR ''{'' # json_string k @ CHR '':'' # quote_char # x) = None"
  using json_string_unescape [of k "CHR '':'' # quote_char # x"]
  by (simp add: json_string_def quote_char_def)

lemma renderSpanJson_control:
  assumes "\<not> list_all not_control (sp_name s)"
  shows "json_parse (renderSpanJson s) = None"
proof -
  have "3 \<le> length (renderSpanJson s)" by (simp add: renderSpanJson_eq)
  then obtain n where n: "length (renderSpanJson s) = Suc (Suc n)"
    by (metis add_2_eq_Suc le_add_diff_inverse numeral_3_eq_3 Suc_leD numeral_2_eq_2)
  have "json_value (Suc (Suc (Suc n))) (renderSpanJson s) = None"
    by (subst renderSpanJson_eq, rule json_value_bad_member, rule unescape_control_None [OF assms])
  then show ?thesis by (simp add: json_parse_def n)
qed

section \<open>The stream\<close>

text \<open>What the file will hold when the buffer is written out, and a device that takes every byte.\<close>

definition stream_text :: "ofstream \<Rightarrow> string" where
  "stream_text out = os_content out @ os_buffer out"

definition takes_all :: "device \<Rightarrow> bool" where
  "takes_all dev \<longleftrightarrow> (\<forall>content s. length s \<le> dev_take dev content s)"

text \<open>A closed stream has nothing in its buffer.\<close>

definition stream_ok :: "ofstream \<Rightarrow> bool" where
  "stream_ok out \<longleftrightarrow> (os_open out \<or> os_buffer out = [])"

lemma ofstream_pass_result:
  assumes "ofstream_pass dev n out = (ok, out')"
  shows "stream_text out' = stream_text out" "os_open out' = os_open out" "os_good out' = os_good out"
    "\<exists>t. os_content out' = os_content out @ t" "ok \<Longrightarrow> os_buffer out' = drop n (os_buffer out)"
    "takes_all dev \<Longrightarrow> ok"
proof -
  define chunk where "chunk = take n (os_buffer out)"
  define k where "k = min (dev_take dev (os_content out) chunk) (length chunk)"
  have taken: "take (dev_take dev (os_content out) chunk) chunk = take k chunk" "length (take k chunk) = k"
    by (simp_all add: k_def min_def)
  have k: "take k chunk = take k (os_buffer out)" by (simp add: k_def chunk_def min_def)
  have out': "ok \<longleftrightarrow> k = length chunk"
    "out' = out\<lparr>os_content := os_content out @ take k (os_buffer out), os_buffer := drop k (os_buffer out)\<rparr>"
    using assms unfolding ofstream_pass_def Let_def chunk_def [symmetric] taken by (auto simp: k)
  show "stream_text out' = stream_text out" by (simp add: stream_text_def out'(2))
  show "os_open out' = os_open out" "os_good out' = os_good out" "\<exists>t. os_content out' = os_content out @ t"
    by (simp_all add: out'(2))
  show "ok \<Longrightarrow> os_buffer out' = drop n (os_buffer out)"
    by (simp add: out' chunk_def min_def)
  show "takes_all dev \<Longrightarrow> ok" by (auto simp: out'(1) takes_all_def k_def min_def intro: le_antisym)
qed

text \<open>A stream that is good after writing has accepted every byte.\<close>

lemma ofstream_write_result:
  "os_good (ofstream_write dev s out) \<Longrightarrow>
     os_good out \<and> os_open out \<and> stream_text (ofstream_write dev s out) = stream_text out @ s"
  "os_open (ofstream_write dev s out) = os_open out"
  "\<exists>t. os_content (ofstream_write dev s out) = os_content out @ t"
  "os_good out \<Longrightarrow> os_open out \<Longrightarrow> takes_all dev \<Longrightarrow> os_good (ofstream_write dev s out)"
  "stream_ok out \<Longrightarrow> stream_ok (ofstream_write dev s out)"
proof -
  let ?out = "out\<lparr>os_buffer := os_buffer out @ s\<rparr>"
  obtain ok out' where p: "ofstream_pass dev (dev_spill dev (os_content ?out) (os_buffer ?out)) ?out = (ok, out')"
    by fastforce
  have w: "ofstream_write dev s out =
      (if \<not> os_good out then out else if \<not> os_open out then out\<lparr>os_good := False\<rparr> else out'\<lparr>os_good := ok\<rparr>)"
    using p by (simp add: ofstream_write_def Let_def)
  note pass = ofstream_pass_result [OF p]
  show "os_good (ofstream_write dev s out) \<Longrightarrow>
     os_good out \<and> os_open out \<and> stream_text (ofstream_write dev s out) = stream_text out @ s"
    using pass(1) by (auto simp: w stream_text_def split: if_splits)
  show "os_open (ofstream_write dev s out) = os_open out" using pass(2) by (simp add: w)
  show "\<exists>t. os_content (ofstream_write dev s out) = os_content out @ t" using pass(4) by (auto simp: w)
  show "os_good out \<Longrightarrow> os_open out \<Longrightarrow> takes_all dev \<Longrightarrow> os_good (ofstream_write dev s out)"
    using pass(6) by (simp add: w)
  show "stream_ok out \<Longrightarrow> stream_ok (ofstream_write dev s out)"
    using pass(2) by (auto simp: w stream_ok_def)
qed

lemma ofstream_flush_result:
  "os_good (ofstream_flush dev out) \<Longrightarrow> os_good out"
  "stream_text (ofstream_flush dev out) = stream_text out"
  "\<exists>t. os_content (ofstream_flush dev out) = os_content out @ t"
  "stream_ok out \<Longrightarrow> stream_ok (ofstream_flush dev out)"
  "stream_ok out \<Longrightarrow> os_good (ofstream_flush dev out) \<Longrightarrow> os_buffer (ofstream_flush dev out) = []"
proof -
  obtain ok out' where p: "ofstream_pass dev (length (os_buffer out)) out = (ok, out')" by fastforce
  have w: "ofstream_flush dev out = (if os_good out \<and> os_open out then out'\<lparr>os_good := ok\<rparr> else out)"
    using p by (simp add: ofstream_flush_def)
  note pass = ofstream_pass_result [OF p]
  show "os_good (ofstream_flush dev out) \<Longrightarrow> os_good out" by (simp add: w split: if_splits)
  show "stream_text (ofstream_flush dev out) = stream_text out" using pass(1) by (simp add: w stream_text_def)
  show "\<exists>t. os_content (ofstream_flush dev out) = os_content out @ t" using pass(4) by (simp add: w)
  show "stream_ok out \<Longrightarrow> stream_ok (ofstream_flush dev out)" using pass(2) by (auto simp: w stream_ok_def)
  show "stream_ok out \<Longrightarrow> os_good (ofstream_flush dev out) \<Longrightarrow> os_buffer (ofstream_flush dev out) = []"
    using pass(5) by (auto simp: w stream_ok_def split: if_splits)
qed

lemma ofstream_close_result:
  "os_good (ofstream_close dev out) \<Longrightarrow> os_good out \<and> stream_text (ofstream_close dev out) = stream_text out"
  "\<exists>t. os_content (ofstream_close dev out) = os_content out @ t"
  "stream_ok out \<Longrightarrow> stream_ok (ofstream_close dev out)"
proof -
  obtain ok out' where p: "ofstream_pass dev (length (os_buffer out)) out = (ok, out')" by fastforce
  have w: "ofstream_close dev out =
      (if os_open out then out'\<lparr>os_open := False, os_buffer := [], os_good := os_good out' \<and> ok\<rparr>
       else out\<lparr>os_good := False\<rparr>)"
    using p by (simp add: ofstream_close_def)
  note pass = ofstream_pass_result [OF p]
  show "os_good (ofstream_close dev out) \<Longrightarrow> os_good out \<and> stream_text (ofstream_close dev out) = stream_text out"
    using pass(1,3,5) by (auto simp: w stream_text_def split: if_splits)
  show "\<exists>t. os_content (ofstream_close dev out) = os_content out @ t" using pass(4) by (auto simp: w)
  show "stream_ok out \<Longrightarrow> stream_ok (ofstream_close dev out)" by (auto simp: w stream_ok_def)
qed

definition file_line :: "Span \<Rightarrow> string" where
  "file_line s = renderSpanJson s @ [CHR 0x0A]"

abbreviation write_span :: "device \<Rightarrow> Span \<Rightarrow> ofstream \<Rightarrow> ofstream" where
  "write_span dev s out \<equiv> ofstream_write dev [CHR 0x0A] (ofstream_write dev (renderSpanJson s) out)"

lemma write_span_good:
  "os_good (write_span dev s out) \<Longrightarrow>
     os_good out \<and> os_open out \<and> stream_text (write_span dev s out) = stream_text out @ file_line s"
  using ofstream_write_result(1) [of dev "[CHR 0x0A]" "ofstream_write dev (renderSpanJson s) out"]
    ofstream_write_result(1) [of dev "renderSpanJson s" out]
  by (simp add: file_line_def)

lemma write_spans_good:
  "os_good (fold (write_span dev) spans out) \<Longrightarrow>
     os_good out \<and> stream_text (fold (write_span dev) spans out) = stream_text out @ concat (map file_line spans) \<and>
     (spans \<noteq> [] \<longrightarrow> os_open out)"
proof (induction spans arbitrary: out)
  case (Cons s spans)
  from Cons.IH [of "write_span dev s out"] Cons.prems write_span_good [of dev s out] show ?case by simp
qed simp

lemma write_spans_open: "os_open (fold (write_span dev) spans out) = os_open out"
  by (induction spans arbitrary: out) (simp_all add: ofstream_write_result(2))

lemma write_spans_prefix: "\<exists>t. os_content (fold (write_span dev) spans out) = os_content out @ t"
proof (induction spans arbitrary: out)
  case (Cons s spans)
  obtain t1 where t1: "os_content (ofstream_write dev (renderSpanJson s) out) = os_content out @ t1"
    using ofstream_write_result(3) by blast
  obtain t2 where t2: "os_content (write_span dev s out) = os_content (ofstream_write dev (renderSpanJson s) out) @ t2"
    using ofstream_write_result(3) by blast
  obtain t3 where "os_content (fold (write_span dev) spans (write_span dev s out)) =
      os_content (write_span dev s out) @ t3"
    using Cons by blast
  then show ?case using t1 t2 by simp
qed simp

lemma write_spans_room:
  "os_good out \<Longrightarrow> os_open out \<Longrightarrow> takes_all dev \<Longrightarrow> os_good (fold (write_span dev) spans out)"
  by (induction spans arbitrary: out) (simp_all add: ofstream_write_result(2,4))

lemma write_spans_ok: "stream_ok out \<Longrightarrow> stream_ok (fold (write_span dev) spans out)"
  by (induction spans arbitrary: out) (simp_all add: ofstream_write_result(5))

lemmas write_spans_frame = write_spans_open write_spans_prefix write_spans_room write_spans_ok

section \<open>Properties\<close>

text \<open>The file exporter reports success exactly when every span of the batch was accepted by the stream
  as one line, in order; whatever happens, what the file held before is kept, and a batch on a
  stream that is already in the error state or closed is a failure.\<close>

theorem file_export_appends_lines:
  assumes "FileSpanExporter_exportSpans dev spans e = (result, e')"
  shows "(result = Export_kSuccess \<longrightarrow>
            stream_text (m_out e') = stream_text (m_out e) @ concat (map file_line spans)) \<and>
         (\<exists>t. os_content (m_out e') = os_content (m_out e) @ t) \<and>
         (\<not> os_good (m_out e) \<longrightarrow> result = Export_kFailure \<and> e' = e) \<and>
         (os_good (m_out e) \<and> os_open (m_out e) \<and> takes_all dev \<longrightarrow> result = Export_kSuccess) \<and>
         (\<not> os_open (m_out e) \<and> spans \<noteq> [] \<longrightarrow> result = Export_kFailure)"
  using assms write_spans_good [of dev spans "m_out e"] write_spans_prefix [of dev spans "m_out e"]
    write_spans_room [of "m_out e" dev spans]
  by (auto simp: FileSpanExporter_exportSpans_def Let_def split: if_splits)

text \<open>A flush that returns true has written out every line the stream accepted.\<close>

theorem file_flush_writes_out:
  assumes "FileSpanExporter_forceFlush dev timeout e = (True, e')" and "stream_ok (m_out e)"
  shows "os_content (m_out e') = stream_text (m_out e)"
  using assms ofstream_flush_result(2) [of dev "m_out e"] ofstream_flush_result(5) [of "m_out e" dev]
  by (auto simp: FileSpanExporter_forceFlush_def Let_def stream_text_def)

text \<open>C37: a line of the file is a JSON text that a JSON parser reads back as the name, the two ids and
  the sampling decision of the span, and it has no line break inside, provided the name has no
  control characters.\<close>

theorem file_line_json_roundtrip:
  assumes "SpanContext_wf (sp_context s)" and "list_all not_control (sp_name s)"
  shows "json_parse (renderSpanJson s) = Some (span_line_json s)"
  using json_parse_print [of "span_line_json s"] assms by (simp add: renderSpanJson_print) (simp add: span_line_json_def)

text \<open>A span whose name has a control character, for instance a line break, gives a line that is
  not a JSON text: the file exporter escapes quotes and backslashes only.\<close>

theorem file_line_control_not_json:
  assumes "\<not> list_all not_control (sp_name s)"
  shows "json_parse (renderSpanJson s) = None"
  by (rule renderSpanJson_control [OF assms])

definition sample_device :: device where
  "sample_device = \<lparr>dev_spill = (\<lambda>content buffer. length buffer - 512), dev_take = (\<lambda>content s. length s)\<rparr>"

theorem file_export_appends_lines_witness:
  "stream_text (m_out (snd (FileSpanExporter_exportSpans sample_device [Span_default]
     (FileSpanExporter_new (Some ''old''))))) = ''old'' @ file_line Span_default"
  using file_export_appends_lines [OF prod.collapse [symmetric],
      of sample_device "[Span_default]" "FileSpanExporter_new (Some ''old'')"]
  by (simp add: FileSpanExporter_new_def stream_text_def sample_device_def takes_all_def)

theorem file_flush_writes_out_witness:
  "os_content (m_out (snd (FileSpanExporter_forceFlush sample_device 0
     (FileSpanExporter_new (Some ''old''))))) = ''old''"
proof -
  have "fst (FileSpanExporter_forceFlush sample_device 0 (FileSpanExporter_new (Some ''old'')))"
    by (simp add: FileSpanExporter_forceFlush_def FileSpanExporter_new_def ofstream_flush_def ofstream_pass_def
        sample_device_def Let_def)
  then obtain e' where "FileSpanExporter_forceFlush sample_device 0 (FileSpanExporter_new (Some ''old'')) = (True, e')"
    by (metis prod.collapse)
  from file_flush_writes_out [OF this] show ?thesis
    using \<open>_ = (True, e')\<close> by (simp add: FileSpanExporter_new_def stream_ok_def stream_text_def)
qed

theorem file_line_json_roundtrip_witness:
  "json_parse (renderSpanJson (Span_default\<lparr>sp_name := ''say \"hi\"''\<rparr>)) =
     Some (span_line_json (Span_default\<lparr>sp_name := ''say \"hi\"''\<rparr>))"
  by (rule file_line_json_roundtrip)
    (simp_all add: Span_default_def SpanContext_default_def SpanContext_wf_def not_control_def char_code_def)

theorem file_line_control_not_json_witness:
  "json_parse (renderSpanJson (Span_default\<lparr>sp_name := [CHR ''a'', CHR 0x0A, CHR ''b'']\<rparr>)) = None"
  by (rule file_line_control_not_json) (simp add: Span_default_def not_control_def char_code_def)

end
