(* ===== verification/Otlp_Exporter.thy ===== *)
theory Otlp_Exporter
  imports Span_Exporter
begin

text \<open>
  Model of \<^verbatim>\<open>galay-tracing/kernel/otlp_http_exporter.h\<close> and \<^verbatim>\<open>otlp_http_exporter.cc\<close>: the OTLP/JSON
  request body, the request headers, the exporter and the galay-http transport. A routine that
  appends to a string takes the string and returns the longer one.

  Parameters: \<open>fmt\<close> is \<^verbatim>\<open>std::to_chars\<close> on \<^verbatim>\<open>double\<close> (the digits of the shortest decimal are not
  modelled); a transport is a function of the request and of the world it acts on, which throws
  (left) or returns a response; the galay-http and galay-kernel operations that the built-in
  transport uses are the fields of the record \<open>galay_http\<close>: those of the runtime return or throw, those of
  the client also fail. The mutex of the transport makes its calls exclusive. Log output is not modelled.
\<close>

section \<open>Requests and configuration\<close>

record OtlpHttpHeader =
  hd_name :: string
  hd_value :: string

record InstrumentationScopeConfig =
  is_name :: string
  is_version :: string

definition InstrumentationScopeConfig_default :: InstrumentationScopeConfig where
  "InstrumentationScopeConfig_default = \<lparr>is_name = ''galay-tracing'', is_version = []\<rparr>"

record OtlpHttpExporterConfig =
  oc_endpoint :: string
  oc_timeout :: milliseconds
  oc_headers :: "OtlpHttpHeader list"
  oc_resource_attributes :: "SpanAttribute list"
  oc_scope :: InstrumentationScopeConfig

definition OtlpHttpExporterConfig_default :: OtlpHttpExporterConfig where
  "OtlpHttpExporterConfig_default =
     \<lparr>oc_endpoint = ''http://127.0.0.1:4318/v1/traces'', oc_timeout = 500, oc_headers = [],
      oc_resource_attributes = [], oc_scope = InstrumentationScopeConfig_default\<rparr>"

record OtlpHttpRequest =
  rq_method :: string
  rq_endpoint :: string
  rq_timeout :: milliseconds
  rq_headers :: "OtlpHttpHeader list"
  rq_body :: string

record OtlpHttpResponse =
  rs_status_code :: int
  rs_body :: string
  rs_error :: string

type_synonym 'w OtlpHttpTransport = "OtlpHttpRequest \<Rightarrow> 'w \<Rightarrow> (unit + OtlpHttpResponse) \<times> 'w"

section \<open>The request body\<close>

fun asciiEqualsIgnoreCase_loop :: "string \<Rightarrow> string \<Rightarrow> bool" where
  "asciiEqualsIgnoreCase_loop (l # lhs) (r # rhs) =
     (if ascii_lower l \<noteq> ascii_lower r then False else asciiEqualsIgnoreCase_loop lhs rhs)"
| "asciiEqualsIgnoreCase_loop _ _ = True"

definition asciiEqualsIgnoreCase :: "string \<Rightarrow> string \<Rightarrow> bool" where
  "asciiEqualsIgnoreCase lhs rhs =
     (if length lhs \<noteq> length rhs then False else asciiEqualsIgnoreCase_loop lhs rhs)"

definition otlp_escape :: "char \<Rightarrow> string" where
  "otlp_escape ch =
     (if ch = CHR 0x22 \<or> ch = CHR 0x5C then [CHR 0x5C, ch]
      else if ch = CHR 0x0A then [CHR 0x5C, CHR ''n'']
      else if ch = CHR 0x0D then [CHR 0x5C, CHR ''r'']
      else if ch = CHR 0x09 then [CHR 0x5C, CHR ''t'']
      else if char_code ch < 0x20 then
        [CHR 0x5C, CHR ''u'', CHR ''0'', CHR ''0''] @
        [kHexDigits ! nat (drop_bit 4 (char_code ch))] @
        [kHexDigits ! nat (char_code ch AND 0x0f)]
      else [ch])"

definition appendJsonString :: "string \<Rightarrow> string \<Rightarrow> string" where
  "appendJsonString out value =
     fold (\<lambda>ch out. out @ otlp_escape ch) value (out @ [CHR 0x22]) @ [CHR 0x22]"

definition hasHeader :: "OtlpHttpHeader list \<Rightarrow> string \<Rightarrow> bool" where
  "hasHeader headers name = list_ex (\<lambda>header. asciiEqualsIgnoreCase (hd_name header) name) headers"

definition appendHexId_trace :: "string \<Rightarrow> TraceId \<Rightarrow> string" where
  "appendHexId_trace out traceId = out @ TraceId_toHexArray traceId"

definition appendHexId_span :: "string \<Rightarrow> SpanId \<Rightarrow> string" where
  "appendHexId_span out spanId = out @ SpanId_toHexArray spanId"

fun otlpSpanKindName :: "SpanKind \<Rightarrow> string" where
  "otlpSpanKindName Kind_kServer = ''SPAN_KIND_SERVER''"
| "otlpSpanKindName Kind_kClient = ''SPAN_KIND_CLIENT''"
| "otlpSpanKindName Kind_kProducer = ''SPAN_KIND_PRODUCER''"
| "otlpSpanKindName Kind_kConsumer = ''SPAN_KIND_CONSUMER''"
| "otlpSpanKindName Kind_kInternal = ''SPAN_KIND_INTERNAL''"

fun otlpStatusCodeName :: "SpanStatusCode \<Rightarrow> string" where
  "otlpStatusCodeName Status_kOk = ''STATUS_CODE_OK''"
| "otlpStatusCodeName Status_kError = ''STATUS_CODE_ERROR''"
| "otlpStatusCodeName Status_kUnset = ''STATUS_CODE_UNSET''"

text \<open>\<^verbatim>\<open>appendNumber\<close> into a buffer of 32 characters; \<open>text\<close> is what \<^verbatim>\<open>std::to_chars\<close> has to
  write, and a text that does not fit is an error.\<close>

definition appendNumber :: "string \<Rightarrow> string \<Rightarrow> string" where
  "appendNumber out text = (if length text \<le> 32 then out @ text else out)"

definition appendAttributeValue :: "(double \<Rightarrow> string) \<Rightarrow> string \<Rightarrow> SpanAttributeValue \<Rightarrow> string" where
  "appendAttributeValue fmt out value =
     (case value of
        SA_int64 i \<Rightarrow> appendNumber (out @ ''{\"intValue\":\"'') (dec_of_int (sint i)) @ ''\"}''
      | SA_uint64 u \<Rightarrow> appendNumber (out @ ''{\"intValue\":\"'') (dec_of_nat (unat u)) @ ''\"}''
      | SA_double d \<Rightarrow> appendNumber (out @ ''{\"doubleValue\":'') (fmt d) @ ''}''
      | SA_bool b \<Rightarrow> out @ (if b then ''{\"boolValue\":true}'' else ''{\"boolValue\":false}'')
      | SA_string s \<Rightarrow> appendJsonString (out @ ''{\"stringValue\":'') s @ ''}'')"

text \<open>The loop of \<^verbatim>\<open>appendAttributeArray\<close> over the indexed attributes.\<close>

definition appendAttributeArray :: "(double \<Rightarrow> string) \<Rightarrow> string \<Rightarrow> SpanAttribute list \<Rightarrow> string" where
  "appendAttributeArray fmt out attributes =
     fold (\<lambda>(i, attribute) out.
         let out = (if i \<noteq> 0 then out @ '','' else out);
             out = appendJsonString (out @ ''{\"key\":'') (sa_name attribute);
             out = appendAttributeValue fmt (out @ '',\"value\":'') (sa_value attribute)
         in out @ ''}'')
       (enumerate 0 attributes) (out @ ''['') @ '']''"

definition appendAttributes :: "(double \<Rightarrow> string) \<Rightarrow> string \<Rightarrow> SpanAttribute list \<Rightarrow> string" where
  "appendAttributes fmt out attributes =
     appendAttributeArray fmt (out @ '',\"attributes\":'') attributes"

definition appendResource :: "(double \<Rightarrow> string) \<Rightarrow> string \<Rightarrow> SpanAttribute list \<Rightarrow> string" where
  "appendResource fmt out attributes =
     (if attributes = [] then out
      else appendAttributeArray fmt (out @ ''\"resource\":{\"attributes\":'') attributes @ ''},'')"

definition appendScope :: "string \<Rightarrow> InstrumentationScopeConfig \<Rightarrow> string" where
  "appendScope out scope =
     (let out = appendJsonString (out @ ''\"scope\":{\"name\":'') (is_name scope);
          out = (if is_version scope \<noteq> []
                 then appendJsonString (out @ '',\"version\":'') (is_version scope) else out)
      in out @ ''}'')"

definition appendStatus :: "string \<Rightarrow> SpanStatus \<Rightarrow> string" where
  "appendStatus out status =
     (if st_code status = Status_kUnset \<and> st_message status = [] then out
      else
        let out = out @ '',\"status\":{\"code\":\"'' @ otlpStatusCodeName (st_code status) @ ''\"'';
            out = (if st_message status \<noteq> []
                   then appendJsonString (out @ '',\"message\":'') (st_message status) else out)
        in out @ ''}'')"

definition addAttributeEstimate :: "nat \<Rightarrow> SpanAttribute list \<Rightarrow> nat" where
  "addAttributeEstimate sz attributes =
     fold (\<lambda>attribute sz.
         sz + (length (sa_name attribute) + 48) +
         (case sa_value attribute of SA_string s \<Rightarrow> length s | _ \<Rightarrow> 0)) attributes sz"

definition estimateOtlpJsonBodySize :: "Span list \<Rightarrow> OtlpHttpExporterConfig \<Rightarrow> nat" where
  "estimateOtlpJsonBodySize spans config =
     (let sz = 128 + length (is_name (oc_scope config)) + length (is_version (oc_scope config));
          sz = addAttributeEstimate sz (oc_resource_attributes config)
      in fold (\<lambda>s sz.
             let sz = sz + (160 + length (sp_name s));
                 sz = (if sc_parentSpanId (sp_context s) \<noteq> None then sz + (SpanId_kHexLength + 18) else sz);
                 sz = (if sp_tracestate s \<noteq> [] then sz + (length (sp_tracestate s) + 16) else sz);
                 sz = (if st_code (sp_status s) \<noteq> Status_kUnset \<or> st_message (sp_status s) \<noteq> []
                       then sz + (length (st_message (sp_status s)) + 64) else sz)
             in addAttributeEstimate sz (sp_attributes s)) spans sz)"

text \<open>One turn of the loop over the spans in \<^verbatim>\<open>buildOtlpJsonBody\<close>.\<close>

definition appendSpan :: "(double \<Rightarrow> string) \<Rightarrow> nat \<times> Span \<Rightarrow> string \<Rightarrow> string" where
  "appendSpan fmt = (\<lambda>(i, s) body.
     let ctx = sp_context s;
         body = (if i \<noteq> 0 then body @ '','' else body);
         body = appendHexId_trace (body @ ''{\"traceId\":\"'') (sc_traceId ctx);
         body = appendHexId_span (body @ ''\",\"spanId\":\"'') (sc_spanId ctx);
         body = appendJsonString (body @ ''\",\"name\":'') (sp_name s);
         body = body @ '',\"kind\":\"'' @ otlpSpanKindName (sp_kind s) @ ''\"'';
         body = (case sc_parentSpanId ctx of
                   Some p \<Rightarrow> appendHexId_span (body @ '',\"parentSpanId\":\"'') p @ ''\"''
                 | None \<Rightarrow> body);
         body = (if sp_tracestate s \<noteq> [] then appendJsonString (body @ '',\"traceState\":'') (sp_tracestate s)
                 else body);
         body = (if sp_attributes s \<noteq> [] then appendAttributes fmt body (sp_attributes s) else body);
         body = appendStatus body (sp_status s)
     in body @ ''}'')"

definition buildOtlpJsonBody ::
  "(double \<Rightarrow> string) \<Rightarrow> Span list \<Rightarrow> OtlpHttpExporterConfig \<Rightarrow> string" where
  "buildOtlpJsonBody fmt spans config =
     (let body = ''{\"resourceSpans\":[{'';
          body = appendResource fmt body (oc_resource_attributes config);
          body = appendScope (body @ ''\"scopeSpans\":[{'') (oc_scope config);
          body = fold (appendSpan fmt) (enumerate 0 spans) (body @ '',\"spans\":['')
      in body @ '']}]}]}'')"

section \<open>The exporter\<close>

definition makeHeaders :: "OtlpHttpExporterConfig \<Rightarrow> OtlpHttpHeader list" where
  "makeHeaders config =
     (if \<not> hasHeader (oc_headers config) ''content-type''
      then [\<lparr>hd_name = ''content-type'', hd_value = ''application/json''\<rparr>] else []) @ oc_headers config"

definition makeUnavailableTransport :: "'w OtlpHttpTransport" where
  "makeUnavailableTransport request w =
     (Inr \<lparr>rs_status_code = 0, rs_body = [],
           rs_error = ''GALAY_TRACING_ENABLE_OTLP_HTTP is disabled and no custom OTLP transport was supplied''\<rparr>, w)"

text \<open>\<open>enabled\<close> is the build option, with the transport it selects.\<close>

definition makeDefaultTransport :: "'w OtlpHttpTransport option \<Rightarrow> 'w OtlpHttpTransport" where
  "makeDefaultTransport enabled = (case enabled of Some t \<Rightarrow> t | None \<Rightarrow> makeUnavailableTransport)"

record 'w OtlpHttpExporter =
  oe_config :: OtlpHttpExporterConfig
  oe_headers :: "OtlpHttpHeader list"
  oe_transport :: "'w OtlpHttpTransport"

definition OtlpHttpExporter_new ::
  "OtlpHttpExporterConfig \<Rightarrow> 'w OtlpHttpTransport option \<Rightarrow> 'w OtlpHttpExporter" where
  "OtlpHttpExporter_new config transport =
     \<lparr>oe_config = config, oe_headers = makeHeaders config,
      oe_transport = (case transport of None \<Rightarrow> makeUnavailableTransport | Some t \<Rightarrow> t)\<rparr>"

definition OtlpHttpExporter_default ::
  "OtlpHttpExporterConfig \<Rightarrow> 'w OtlpHttpTransport option \<Rightarrow> 'w OtlpHttpExporter" where
  "OtlpHttpExporter_default config enabled =
     OtlpHttpExporter_new config (Some (makeDefaultTransport enabled))"

definition OtlpHttpExporter_exportSpans ::
  "(double \<Rightarrow> string) \<Rightarrow> 'w OtlpHttpExporter \<Rightarrow> Span list \<Rightarrow> 'w \<Rightarrow> ExportResult \<times> 'w" where
  "OtlpHttpExporter_exportSpans fmt e spans w =
     (if spans = [] then (Export_kSuccess, w)
      else
        case oe_transport e
               \<lparr>rq_method = ''POST'', rq_endpoint = oc_endpoint (oe_config e),
                rq_timeout = oc_timeout (oe_config e), rq_headers = oe_headers e,
                rq_body = buildOtlpJsonBody fmt spans (oe_config e)\<rparr> w of
          (Inl _, w') \<Rightarrow> (Export_kFailure, w')
        | (Inr response, w') \<Rightarrow>
            if rs_status_code response \<ge> 200 \<and> rs_status_code response < 300
            then (Export_kSuccess, w') else (Export_kFailure, w'))"

definition OtlpHttpExporter_forceFlush :: "milliseconds \<Rightarrow> 'w \<Rightarrow> bool \<times> 'w" where
  "OtlpHttpExporter_forceFlush timeout w = (True, w)"

definition OtlpHttpExporter_shutdown :: "milliseconds \<Rightarrow> 'w \<Rightarrow> bool \<times> 'w" where
  "OtlpHttpExporter_shutdown timeout w = (True, w)"

definition otlp_exporter :: "(double \<Rightarrow> string) \<Rightarrow> 'w OtlpHttpExporter \<Rightarrow> 'w SpanExporter" where
  "otlp_exporter fmt e =
     \<lparr>exportSpans = OtlpHttpExporter_exportSpans fmt e,
      forceFlush = OtlpHttpExporter_forceFlush, shutdown = OtlpHttpExporter_shutdown\<rparr>"

section \<open>The galay-http transport\<close>

text \<open>A \<^verbatim>\<open>std::map<std::string, std::string>\<close> is the list of its entries in ascending order of the
  keys.\<close>

fun str_less :: "string \<Rightarrow> string \<Rightarrow> bool" where
  "str_less [] [] = False"
| "str_less [] (_ # _) = True"
| "str_less (_ # _) [] = False"
| "str_less (a # as) (b # bs) =
     (if char_code a < char_code b then True else if char_code b < char_code a then False
      else str_less as bs)"

fun map_assign :: "string \<Rightarrow> string \<Rightarrow> (string \<times> string) list \<Rightarrow> (string \<times> string) list" where
  "map_assign k v [] = [(k, v)]"
| "map_assign k v (e # es) =
     (if fst e = k then (k, v) # es
      else if str_less k (fst e) then (k, v) # e # es
      else e # map_assign k v es)"

definition hasMappedHeader :: "(string \<times> string) list \<Rightarrow> string \<Rightarrow> bool" where
  "hasMappedHeader headers name = list_ex (\<lambda>entry. asciiEqualsIgnoreCase (fst entry) name) headers"

text \<open>What galay-http offers: an awaited operation returns a value, reports an error message or
  throws, with a message when the exception is a \<^verbatim>\<open>std::exception\<close>.\<close>

record HttpUrl =
  hu_host :: string
  hu_port :: int
  hu_is_secure :: bool
  hu_path :: string

datatype 'a outcome = Returns 'a | Fails string | Throws "string option"

text \<open>The first four are the runtime: constructing it, starting it, spawning a task and joining it. They
  return or throw, and nothing catches what they throw before the exporter does.\<close>

record 'w galay_http =
  gh_build :: "nat \<Rightarrow> 'w \<Rightarrow> bool \<times> 'w"
  gh_start :: "'w \<Rightarrow> bool \<times> 'w"
  gh_spawn :: "'w \<Rightarrow> bool \<times> 'w"
  gh_join :: "'w \<Rightarrow> bool \<times> 'w"
  gh_parse :: "string \<Rightarrow> HttpUrl option"
  gh_connect :: "string \<Rightarrow> milliseconds \<Rightarrow> 'w \<Rightarrow> unit outcome \<times> 'w"
  gh_post :: "string \<Rightarrow> string \<Rightarrow> string \<Rightarrow> (string \<times> string) list \<Rightarrow> milliseconds \<Rightarrow> 'w \<Rightarrow>
              (int \<times> string) option outcome \<times> 'w"
  gh_close :: "'w \<Rightarrow> unit outcome \<times> 'w"

definition endpointHostHeader :: "HttpUrl \<Rightarrow> string" where
  "endpointHostHeader url =
     (let default_port = (\<not> hu_is_secure url \<and> hu_port url = 80) \<or> (hu_is_secure url \<and> hu_port url = 443)
      in if default_port then hu_host url else hu_host url @ '':'' @ dec_of_int (hu_port url))"

text \<open>The header loop and the defaults of \<^verbatim>\<open>sendWithGalayHttp\<close>.\<close>

definition collectHeaders :: "OtlpHttpHeader list \<Rightarrow> string \<times> (string \<times> string) list" where
  "collectHeaders hs =
     fold (\<lambda>header (content_type, headers).
         if asciiEqualsIgnoreCase (hd_name header) ''content-type''
         then (hd_value header, headers)
         else (content_type, map_assign (hd_name header) (hd_value header) headers))
       hs (''application/json'', [])"

definition defaultHeader ::
  "string \<Rightarrow> string \<Rightarrow> string \<Rightarrow> (string \<times> string) list \<Rightarrow> (string \<times> string) list" where
  "defaultHeader lookup name value headers =
     (if \<not> hasMappedHeader headers lookup then map_assign name value headers else headers)"

definition requestHeaders :: "OtlpHttpHeader list \<Rightarrow> HttpUrl \<Rightarrow> string \<times> (string \<times> string) list" where
  "requestHeaders hs url =
     (let (content_type, headers) = collectHeaders hs;
          headers = defaultHeader ''host'' ''Host'' (endpointHostHeader url) headers;
          headers = defaultHeader ''accept'' ''Accept'' ''application/json'' headers;
          headers = defaultHeader ''user-agent'' ''User-Agent'' ''galay-tracing'' headers;
          headers = defaultHeader ''connection'' ''Connection'' ''close'' headers
      in (content_type, headers))"

definition transport_error :: "string \<Rightarrow> OtlpHttpResponse" where
  "transport_error msg = \<lparr>rs_status_code = 0, rs_body = [], rs_error = msg\<rparr>"

definition thrown :: "string option \<Rightarrow> OtlpHttpResponse" where
  "thrown exn = transport_error (case exn of Some what \<Rightarrow> what | None \<Rightarrow> ''unknown OTLP HTTP transport error'')"

text \<open>Closing the client and returning the response, unless closing throws.\<close>

definition close_and_return ::
  "'w galay_http \<Rightarrow> OtlpHttpResponse \<Rightarrow> 'w \<Rightarrow> OtlpHttpResponse \<times> 'w" where
  "close_and_return http response w =
     (case gh_close http w of
        (Throws exn, w') \<Rightarrow> (thrown exn, w')
      | (_, w') \<Rightarrow> (response, w'))"

definition sendWithGalayHttp :: "'w galay_http \<Rightarrow> OtlpHttpRequest \<Rightarrow> 'w \<Rightarrow> OtlpHttpResponse \<times> 'w" where
  "sendWithGalayHttp http request w =
     (case gh_parse http (rq_endpoint request) of
        None \<Rightarrow> (transport_error ''invalid OTLP HTTP endpoint'', w)
      | Some url \<Rightarrow>
          if hu_is_secure url then (transport_error ''https OTLP endpoints require a TLS transport'', w)
          else
            let (content_type, headers) = requestHeaders (rq_headers request) url
            in case gh_connect http (rq_endpoint request) (rq_timeout request) w of
                 (Throws exn, w1) \<Rightarrow> (thrown exn, w1)
               | (Fails msg, w1) \<Rightarrow> (transport_error msg, w1)
               | (Returns _, w1) \<Rightarrow>
                   (case gh_post http (hu_path url) (rq_body request) content_type headers (rq_timeout request) w1 of
                      (Throws exn, w2) \<Rightarrow> (thrown exn, w2)
                    | (Fails msg, w2) \<Rightarrow> close_and_return http (transport_error msg) w2
                    | (Returns None, w2) \<Rightarrow>
                        close_and_return http (transport_error ''incomplete OTLP HTTP response'') w2
                    | (Returns (Some (code, body)), w2) \<Rightarrow>
                        close_and_return http \<lparr>rs_status_code = code, rs_body = body, rs_error = []\<rparr> w2))"

record GalayHttpOtlpTransportConfig =
  gc_io_scheduler_count :: nat
  gc_reject_on_runtime_thread :: bool

record GalayHttpTransportState =
  gt_config :: GalayHttpOtlpTransportConfig
  gt_runtime :: bool

definition GalayHttpTransportState_new :: "GalayHttpOtlpTransportConfig \<Rightarrow> GalayHttpTransportState" where
  "GalayHttpTransportState_new config =
     \<lparr>gt_config = config\<lparr>gc_io_scheduler_count := max (gc_io_scheduler_count config) 1\<rparr>,
      gt_runtime = False\<rparr>"

text \<open>Whether it returned. \<open>gt_runtime\<close> says that \<^verbatim>\<open>m_runtime\<close> is not null: it is set before the runtime
  is started.\<close>

definition ensureRuntime ::
  "'w galay_http \<Rightarrow> GalayHttpTransportState \<times> 'w \<Rightarrow> bool \<times> GalayHttpTransportState \<times> 'w" where
  "ensureRuntime http = (\<lambda>(st, w).
     if gt_runtime st then (True, st, w)
     else
       case gh_build http (gc_io_scheduler_count (gt_config st)) w of
         (False, w1) \<Rightarrow> (False, st, w1)
       | (True, w1) \<Rightarrow>
           let st = st\<lparr>gt_runtime := True\<rparr>;
               (started, w2) = gh_start http w1
           in (started, st, w2))"

text \<open>\<open>on_runtime\<close> says whether the calling thread belongs to a galay-kernel runtime. The task runs between
  \<^verbatim>\<open>spawn\<close> and the end of \<^verbatim>\<open>join\<close>.\<close>

definition GalayHttpTransportState_send ::
  "'w galay_http \<Rightarrow> bool \<Rightarrow> OtlpHttpRequest \<Rightarrow> GalayHttpTransportState \<times> 'w \<Rightarrow>
   (unit + OtlpHttpResponse) \<times> GalayHttpTransportState \<times> 'w" where
  "GalayHttpTransportState_send http on_runtime request = (\<lambda>(st, w).
     if gc_reject_on_runtime_thread (gt_config st) \<and> on_runtime
     then (Inr (transport_error ''synchronous OTLP export is not allowed on a galay scheduler thread''), st, w)
     else
       case ensureRuntime http (st, w) of
         (False, st, w) \<Rightarrow> (Inl (), st, w)
       | (True, st, w) \<Rightarrow>
           (case gh_spawn http w of
              (False, w) \<Rightarrow> (Inl (), st, w)
            | (True, w) \<Rightarrow>
                let (response, w) = sendWithGalayHttp http request w;
                    (joined, w) = gh_join http w
                in (if joined then Inr response else Inl (), st, w)))"

definition makeGalayHttpOtlpTransport ::
  "'w galay_http \<Rightarrow> bool \<Rightarrow> (GalayHttpTransportState \<times> 'w) OtlpHttpTransport" where
  "makeGalayHttpOtlpTransport http on_runtime request stw = GalayHttpTransportState_send http on_runtime request stw"

section \<open>Headers\<close>

lemma asciiEqualsIgnoreCase_loop_eq:
  "length a = length b \<Longrightarrow> asciiEqualsIgnoreCase_loop a b \<longleftrightarrow> map ascii_lower a = map ascii_lower b"
  by (induction a b rule: list_induct2) auto

lemma asciiEqualsIgnoreCase_eq: "asciiEqualsIgnoreCase a b \<longleftrightarrow> map ascii_lower a = map ascii_lower b"
  using asciiEqualsIgnoreCase_loop_eq [of a b] map_eq_imp_length_eq [of ascii_lower a ascii_lower b]
  by (auto simp: asciiEqualsIgnoreCase_def)

lemma map_assign_keys: "fst ` set (map_assign k v es) = insert k (fst ` set es)"
  by (induction es) auto

lemma map_assign_of: "map_of (map_assign k v es) = (map_of es)(k \<mapsto> v)"
  by (induction es) (auto simp: fun_eq_iff)

abbreviation lower_case :: "string \<Rightarrow> string" where
  "lower_case \<equiv> map ascii_lower"

lemma hasMappedHeader_iff: "hasMappedHeader hs n \<longleftrightarrow> lower_case n \<in> lower_case ` fst ` set hs"
  unfolding hasMappedHeader_def list_ex_iff asciiEqualsIgnoreCase_eq image_iff Bex_def by metis

lemma map_of_keys: "k \<in> fst ` set hs \<longleftrightarrow> map_of hs k \<noteq> None"
  by (simp add: map_of_eq_None_iff)

lemma defaultHeader_keeps:
  assumes "lower_case lookup = lower_case name" and "map_of hs k = Some v'"
  shows "map_of (defaultHeader lookup name v hs) k = Some v'"
proof (cases "hasMappedHeader hs lookup")
  case False
  then have "k \<noteq> name"
    using assms map_of_keys [of k hs] by (auto simp: hasMappedHeader_iff)
  then show ?thesis using assms False by (simp add: defaultHeader_def map_assign_of)
qed (simp add: defaultHeader_def assms)

lemma defaultHeader_has:
  "lower_case lookup = lower_case name \<Longrightarrow> hasMappedHeader (defaultHeader lookup name v hs) lookup"
  by (simp add: defaultHeader_def) (simp add: hasMappedHeader_iff map_assign_keys)

lemma defaultHeader_other:
  "lower_case lookup = lower_case name \<Longrightarrow> lower_case n \<noteq> lower_case lookup \<Longrightarrow>
     hasMappedHeader (defaultHeader lookup name v hs) n = hasMappedHeader hs n"
  by (simp add: defaultHeader_def) (simp add: hasMappedHeader_iff map_assign_keys)

lemma defaultHeader_mono:
  "hasMappedHeader hs n \<Longrightarrow> hasMappedHeader (defaultHeader lookup name v hs) n"
  by (simp add: defaultHeader_def) (simp add: hasMappedHeader_iff map_assign_keys)

definition content_header :: "OtlpHttpHeader \<Rightarrow> bool" where
  "content_header h = asciiEqualsIgnoreCase (hd_name h) ''content-type''"

text \<open>What the header loop computes: the last content type, and for every other name the last value.\<close>

definition last_content_type :: "OtlpHttpHeader list \<Rightarrow> string" where
  "last_content_type hs = last (''application/json'' # map hd_value (filter content_header hs))"

definition custom_headers :: "OtlpHttpHeader list \<Rightarrow> string \<rightharpoonup> string" where
  "custom_headers hs = map_of (rev (map (\<lambda>h. (hd_name h, hd_value h)) (filter (\<lambda>h. \<not> content_header h) hs)))"

lemma collectHeaders_spec:
  "fst (collectHeaders hs) = last_content_type hs \<and> map_of (snd (collectHeaders hs)) = custom_headers hs"
proof (induction hs rule: rev_induct)
  case (snoc h hs)
  have "collectHeaders (hs @ [h]) =
      (if content_header h then (hd_value h, snd (collectHeaders hs))
       else (fst (collectHeaders hs), map_assign (hd_name h) (hd_value h) (snd (collectHeaders hs))))"
    by (simp add: collectHeaders_def content_header_def case_prod_beta)
  then show ?case using snoc by (simp add: last_content_type_def custom_headers_def map_assign_of)
qed (simp add: collectHeaders_def last_content_type_def custom_headers_def)

lemma custom_headers_no_content_type:
  "custom_headers hs k = Some v \<Longrightarrow> \<not> asciiEqualsIgnoreCase k ''content-type''"
  by (auto simp: custom_headers_def content_header_def dest!: map_of_SomeD)

lemma collectHeaders_no_content_type: "\<not> hasMappedHeader (snd (collectHeaders hs)) ''content-type''"
  using collectHeaders_spec [of hs] custom_headers_no_content_type [of hs]
    weak_map_of_SomeI [of _ _ "snd (collectHeaders hs)"]
  by (fastforce simp: hasMappedHeader_def list_ex_iff)

section \<open>Pieces of the body\<close>

lemma otlp_escape_standard: "otlp_escape c = json_escape c"
proof -
  have "char_code c AND 15 = char_code c mod 16"
    using take_bit_eq_mask [of 4 "char_code c"] by (simp add: take_bit_eq_mod mask_eq_exp_minus_1)
  moreover obtain n where "char_code c = int n" by (metis char_code_def of_nat_of_char)
  then have "nat (char_code c div 16) = nat (char_code c) div 16"
    and "nat (char_code c mod 16) = nat (char_code c) mod 16"
    by (simp_all add: nat_div_distrib nat_mod_distrib)
  ultimately show ?thesis
    by (simp add: otlp_escape_def json_escape_def quote_char_def backslash_def drop_bit_eq_div)
qed

interpretation otlp_writer: json_string_writer otlp_escape "\<lambda>_. True"
  by unfold_locales (simp add: otlp_escape_standard json_std.unescape_esc del: json_unescape.simps(2))

lemma appendJsonString_eq: "appendJsonString out s = out @ json_string s"
  by (simp add: appendJsonString_def fold_append json_string_def quote_char_def otlp_escape_standard)

lemma json_string_plain: "list_all (\<lambda>c. json_escape c = [c]) s \<Longrightarrow> json_string s = quote_char # s @ [quote_char]"
proof -
  assume "list_all (\<lambda>c. json_escape c = [c]) s"
  then have "concat (map json_escape s) = s" by (induction s) auto
  then show ?thesis by (simp add: json_string_def)
qed

lemma digit_plain_table: "list_all (\<lambda>c. json_escape c = [c]) ''-0123456789''"
  by code_simp

lemma digit_plain: "is_digit c \<Longrightarrow> json_escape c = [c]" "json_escape CHR ''-'' = [CHR ''-'']"
  using digit_plain_table unfolding is_digit_def by (auto simp: list_all_iff)

lemma json_string_dec:
  "json_string (dec_of_nat n) = CHR 0x22 # dec_of_nat n @ [CHR 0x22]"
  "json_string (dec_of_int i) = CHR 0x22 # dec_of_int i @ [CHR 0x22]"
proof -
  have plain: "list_all (\<lambda>c. json_escape c = [c]) (dec_of_nat n)" for n
    using dec_of_nat_digits [of n] by (auto simp: list_all_iff digit_plain(1))
  then show "json_string (dec_of_nat n) = CHR 0x22 # dec_of_nat n @ [CHR 0x22]"
    by (simp add: json_string_plain quote_char_def)
  have "list_all (\<lambda>c. json_escape c = [c]) (dec_of_int i)"
    using plain by (simp add: dec_of_int_def digit_plain(2))
  then show "json_string (dec_of_int i) = CHR 0x22 # dec_of_int i @ [CHR 0x22]"
    by (simp add: json_string_plain quote_char_def)
qed

lemma comma_sep_concat: "comma_sep (x # xs) = x @ concat (map ((#) CHR '','') xs)"
  by (induction xs arbitrary: x) simp_all

text \<open>A loop that writes a comma before every item but the first.\<close>

lemma fold_comma:
  assumes "\<And>i x out. f (i, x) out = (if i \<noteq> 0 then out @ '','' else out) @ g x"
  shows "fold f (enumerate 0 xs) out = out @ comma_sep (map g xs)"
proof -
  have "fold f (enumerate (Suc n) ys) out = out @ concat (map (\<lambda>y. CHR '','' # g y) ys)" for n ys out
    by (induction ys arbitrary: n out) (simp_all add: assms)
  then show ?thesis by (cases xs) (simp_all add: assms comma_sep_concat comp_def)
qed

section \<open>The document the body means\<close>

definition attribute_value_json :: "(double \<Rightarrow> string) \<Rightarrow> SpanAttributeValue \<Rightarrow> json" where
  "attribute_value_json fmt v =
     (case v of
        SA_int64 i \<Rightarrow> JObj [(''intValue'', JStr (dec_of_int (sint i)))]
      | SA_uint64 u \<Rightarrow> JObj [(''intValue'', JStr (dec_of_nat (unat u)))]
      | SA_double d \<Rightarrow> JObj [(''doubleValue'', JNum (fmt d))]
      | SA_bool b \<Rightarrow> JObj [(''boolValue'', JBool b)]
      | SA_string s \<Rightarrow> JObj [(''stringValue'', JStr s)])"

definition attribute_json :: "(double \<Rightarrow> string) \<Rightarrow> SpanAttribute \<Rightarrow> json" where
  "attribute_json fmt a = JObj [(''key'', JStr (sa_name a)), (''value'', attribute_value_json fmt (sa_value a))]"

definition attributes_json :: "(double \<Rightarrow> string) \<Rightarrow> SpanAttribute list \<Rightarrow> json" where
  "attributes_json fmt as = JArr (map (attribute_json fmt) as)"

definition scope_json :: "InstrumentationScopeConfig \<Rightarrow> json" where
  "scope_json sc =
     JObj ((''name'', JStr (is_name sc)) #
       (if is_version sc \<noteq> [] then [(''version'', JStr (is_version sc))] else []))"

definition status_json :: "SpanStatus \<Rightarrow> json" where
  "status_json st =
     JObj ((''code'', JStr (otlpStatusCodeName (st_code st))) #
       (if st_message st \<noteq> [] then [(''message'', JStr (st_message st))] else []))"

definition span_json :: "(double \<Rightarrow> string) \<Rightarrow> Span \<Rightarrow> json" where
  "span_json fmt s =
     JObj ((''traceId'', JStr (TraceId_toHex (sc_traceId (sp_context s)))) #
       [(''spanId'', JStr (SpanId_toHex (sc_spanId (sp_context s)))),
        (''name'', JStr (sp_name s)),
        (''kind'', JStr (otlpSpanKindName (sp_kind s)))] @
       (case sc_parentSpanId (sp_context s) of None \<Rightarrow> [] | Some p \<Rightarrow> [(''parentSpanId'', JStr (SpanId_toHex p))]) @
       (if sp_tracestate s \<noteq> [] then [(''traceState'', JStr (sp_tracestate s))] else []) @
       (if sp_attributes s \<noteq> [] then [(''attributes'', attributes_json fmt (sp_attributes s))] else []) @
       (if st_code (sp_status s) = Status_kUnset \<and> st_message (sp_status s) = [] then []
        else [(''status'', status_json (sp_status s))]))"

definition otlp_json :: "(double \<Rightarrow> string) \<Rightarrow> Span list \<Rightarrow> OtlpHttpExporterConfig \<Rightarrow> json" where
  "otlp_json fmt spans config =
     JObj [(''resourceSpans'', JArr [JObj (
       (if oc_resource_attributes config = [] then []
        else [(''resource'', JObj [(''attributes'', attributes_json fmt (oc_resource_attributes config))])]) @
       [(''scopeSpans'', JArr [JObj [(''scope'', scope_json (oc_scope config)),
                                     (''spans'', JArr (map (span_json fmt) spans))]])])])]"

lemma otlp_keys:
  "json_string ''intValue'' = ''\"intValue\"''"
  "json_string ''doubleValue'' = ''\"doubleValue\"''"
  "json_string ''boolValue'' = ''\"boolValue\"''"
  "json_string ''stringValue'' = ''\"stringValue\"''"
  "json_string ''key'' = ''\"key\"''"
  "json_string ''value'' = ''\"value\"''"
  "json_string ''name'' = ''\"name\"''"
  "json_string ''version'' = ''\"version\"''"
  "json_string ''code'' = ''\"code\"''"
  "json_string ''message'' = ''\"message\"''"
  "json_string ''traceId'' = ''\"traceId\"''"
  "json_string ''spanId'' = ''\"spanId\"''"
  "json_string ''kind'' = ''\"kind\"''"
  "json_string ''parentSpanId'' = ''\"parentSpanId\"''"
  "json_string ''traceState'' = ''\"traceState\"''"
  "json_string ''attributes'' = ''\"attributes\"''"
  "json_string ''status'' = ''\"status\"''"
  "json_string ''resourceSpans'' = ''\"resourceSpans\"''"
  "json_string ''resource'' = ''\"resource\"''"
  "json_string ''scopeSpans'' = ''\"scopeSpans\"''"
  "json_string ''scope'' = ''\"scope\"''"
  "json_string ''spans'' = ''\"spans\"''"
  by (simp_all add: json_string_def json_escape_def quote_char_def backslash_def char_code_def)

lemma otlp_names:
  "json_string (otlpSpanKindName k) = ''\"'' @ otlpSpanKindName k @ ''\"''"
  "json_string (otlpStatusCodeName c) = ''\"'' @ otlpStatusCodeName c @ ''\"''"
  by (cases k; simp add: json_string_def json_escape_def quote_char_def backslash_def char_code_def)
    (cases c; simp add: json_string_def json_escape_def quote_char_def backslash_def char_code_def)

lemma appendNumber_fits: "length t \<le> 32 \<Longrightarrow> appendNumber out t = out @ t"
  by (simp add: appendNumber_def)

text \<open>Numbers that fit the conversion buffer.\<close>

definition fmt_fits :: "(double \<Rightarrow> string) \<Rightarrow> bool" where
  "fmt_fits fmt \<longleftrightarrow> (\<forall>d. length (fmt d) \<le> 32)"

lemma appendAttributeValue_eq:
  "fmt_fits fmt \<Longrightarrow> appendAttributeValue fmt out v = out @ json_print (attribute_value_json fmt v)"
  by (cases v) (simp_all add: appendAttributeValue_def attribute_value_json_def appendNumber_fits
      dec_word_length appendJsonString_eq otlp_keys json_string_dec fmt_fits_def)

lemma appendAttributeArray_eq:
  assumes "fmt_fits fmt"
  shows "appendAttributeArray fmt out as = out @ json_print (attributes_json fmt as)"
proof -
  have "fold (\<lambda>(i, attribute) out.
         let out = (if i \<noteq> 0 then out @ '','' else out);
             out = appendJsonString (out @ ''{\"key\":'') (sa_name attribute);
             out = appendAttributeValue fmt (out @ '',\"value\":'') (sa_value attribute)
         in out @ ''}'') (enumerate 0 as) (out @ ''['') =
       (out @ ''['') @ comma_sep (map (\<lambda>a. json_print (attribute_json fmt a)) as)"
    using assms
    by (intro fold_comma)
      (simp add: attribute_json_def appendJsonString_eq appendAttributeValue_eq otlp_keys Let_def)
  then show ?thesis by (simp add: appendAttributeArray_def attributes_json_def comp_def)
qed

lemma appendScope_eq: "appendScope out sc = out @ ''\"scope\":'' @ json_print (scope_json sc)"
  by (simp add: appendScope_def scope_json_def appendJsonString_eq otlp_keys Let_def)

lemma appendStatus_eq:
  "appendStatus out st =
     out @ (if st_code st = Status_kUnset \<and> st_message st = [] then []
            else '',\"status\":'' @ json_print (status_json st))"
  by (simp add: appendStatus_def status_json_def appendJsonString_eq otlp_keys otlp_names Let_def)

lemma toHexArray_eq: "TraceId_toHexArray t = TraceId_toHex t" "SpanId_toHexArray s = SpanId_toHex s"
  by (simp_all add: TraceId_toHexArray_def TraceId_toHex_def SpanId_toHexArray_def SpanId_toHex_def)

lemma hex_id_json:
  "TraceId_wf t \<Longrightarrow> json_string (TraceId_toHex t) = ''\"'' @ TraceId_toHex t @ ''\"''"
  "SpanId_wf s \<Longrightarrow> json_string (SpanId_toHex s) = ''\"'' @ SpanId_toHex s @ ''\"''"
  by (simp_all add: json_string_hex id_hex_digits quote_char_def)

text \<open>The optional members of a span, each with its leading comma.\<close>

definition optional_members :: "(double \<Rightarrow> string) \<Rightarrow> Span \<Rightarrow> string" where
  "optional_members fmt s =
     (case sc_parentSpanId (sp_context s) of None \<Rightarrow> []
      | Some p \<Rightarrow> '',\"parentSpanId\":\"'' @ SpanId_toHex p @ ''\"'') @
     (if sp_tracestate s = [] then [] else '',\"traceState\":'' @ json_string (sp_tracestate s)) @
     (if sp_attributes s = [] then []
      else '',\"attributes\":'' @ json_print (attributes_json fmt (sp_attributes s))) @
     (if st_code (sp_status s) = Status_kUnset \<and> st_message (sp_status s) = [] then []
      else '',\"status\":'' @ json_print (status_json (sp_status s)))"

definition required_members :: "Span \<Rightarrow> string" where
  "required_members s =
     ''\"traceId\":\"'' @ TraceId_toHex (sc_traceId (sp_context s)) @
     ''\",\"spanId\":\"'' @ SpanId_toHex (sc_spanId (sp_context s)) @
     ''\",\"name\":'' @ json_string (sp_name s) @ '',\"kind\":\"'' @ otlpSpanKindName (sp_kind s) @ ''\"''"

lemma json_print_span:
  assumes "SpanContext_wf (sp_context s)"
  shows "json_print (span_json fmt s) = ''{'' @ required_members s @ optional_members fmt s @ ''}''"
  using assms
  by (cases "sc_parentSpanId (sp_context s)")
    (simp_all add: span_json_def required_members_def optional_members_def comma_sep_concat otlp_keys
      otlp_names hex_id_json SpanContext_wf_def)

lemma appendSpan_eq:
  assumes "fmt_fits fmt" and "SpanContext_wf (sp_context s)"
  shows "appendSpan fmt (i, s) out = (if i \<noteq> 0 then out @ '','' else out) @ json_print (span_json fmt s)"
proof -
  let ?b = "if i \<noteq> 0 then out @ '','' else out"
  define b1 where "b1 = ?b @ ''{'' @ required_members s"
  have req: "appendJsonString (appendHexId_span (appendHexId_trace (?b @ ''{\"traceId\":\"'')
        (sc_traceId (sp_context s)) @ ''\",\"spanId\":\"'') (sc_spanId (sp_context s)) @ ''\",\"name\":'')
        (sp_name s) @ '',\"kind\":\"'' @ otlpSpanKindName (sp_kind s) @ ''\"'' = b1"
    by (simp add: b1_def required_members_def appendHexId_trace_def appendHexId_span_def toHexArray_eq
        appendJsonString_eq split del: if_split)
  show ?thesis
    unfolding appendSpan_def prod.case Let_def req json_print_span [OF assms(2)]
    using assms(1)
    by (cases "sc_parentSpanId (sp_context s)"; cases "sp_tracestate s = []"; cases "sp_attributes s = []")
      (simp_all add: b1_def optional_members_def appendHexId_span_def toHexArray_eq appendJsonString_eq
        appendAttributes_def appendAttributeArray_eq appendStatus_eq split del: if_split)
qed

lemma buildOtlpJsonBody_print:
  assumes fmt: "fmt_fits fmt" and wf: "\<forall>s \<in> set spans. SpanContext_wf (sp_context s)"
  shows "buildOtlpJsonBody fmt spans config = json_print (otlp_json fmt spans config)"
proof -
  have "fold (appendSpan fmt) (enumerate n ss) out =
      fold (\<lambda>(i, s) out. (if i \<noteq> 0 then out @ '','' else out) @ json_print (span_json fmt s))
        (enumerate n ss) out" if "set ss \<subseteq> set spans" for n ss out
    using that by (induction ss arbitrary: n out) (simp_all add: appendSpan_eq fmt wf subset_iff)
  then have spans: "fold (appendSpan fmt) (enumerate 0 spans) out =
      out @ comma_sep (map (\<lambda>s. json_print (span_json fmt s)) spans)" for out
    by (simp add: fold_comma)
  show ?thesis
    by (simp add: buildOtlpJsonBody_def otlp_json_def spans appendScope_eq appendResource_def
        appendAttributeArray_eq fmt otlp_keys Let_def comp_def)
qed

text \<open>What \<^verbatim>\<open>std::to_chars\<close> promises of the shortest decimal form of a \<^verbatim>\<open>double\<close>: for a finite
  one a number in the JSON syntax, for NaN and the infinities \<^verbatim>\<open>nan\<close> or \<^verbatim>\<open>inf\<close>, possibly with
  a sign, and at most 24 characters.\<close>

definition finite_double :: "double \<Rightarrow> bool" where
  "finite_double d = (case dbl_value d of FFin _ \<Rightarrow> True | _ \<Rightarrow> False)"

definition to_chars_ok :: "(double \<Rightarrow> string) \<Rightarrow> bool" where
  "to_chars_ok fmt \<longleftrightarrow>
     (\<forall>d. length (fmt d) \<le> 24 \<and>
          (if finite_double d then json_number (fmt d) \<and> list_all is_number_char (fmt d) else bad_token (fmt d)))"

lemma to_chars_fits: "to_chars_ok fmt \<Longrightarrow> fmt_fits fmt"
  by (auto simp: to_chars_ok_def fmt_fits_def intro: order_trans)

lemma bad_token_not_number: "bad_token t \<Longrightarrow> \<not> json_number t"
  by (auto simp: bad_token_def json_number_def drop_sign_def is_digit_def)

fun finite_value :: "SpanAttributeValue \<Rightarrow> bool" where
  "finite_value (SA_double d) = finite_double d"
| "finite_value _ = True"

definition finite_attributes :: "SpanAttribute list \<Rightarrow> bool" where
  "finite_attributes as = list_all (\<lambda>a. finite_value (sa_value a)) as"

lemma attribute_value_json_ok:
  assumes "to_chars_ok fmt"
  shows "json_ok (attribute_value_json fmt v) = finite_value v" "json_or_bad (attribute_value_json fmt v)"
proof -
  have d: "(json_number (fmt d) \<and> list_all is_number_char (fmt d)) = finite_double d"
    "json_number (fmt d) \<and> list_all is_number_char (fmt d) \<or> bad_token (fmt d)" for d
    using spec [OF assms [unfolded to_chars_ok_def], of d] bad_token_not_number [of "fmt d"]
    by (cases "finite_double d"; simp)+
  show "json_ok (attribute_value_json fmt v) = finite_value v" "json_or_bad (attribute_value_json fmt v)"
    subgoal by (cases v) (simp_all add: attribute_value_json_def d(1))
    subgoal using d(2) by (cases v) (simp_all add: attribute_value_json_def)
    done
qed

lemma attributes_json_ok:
  assumes "to_chars_ok fmt"
  shows "json_ok (attributes_json fmt as) = finite_attributes as" "json_or_bad (attributes_json fmt as)"
  by (simp_all add: attributes_json_def attribute_json_def finite_attributes_def list_all_iff
      attribute_value_json_ok [OF assms])

lemma span_json_ok:
  assumes "to_chars_ok fmt"
  shows "json_ok (span_json fmt s) = finite_attributes (sp_attributes s)" "json_or_bad (span_json fmt s)"
  by (auto simp: span_json_def attributes_json_ok [OF assms] status_json_def split: option.splits)
    (simp_all add: finite_attributes_def)

lemma otlp_json_ok:
  assumes "to_chars_ok fmt"
  shows "json_ok (otlp_json fmt spans config) \<longleftrightarrow>
      finite_attributes (oc_resource_attributes config) \<and> list_all (\<lambda>s. finite_attributes (sp_attributes s)) spans"
    and "json_or_bad (otlp_json fmt spans config)"
  by (auto simp: otlp_json_def scope_json_def attributes_json_ok [OF assms] span_json_ok [OF assms] list_all_iff)
    (simp_all add: finite_attributes_def)

section \<open>Properties\<close>

text \<open>C17: the request body that the OTLP exporter posts is a JSON text that a JSON parser reads back as
  the OTLP document of the configured resource, the instrumentation scope and, in order, of every
  span of the batch: ids in hexadecimal, name, kind, parent, tracestate, attributes and status,
  with every string restored byte for byte. This holds for spans with well-formed ids whose
  doubles are finite, given that \<^verbatim>\<open>std::to_chars\<close> writes numbers.\<close>

theorem otlp_body_parses:
  assumes "to_chars_ok fmt" and "\<forall>s \<in> set spans. SpanContext_wf (sp_context s)"
    and "finite_attributes (oc_resource_attributes config)"
    and "list_all (\<lambda>s. finite_attributes (sp_attributes s)) spans"
  shows "json_parse (buildOtlpJsonBody fmt spans config) = Some (otlp_json fmt spans config)"
  using json_parse_print [of "otlp_json fmt spans config"] otlp_json_ok(1) [OF assms(1)]
    buildOtlpJsonBody_print [OF to_chars_fits [OF assms(1)] assms(2)] assms(3,4) by simp

text \<open>C40: one attribute that is NaN or infinite, in any span of the batch or in the resource, makes the
  whole request body a text that is not JSON.\<close>

theorem otlp_nonfinite_not_json:
  assumes "to_chars_ok fmt" and "\<forall>s \<in> set spans. SpanContext_wf (sp_context s)"
    and "\<not> (finite_attributes (oc_resource_attributes config) \<and>
            list_all (\<lambda>s. finite_attributes (sp_attributes s)) spans)"
  shows "json_parse (buildOtlpJsonBody fmt spans config) = None"
  using json_parse_bad [of "otlp_json fmt spans config"] otlp_json_ok [OF assms(1)]
    buildOtlpJsonBody_print [OF to_chars_fits [OF assms(1)] assms(2)] assms(3) by simp

text \<open>Exporting reports success exactly for an empty batch, for which nothing is sent, or when the
  transport returned a status from 200 to 299; a transport that throws, reports an error or is not
  available is a failure. The request is a POST to the configured endpoint with the configured
  timeout, and always carries a content type.\<close>

theorem otlp_export_result:
  fixes e :: "'w OtlpHttpExporter"
  assumes "e = OtlpHttpExporter_new config transport"
  shows "OtlpHttpExporter_exportSpans fmt e [] w = (Export_kSuccess, w) \<and>
         (spans \<noteq> [] \<longrightarrow>
           (let request = \<lparr>rq_method = ''POST'', rq_endpoint = oc_endpoint config,
                  rq_timeout = oc_timeout config, rq_headers = makeHeaders config,
                  rq_body = buildOtlpJsonBody fmt spans config\<rparr>;
                answer = (case transport of Some t \<Rightarrow> t | None \<Rightarrow> makeUnavailableTransport) request w
            in snd (OtlpHttpExporter_exportSpans fmt e spans w) = snd answer \<and>
               (fst (OtlpHttpExporter_exportSpans fmt e spans w) = Export_kSuccess \<longleftrightarrow>
                 (\<exists>r. fst answer = Inr r \<and> 200 \<le> rs_status_code r \<and> rs_status_code r \<le> 299)) \<and>
               hasHeader (rq_headers request) ''content-type'' \<and>
               (transport = None \<longrightarrow> fst (OtlpHttpExporter_exportSpans fmt e spans w) = Export_kFailure)))"
proof -
  have "hasHeader (makeHeaders config) ''content-type''"
    by (simp add: makeHeaders_def) (simp add: hasHeader_def asciiEqualsIgnoreCase_eq)
  then show ?thesis
    using assms
    by (auto simp: OtlpHttpExporter_exportSpans_def OtlpHttpExporter_new_def makeUnavailableTransport_def Let_def
        split: option.splits prod.splits sum.splits)
qed

lemma header_names_table:
  "lower_case ''host'' = lower_case ''Host'' \<and> lower_case ''accept'' = lower_case ''Accept'' \<and>
   lower_case ''user-agent'' = lower_case ''User-Agent'' \<and> lower_case ''connection'' = lower_case ''Connection'' \<and>
   lower_case ''content-type'' \<noteq> lower_case ''host'' \<and> lower_case ''content-type'' \<noteq> lower_case ''accept'' \<and>
   lower_case ''content-type'' \<noteq> lower_case ''user-agent'' \<and>
   lower_case ''content-type'' \<noteq> lower_case ''connection''"
  by code_simp

lemmas header_names = header_names_table [THEN conjunct1] header_names_table [THEN conjunct2, THEN conjunct1]
  header_names_table [THEN conjunct2, THEN conjunct2, THEN conjunct1]
  header_names_table [THEN conjunct2, THEN conjunct2, THEN conjunct2, THEN conjunct1]

text \<open>The headers the galay-http transport sends: the last configured content type, or JSON, is
  passed apart and never among the other headers; every other configured header keeps its last
  value; and host, accept, user-agent and connection are present, added only where the
  configuration has none of that name up to case.\<close>

theorem galay_request_headers:
  assumes "requestHeaders hs url = (content_type, headers)"
  shows "content_type = last_content_type hs \<and> \<not> hasMappedHeader headers ''content-type'' \<and>
         (\<forall>k v. custom_headers hs k = Some v \<longrightarrow> map_of headers k = Some v) \<and>
         list_all (hasMappedHeader headers) [''host'', ''accept'', ''user-agent'', ''connection'']"
proof -
  let ?h1 = "defaultHeader ''host'' ''Host'' (endpointHostHeader url) (snd (collectHeaders hs))"
  let ?h2 = "defaultHeader ''accept'' ''Accept'' ''application/json'' ?h1"
  let ?h3 = "defaultHeader ''user-agent'' ''User-Agent'' ''galay-tracing'' ?h2"
  note low = header_names
  have out: "content_type = fst (collectHeaders hs)"
    "headers = defaultHeader ''connection'' ''Connection'' ''close'' ?h3"
    using assms by (auto simp: requestHeaders_def Let_def case_prod_beta)
  have other: "hasMappedHeader (defaultHeader l n v h) ''content-type'' = hasMappedHeader h ''content-type''"
    if "(l, n) \<in> {(''host'', ''Host''), (''accept'', ''Accept''), (''user-agent'', ''User-Agent''),
                   (''connection'', ''Connection'')}" for l n v h
    by (rule defaultHeader_other) (use that header_names_table in blast)+
  have "\<not> hasMappedHeader headers ''content-type''"
    using collectHeaders_no_content_type [of hs] unfolding out(2) by (simp add: other)
  moreover have "map_of headers k = Some v" if "custom_headers hs k = Some v" for k v
    unfolding out(2) using that collectHeaders_spec [of hs] by (intro defaultHeader_keeps low(1-4)) simp
  moreover have "list_all (hasMappedHeader headers) [''host'', ''accept'', ''user-agent'', ''connection'']"
    unfolding out(2) list.pred_inject
    by (intro conjI) (rule TrueI defaultHeader_has low defaultHeader_mono list.pred_inject(1))+
  ultimately show ?thesis using out(1) collectHeaders_spec [of hs] by simp
qed

text \<open>An exchange with the server: the endpoint parses and is plain HTTP, the connection is made, the POST of
  the request is answered with a status and a body, and closing the client does not throw.\<close>

definition http_exchange :: "'w galay_http \<Rightarrow> OtlpHttpRequest \<Rightarrow> 'w \<Rightarrow> int \<Rightarrow> string \<Rightarrow> 'w \<Rightarrow> bool" where
  "http_exchange http request w code body w' \<longleftrightarrow>
     (\<exists>url w1 w2. gh_parse http (rq_endpoint request) = Some url \<and> \<not> hu_is_secure url \<and>
        gh_connect http (rq_endpoint request) (rq_timeout request) w = (Returns (), w1) \<and>
        gh_post http (hu_path url) (rq_body request) (fst (requestHeaders (rq_headers request) url))
          (snd (requestHeaders (rq_headers request) url)) (rq_timeout request) w1 = (Returns (Some (code, body)), w2) \<and>
        (\<exists>closed. gh_close http w2 = (closed, w') \<and> (\<forall>exn. closed \<noteq> Throws exn)))"

lemma close_and_return_status:
  assumes "close_and_return http response w = (r, w')" and "rs_status_code r \<noteq> 0"
  shows "r = response" and "\<exists>closed. gh_close http w = (closed, w') \<and> (\<forall>exn. closed \<noteq> Throws exn)"
  using assms
  by (auto simp: close_and_return_def thrown_def transport_error_def split: prod.splits outcome.splits)

lemma failed_status [simp]: "rs_status_code (transport_error msg) = 0" "rs_status_code (thrown exn) = 0"
  by (simp_all add: transport_error_def thrown_def)

lemma send_exchange:
  assumes "http_exchange http request w code body w'"
  shows "sendWithGalayHttp http request w = (\<lparr>rs_status_code = code, rs_body = body, rs_error = []\<rparr>, w')"
proof -
  obtain url w1 w2 closed where x: "gh_parse http (rq_endpoint request) = Some url" "\<not> hu_is_secure url"
    "gh_connect http (rq_endpoint request) (rq_timeout request) w = (Returns (), w1)"
    "gh_post http (hu_path url) (rq_body request) (fst (requestHeaders (rq_headers request) url))
       (snd (requestHeaders (rq_headers request) url)) (rq_timeout request) w1 = (Returns (Some (code, body)), w2)"
    "gh_close http w2 = (closed, w')" "\<forall>exn. closed \<noteq> Throws exn"
    using assms by (auto simp: http_exchange_def)
  have "close_and_return http r w2 = (r, w')" for r
    using x(5,6) by (cases closed) (simp_all add: close_and_return_def)
  then show ?thesis
    by (simp add: sendWithGalayHttp_def x(1-4) case_prod_beta)
qed

lemma send_status:
  assumes "sendWithGalayHttp http request w = (r, w')" and "rs_status_code r \<noteq> 0"
  shows "http_exchange http request w (rs_status_code r) (rs_body r) w' \<and> rs_error r = []"
proof -
  obtain url where url: "gh_parse http (rq_endpoint request) = Some url" "\<not> hu_is_secure url"
    using assms by (auto simp: sendWithGalayHttp_def split: option.splits if_splits)
  obtain conn w1 where conn: "gh_connect http (rq_endpoint request) (rq_timeout request) w = (conn, w1)" by fastforce
  obtain ans w2 where post: "gh_post http (hu_path url) (rq_body request) (fst (requestHeaders (rq_headers request) url))
       (snd (requestHeaders (rq_headers request) url)) (rq_timeout request) w1 = (ans, w2)"
    by fastforce
  have "conn = Returns ()"
    using assms url conn by (cases conn) (auto simp: sendWithGalayHttp_def case_prod_beta)
  moreover from this obtain code body where "ans = Returns (Some (code, body))"
    using assms url conn post
    by (cases ans) (auto simp: sendWithGalayHttp_def case_prod_beta dest: close_and_return_status(1) split: option.splits)
  ultimately have "close_and_return http \<lparr>rs_status_code = code, rs_body = body, rs_error = []\<rparr> w2 = (r, w')"
    using assms(1) url conn post by (simp add: sendWithGalayHttp_def case_prod_beta)
  note closed = close_and_return_status [OF this assms(2)]
  show ?thesis
    using closed url conn post \<open>conn = Returns ()\<close> \<open>ans = Returns (Some (code, body))\<close> by (auto simp: http_exchange_def)
qed

text \<open>The runtime is there: it is up or could be built and started, the task was spawned.\<close>

definition runtime_up ::
  "'w galay_http \<Rightarrow> GalayHttpTransportState \<times> 'w \<Rightarrow> GalayHttpTransportState \<Rightarrow> 'w \<Rightarrow> bool" where
  "runtime_up http stw st' w2 \<longleftrightarrow> (\<exists>w1. ensureRuntime http stw = (True, st', w1) \<and> gh_spawn http w1 = (True, w2))"

text \<open>C35: the galay-http transport returns the answer of the server: it answers with a nonzero status exactly when
  the call is not refused, the runtime is there, the endpoint parses and is plain HTTP, the connection and the
  POST of the request succeed with that status, and neither closing nor joining throws, and then status and
  body are those of the server and there is no error text. On a scheduler thread, when so configured, it
  refuses with the status 0 and touches neither the runtime nor the network. It throws only when the runtime
  throws.\<close>

theorem galay_transport_status:
  assumes "makeGalayHttpOtlpTransport http on_runtime request (st, w) = (answer, st', w')" and "code \<noteq> 0"
  defines "refused \<equiv> gc_reject_on_runtime_thread (gt_config st) \<and> on_runtime"
  shows "(refused \<longrightarrow> (\<exists>r. answer = Inr r \<and> rs_status_code r = 0) \<and> st' = st \<and> w' = w) \<and>
    ((\<exists>r. answer = Inr r \<and> rs_status_code r = code \<and> rs_body r = body) \<longleftrightarrow>
      \<not> refused \<and> (\<exists>w1 w2. runtime_up http (st, w) st' w1 \<and> http_exchange http request w1 code body w2 \<and>
        gh_join http w2 = (True, w'))) \<and>
    (\<forall>r. answer = Inr r \<and> rs_status_code r = code \<longrightarrow> rs_error r = []) \<and>
    (answer = Inl () \<longrightarrow> \<not> refused \<and>
      ((\<forall>st2 w2. \<not> runtime_up http (st, w) st2 w2) \<or>
       (\<exists>st2 w1 r w2. runtime_up http (st, w) st2 w1 \<and> sendWithGalayHttp http request w1 = (r, w2) \<and>
          gh_join http w2 = (False, w'))))"
proof (cases refused)
  case True
  then show ?thesis
    using assms(1,2)
    by (auto simp: refused_def makeGalayHttpOtlpTransport_def GalayHttpTransportState_send_def)
next
  case False
  obtain up st1 w1 where e: "ensureRuntime http (st, w) = (up, st1, w1)" by (metis prod_cases3)
  obtain spawned w2 where s: "gh_spawn http w1 = (spawned, w2)" by fastforce
  obtain r w3 where x: "sendWithGalayHttp http request w2 = (r, w3)" by fastforce
  obtain joined w4 where j: "gh_join http w3 = (joined, w4)" by fastforce
  have up: "runtime_up http (st, w) st2 v \<longleftrightarrow> up \<and> spawned \<and> st2 = st1 \<and> v = w2" for st2 v
    by (auto simp: runtime_up_def e s)
  have out: "answer = (if up \<and> spawned \<and> joined then Inr r else Inl ())" "st' = st1"
    "up \<and> spawned \<Longrightarrow> w' = w4"
    using assms(1) False
    by (auto simp: refused_def makeGalayHttpOtlpTransport_def GalayHttpTransportState_send_def e s x j split: bool.splits)
  have iff: "http_exchange http request w2 code body v \<longleftrightarrow> rs_status_code r = code \<and> rs_body r = body \<and> v = w3" for v
    using send_exchange [of http request w2 code body v] send_status [OF x] x assms(2) by auto
  show ?thesis
    using False out send_status [OF x] assms(2) by (auto simp: up iff j x)
qed

text \<open>A runtime that could be built and not started is kept: the next call does not start it again.\<close>

lemma runtime_start_not_repeated:
  assumes "ensureRuntime http (st, w) = (False, st', w')" and "gt_runtime st'"
  shows "ensureRuntime http (st', v) = (True, st', v)"
  using assms(2) by (simp add: ensureRuntime_def)

section \<open>Witnesses\<close>

text \<open>A formatting routine that satisfies the promise, and a span with a string, an integer and a
  double attribute.\<close>

definition sample_fmt :: "double \<Rightarrow> string" where
  "sample_fmt d = (if finite_double d then ''0'' else ''nan'')"

lemma sample_fmt_ok: "to_chars_ok sample_fmt"
proof -
  have "json_number ''0'' \<and> list_all is_number_char ''0''" by code_simp
  then show ?thesis by (simp add: to_chars_ok_def sample_fmt_def bad_token_def)
qed

definition sample_span :: "double \<Rightarrow> Span" where
  "sample_span d =
     Span_default\<lparr>sp_name := ''GET \"/\"'', sp_kind := Kind_kServer,
       sp_attributes := [spanAttribute_string ''http.route'' ''/'', spanAttribute_uint64 ''n'' 7,
                         spanAttribute_double ''x'' d]\<rparr>"

lemma sample_span_wf [simp]: "SpanContext_wf (sp_context (sample_span d))"
  by (simp add: sample_span_def Span_default_def SpanContext_default_def SpanContext_wf_def)

lemma sample_span_finite [simp]: "finite_attributes (sp_attributes (sample_span d)) = finite_double d"
  by (simp add: sample_span_def finite_attributes_def spanAttribute_string_def spanAttribute_uint64_def
      spanAttribute_double_def SpanAttributeValue_fromString_def SpanAttributeValue_fromUInt64_def
      SpanAttributeValue_fromDouble_def)

lemma finite_double_cases: "finite_double dbl_zero" "\<not> finite_double (Double 0x7ff8000000000000)"
  by (simp_all add: finite_double_def dbl_value_def dbl_zero_def dbl_exponent_def dbl_mantissa_def)

theorem otlp_body_parses_witness:
  "json_parse (buildOtlpJsonBody sample_fmt [sample_span dbl_zero] OtlpHttpExporterConfig_default) =
     Some (otlp_json sample_fmt [sample_span dbl_zero] OtlpHttpExporterConfig_default)"
  by (rule otlp_body_parses [OF sample_fmt_ok])
    (simp_all add: finite_double_cases OtlpHttpExporterConfig_default_def finite_attributes_def [of "[]"])

theorem otlp_nonfinite_not_json_witness:
  "json_parse (buildOtlpJsonBody sample_fmt [sample_span (Double 0x7ff8000000000000)]
     OtlpHttpExporterConfig_default) = None"
  by (rule otlp_nonfinite_not_json [OF sample_fmt_ok]) (simp_all add: finite_double_cases)

theorem otlp_export_result_witness:
  "fst (OtlpHttpExporter_exportSpans sample_fmt
      (OtlpHttpExporter_new OtlpHttpExporterConfig_default
         (Some (\<lambda>_ n. (Inr \<lparr>rs_status_code = 204, rs_body = [], rs_error = []\<rparr>, Suc n))))
      [sample_span dbl_zero] 0) = Export_kSuccess"
  using otlp_export_result [OF refl, of sample_fmt OtlpHttpExporterConfig_default
      "Some (\<lambda>_ n. (Inr \<lparr>rs_status_code = 204, rs_body = [], rs_error = []\<rparr>, Suc n))" 0 "[sample_span dbl_zero]"]
  by (simp add: Let_def)

theorem galay_request_headers_witness:
  "fst (requestHeaders [\<lparr>hd_name = ''Content-Type'', hd_value = ''text/plain''\<rparr>]
     \<lparr>hu_host = ''h'', hu_port = 4318, hu_is_secure = False, hu_path = ''/v1/traces''\<rparr>) =
   last_content_type [\<lparr>hd_name = ''Content-Type'', hd_value = ''text/plain''\<rparr>]"
  using galay_request_headers [OF prod.collapse [symmetric]] by blast

text \<open>A server that answers every POST with 200 and its body.\<close>

definition sample_http :: "nat galay_http" where
  "sample_http =
     \<lparr>gh_build = (\<lambda>_ n. (True, n)), gh_start = (\<lambda>n. (True, n)), gh_spawn = (\<lambda>n. (True, n)),
      gh_join = (\<lambda>n. (True, n)),
      gh_parse = (\<lambda>_. Some \<lparr>hu_host = ''h'', hu_port = 4318, hu_is_secure = False, hu_path = ''/v1/traces''\<rparr>),
      gh_connect = (\<lambda>_ _ n. (Returns (), n)), gh_post = (\<lambda>_ body _ _ _ n. (Returns (Some (200, body)), Suc n)),
      gh_close = (\<lambda>n. (Returns (), n))\<rparr>"

theorem galay_transport_status_witness:
  "let request = \<lparr>rq_method = ''POST'', rq_endpoint = ''http://h:4318/v1/traces'', rq_timeout = 500, rq_headers = [],
         rq_body = ''{}''\<rparr>;
       st = GalayHttpTransportState_new \<lparr>gc_io_scheduler_count = 1, gc_reject_on_runtime_thread = True\<rparr>
   in \<exists>r. fst (makeGalayHttpOtlpTransport sample_http False request (st, 0)) = Inr r \<and>
        rs_status_code r = 200 \<and> rs_body r = ''{}'' \<and> rs_error r = []"
proof -
  let ?request = "\<lparr>rq_method = ''POST'', rq_endpoint = ''http://h:4318/v1/traces'', rq_timeout = 500, rq_headers = [],
         rq_body = ''{}''\<rparr>"
  let ?st = "GalayHttpTransportState_new \<lparr>gc_io_scheduler_count = 1, gc_reject_on_runtime_thread = True\<rparr>"
  obtain answer st' w' where out: "makeGalayHttpOtlpTransport sample_http False ?request (?st, 0) = (answer, st', w')"
    by (metis prod_cases3)
  have "st' = ?st\<lparr>gt_runtime := True\<rparr>" "w' = 1"
    using out by (auto simp: makeGalayHttpOtlpTransport_def GalayHttpTransportState_send_def ensureRuntime_def
        sendWithGalayHttp_def close_and_return_def sample_http_def GalayHttpTransportState_new_def
        case_prod_beta Let_def)
  then have "runtime_up sample_http (?st, 0) st' 0 \<and> http_exchange sample_http ?request 0 200 ''{}'' 1 \<and>
      gh_join sample_http 1 = (True, w')"
    by (auto simp: runtime_up_def http_exchange_def ensureRuntime_def sample_http_def GalayHttpTransportState_new_def)
  then obtain r where "answer = Inr r" "rs_status_code r = 200" "rs_body r = ''{}''"
    using galay_transport_status [OF out, of 200 "''{}''"] by auto
  moreover have "\<forall>r. answer = Inr r \<and> rs_status_code r = 200 \<longrightarrow> rs_error r = []"
    using galay_transport_status [OF out, of 200 "''{}''"] by simp
  ultimately show ?thesis unfolding Let_def out fst_conv by blast
qed

end
