(* ===== verification/Span_Types.thy ===== *)
theory Span_Types
  imports Span_Guard Otlp_Exporter
begin

text \<open>
  What the types of the program guarantee of a span, kept by every operation on it: identifiers of the
  fixed lengths, at most \<^verbatim>\<open>kMaxAttributes\<close> attributes and an end time only on a timed span that has ended.

  The first part follows one span through any sequence of the mutators of \<^verbatim>\<open>kernel/span.h\<close>. The second part
  follows the spans that nested guards produce in a thread, and gives them to both exporters: what the
  exporters need in order to write JSON holds of every such span.
\<close>

section \<open>Well-formed spans\<close>

definition Span_wf :: "Span \<Rightarrow> bool" where
  "Span_wf s \<longleftrightarrow> SpanContext_wf (sp_context s) \<and> length (sp_attributes s) \<le> kMaxAttributes \<and>
     (sp_endedAt s \<noteq> 0 \<longrightarrow> sp_ended s \<and> sp_startedAt s \<noteq> 0)"

text \<open>The calls that change a span.\<close>

datatype span_call =
    Call_setKind SpanKind
  | Call_setStatus SpanStatusCode string
  | Call_setAttribute SpanAttribute
  | Call_setAttribute_int64 string i64
  | Call_setAttribute_int string "32 word"
  | Call_setAttribute_uint64 string u64
  | Call_setAttribute_double string double
  | Call_setAttribute_bool string bool
  | Call_setAttribute_string string string
  | Call_setAttribute_cstr string "string option"
  | Call_end time_point

fun run_span_call :: "span_call \<Rightarrow> Span \<Rightarrow> Span" where
  "run_span_call (Call_setKind k) s = Span_setKind k s"
| "run_span_call (Call_setStatus code message) s = Span_setStatus code message s"
| "run_span_call (Call_setAttribute a) s = snd (Span_setAttribute a s)"
| "run_span_call (Call_setAttribute_int64 name v) s = snd (Span_setAttribute_int64 name v s)"
| "run_span_call (Call_setAttribute_int name v) s = snd (Span_setAttribute_int name v s)"
| "run_span_call (Call_setAttribute_uint64 name v) s = snd (Span_setAttribute_uint64 name v s)"
| "run_span_call (Call_setAttribute_double name v) s = snd (Span_setAttribute_double name v s)"
| "run_span_call (Call_setAttribute_bool name v) s = snd (Span_setAttribute_bool name v s)"
| "run_span_call (Call_setAttribute_string name v) s = snd (Span_setAttribute_string name v s)"
| "run_span_call (Call_setAttribute_cstr name v) s = snd (Span_setAttribute_cstr name v s)"
| "run_span_call (Call_end now) s = Span_end now s"

lemma Span_wf_setAttribute [wf_intros]: "Span_wf s \<Longrightarrow> Span_wf (snd (Span_setAttribute a s))"
  by (simp add: Span_wf_def Span_setAttribute_def)

lemma Span_wf_end [wf_intros]: "Span_wf s \<Longrightarrow> Span_wf (Span_end now s)"
  by (auto simp: Span_wf_def Span_end_def)

lemma Span_wf_setKind [wf_intros]: "Span_wf s \<Longrightarrow> Span_wf (Span_setKind k s)"
  by (simp add: Span_wf_def Span_setKind_def)

lemma Span_wf_setStatus [wf_intros]: "Span_wf s \<Longrightarrow> Span_wf (Span_setStatus code message s)"
  by (simp add: Span_wf_def Span_setStatus_def)

lemma Span_wf_new [wf_intros]: "SpanContext_wf c \<Longrightarrow> Span_wf (Span_new name c ts policy now)"
  by (simp add: Span_wf_def)

lemmas setAttribute_overloads =
  Span_setAttribute_int64_def Span_setAttribute_int_def Span_setAttribute_uint64_def Span_setAttribute_double_def
  Span_setAttribute_bool_def Span_setAttribute_string_def Span_setAttribute_cstr_def

lemma Span_wf_call: "Span_wf s \<Longrightarrow> Span_wf (run_span_call c s)"
  by (cases c) (simp_all add: setAttribute_overloads wf_intros)

text \<open>What a call leaves alone, and what an end keeps for good.\<close>

lemma run_span_call_frame [simp]:
  "sp_name (run_span_call c s) = sp_name s" "sp_context (run_span_call c s) = sp_context s"
  "sp_tracestate (run_span_call c s) = sp_tracestate s" "sp_startedAt (run_span_call c s) = sp_startedAt s"
  by (cases c;
      simp add: setAttribute_overloads Span_setAttribute_def Span_setKind_def Span_setStatus_def Span_end_def)+

lemma run_span_call_ended:
  "sp_ended s \<Longrightarrow> sp_ended (run_span_call c s) \<and> sp_endedAt (run_span_call c s) = sp_endedAt s"
  by (cases c)
    (simp_all add: setAttribute_overloads Span_setAttribute_def Span_setKind_def Span_setStatus_def Span_end_def)

lemma run_span_calls_ended:
  "sp_ended s \<Longrightarrow> sp_ended (fold run_span_call cs s) \<and> sp_endedAt (fold run_span_call cs s) = sp_endedAt s"
  by (induction cs arbitrary: s) (simp_all add: run_span_call_ended)

lemma run_span_calls_frame:
  "sp_name (fold run_span_call cs s) = sp_name s \<and> sp_context (fold run_span_call cs s) = sp_context s \<and>
   sp_startedAt (fold run_span_call cs s) = sp_startedAt s"
  by (induction cs arbitrary: s) simp_all

lemma run_span_calls_wf: "Span_wf s \<Longrightarrow> Span_wf (fold run_span_call cs s)"
  by (induction cs arbitrary: s) (simp_all add: Span_wf_call)

section \<open>The spans of nested guards\<close>

text \<open>The remote contexts a program hands in have identifiers of the fixed lengths.\<close>

fun scope_wf :: "scope \<Rightarrow> bool" where
  "scope_wf (SpanScope _ _ _ body) = list_all scope_wf body"
| "scope_wf (ServerScope _ p _ _ body) = (TraceContext_wf p \<and> list_all scope_wf body)"
| "scope_wf (KernelScope c body) = (pred_option TraceContext_wf c \<and> list_all scope_wf body)"

lemma makeNextContext_wf:
  "pred_option SpanContext_wf parent \<Longrightarrow> SpanContext_wf (fst (makeNextContext parent t))"
  by (auto simp: makeNextContext_def makeChildContext_fields makeRootContext_fields SpanContext_wf_def
      split: option.splits)

lemma applySampling_wf [simp]: "SpanContext_wf (applySampling sampler parent c) = SpanContext_wf c"
  by (simp add: SpanContext_wf_def)

text \<open>A span as a guard leaves it: well-formed, valid, ended, with no attributes.\<close>

definition guarded_span :: "Span \<Rightarrow> bool" where
  "guarded_span s \<longleftrightarrow> Span_wf s \<and> SpanContext_isValid (sp_context s) \<and> sp_ended s \<and> sp_attributes s = []"

lemma startSpan_wf:
  assumes "slot_wf (t_currentContext t)"
  shows "guarded_span (Span_end now' (m_span (fst (startSpan name now t))))"
    and "slot_wf (t_currentContext (snd (startSpan name now t)))"
  using assms makeNextContext_wf [of "ccs_spanContext (t_currentContext t)" t]
  by (auto simp: guarded_span_def startSpan_eq slot_wf_def Let_def case_prod_beta intro!: Span_wf_end Span_wf_new)

lemma startServerSpan_wf:
  assumes "TraceContext_wf p"
  shows "guarded_span (Span_end now' (m_span (fst (startServerSpan name p now t))))"
    and "slot_wf (t_currentContext (snd (startServerSpan name p now t)))"
  using assms makeNextContext_wf [of "Some (SpanContext_of p)" t]
  by (auto simp: guarded_span_def startServerSpan_eq slot_wf_def Let_def case_prod_beta Span_setKind_def
      intro!: Span_wf_end Span_wf_new Span_wf_setKind [unfolded Span_setKind_def])

text \<open>The names of the spans that a block starts, the outer ones first.\<close>

fun scope_names :: "scope \<Rightarrow> string list" where
  "scope_names (SpanScope name _ _ body) = name # concat (map scope_names body)"
| "scope_names (ServerScope name _ _ _ body) = name # concat (map scope_names body)"
| "scope_names (KernelScope _ body) = concat (map scope_names body)"

lemma start_names [simp]:
  "sp_name (m_span (fst (startSpan name now t))) = name"
  "sp_name (m_span (fst (startServerSpan name p now t))) = name"
  by (simp_all add: startSpan_eq startServerSpan_eq Let_def case_prod_beta Span_setKind_def)

lemma setCurrentContext_wf: "pred_option TraceContext_wf c \<Longrightarrow> slot_wf (setCurrentContext c slot)"
  by (cases c) (simp_all add: slot_wf_def setCurrentContext_def clearCurrentContext_def)

definition scopes_typed :: "string list \<Rightarrow> span_tree list \<Rightarrow> bool" where
  "scopes_typed names trees \<longleftrightarrow>
     (\<forall>s \<in> set (forest_spans trees). guarded_span s) \<and> map sp_name (forest_spans trees) = names"

lemma scopes_typed_node:
  assumes "scopes_typed names trees" and "guarded_span s" and "sp_name s = name"
  shows "scopes_typed (name # names) [SpanNode s trees]"
  using assms by (simp add: scopes_typed_def)

lemma scopes_typed_append:
  "scopes_typed xs trees \<Longrightarrow> scopes_typed ys trees' \<Longrightarrow> scopes_typed (xs @ ys) (trees @ trees')"
  by (auto simp: scopes_typed_def)

lemma run_scope_typed:
  "scope_wf s \<Longrightarrow> slot_wf (t_currentContext t) \<Longrightarrow> slot_ok (t_currentContext t) \<Longrightarrow>
     scopes_typed (scope_names s) (fst (run_scope moved s t))"
  "list_all scope_wf ss \<Longrightarrow> slot_wf (t_currentContext t) \<Longrightarrow> slot_ok (t_currentContext t) \<Longrightarrow>
     scopes_typed (concat (map scope_names ss)) (fst (run_scopes moved ss t))"
proof (induction s t and ss t rule: scopes_induct [where moved = moved])
  case (Span name t0 t1 body t)
  then show ?case
    by (simp add: run_scope_eqs Let_def startSpan_wf scopes_typed_node local_span.slot_ok_start del: run_scope.simps)
next
  case (Server name p t0 t1 body t)
  then show ?case
    by (simp add: run_scope_eqs Let_def startServerSpan_wf scopes_typed_node server_span.slot_ok_start
        del: run_scope.simps)
next
  case (Kernel c body t)
  then show ?case by (simp add: run_scope_eqs Let_def setCurrentContext_wf del: run_scope.simps)
next
  case (Cons s ss t)
  then show ?case
    by (simp add: run_scope_eqs Let_def scopes_typed_append run_scope_restores(1) del: run_scopes.simps(2))
qed (simp add: scopes_typed_def)

section \<open>Properties\<close>

text \<open>C38: a span stays well-formed whatever is called on it: after any sequence of mutators on a new span its
  ids have their lengths and are those it was made with, it has at most 32 attributes, an end time is
  there only if it has ended and was timed, and once ended it stays so with its first end time.\<close>

theorem span_calls_wf:
  assumes "SpanContext_wf c"
  shows "let s = fold run_span_call calls (Span_new name c ts policy now)
    in Span_wf s \<and> sp_context s = c \<and> sp_name s = name
      \<and> (Call_end t \<in> set calls \<longrightarrow> sp_ended s)
      \<and> (sp_ended s \<longrightarrow> sp_endedAt (fold run_span_call later s) = sp_endedAt s)"
proof -
  have ended: "sp_ended (fold run_span_call calls s)" if "Call_end t \<in> set calls" for s
    using that
  proof (induction calls arbitrary: s)
    case (Cons c cs)
    then show ?case by (cases "c = Call_end t") (use run_span_calls_ended in \<open>auto\<close>)
  qed simp
  show ?thesis
    using assms ended run_span_calls_frame [of calls "Span_new name c ts policy now"]
    by (simp add: Let_def run_span_calls_wf Span_wf_new run_span_calls_ended)
qed

theorem span_calls_wf_witness:
  "Span_wf (fold run_span_call (replicate 40 (Call_setAttribute_bool ''k'' True) @ [Call_end 9])
     (Span_new ''op'' sample_context '''' Timing_kEnabled 5))"
proof -
  have "SpanContext_wf sample_context"
    by (simp add: sample_context_def SpanContext_wf_def)
  then show ?thesis
    using span_calls_wf [of sample_context "replicate 40 (Call_setAttribute_bool ''k'' True) @ [Call_end 9]"]
    by (simp only: Let_def)
qed

text \<open>C14: every span that nested guards, server spans and kernel scopes produce in a thread is well-formed and
  valid, has ended and carries no attributes, the spans come in the order and with the names of the
  blocks, and the current context of the thread stays well-formed.\<close>

theorem scope_spans_wf:
  assumes "slot_ok (t_currentContext t)" and "slot_wf (t_currentContext t)" and "list_all scope_wf ss"
  shows "(\<forall>s \<in> set (forest_spans (fst (run_scopes moved ss t))).
        Span_wf s \<and> SpanContext_isValid (sp_context s) \<and> sp_ended s \<and> sp_attributes s = [])
    \<and> map sp_name (forest_spans (fst (run_scopes moved ss t))) = concat (map scope_names ss)
    \<and> slot_wf (t_currentContext (snd (run_scopes moved ss t)))"
  using run_scope_typed(2) [OF assms(3,2,1), of moved] run_scope_restores(2) [OF assms(1), of moved ss] assms(2)
  by (simp add: scopes_typed_def guarded_span_def)

text \<open>C18: what a traced program exports can be read: for the spans that any nesting of guards produces, the OTLP
  body is the JSON text of those spans if the resource attributes of the exporter's configuration have no NaN
  and no infinity, and each line of the file exporter is the JSON text of its span if the names of the blocks
  have no control characters.\<close>

theorem scope_spans_export:
  assumes "slot_ok (t_currentContext t)" and "slot_wf (t_currentContext t)" and "list_all scope_wf ss"
    and "to_chars_ok fmt" and "finite_attributes (oc_resource_attributes config)"
    and "spans = forest_spans (fst (run_scopes moved ss t))"
  shows "json_parse (buildOtlpJsonBody fmt spans config) = Some (otlp_json fmt spans config)
    \<and> (list_all (list_all not_control) (concat (map scope_names ss)) \<longrightarrow>
        map (\<lambda>s. json_parse (renderSpanJson s)) spans = map (\<lambda>s. Some (span_line_json s)) spans)"
proof -
  have ok: "\<forall>s \<in> set spans. guarded_span s" and names: "map sp_name spans = concat (map scope_names ss)"
    using run_scope_typed(2) [OF assms(3,2,1), of moved] assms(6) by (simp_all add: scopes_typed_def)
  then have wf: "\<forall>s \<in> set spans. SpanContext_wf (sp_context s)"
    and fin: "list_all (\<lambda>s. finite_attributes (sp_attributes s)) spans"
    by (auto simp: guarded_span_def Span_wf_def list_all_iff finite_attributes_def)
  have "json_parse (buildOtlpJsonBody fmt spans config) = Some (otlp_json fmt spans config)"
    using json_parse_print [of "otlp_json fmt spans config"] otlp_json_ok(1) [OF assms(4)]
      buildOtlpJsonBody_print [OF to_chars_fits [OF assms(4)] wf] assms(5) fin by simp
  moreover have "json_parse (renderSpanJson s) = Some (span_line_json s)"
    if "s \<in> set spans" "list_all (list_all not_control) (concat (map scope_names ss))" for s
  proof -
    have "list_all not_control (sp_name s)"
      using that names by (metis (no_types, lifting) imageI list.set_map list_all_iff)
    then show ?thesis
      using wf that(1) json_parse_print [of "span_line_json s"]
      by (simp add: renderSpanJson_print) (simp add: span_line_json_def)
  qed
  ultimately show ?thesis by simp
qed

definition sample_scopes :: "scope list" where
  "sample_scopes =
     [SpanScope ''a'' 1 9 [ServerScope ''b'' TraceContext_default 2 3 [], KernelScope None [SpanScope ''c'' 4 5 []]]]"

lemma sample_scopes_wf:
  "list_all scope_wf sample_scopes" "slot_wf (t_currentContext sample_thread)"
  "concat (map scope_names sample_scopes) = [''a'', ''b'', ''c'']"
  by (simp_all add: sample_scopes_def TraceContext_wf_def TraceContext_default_def slot_wf_def sample_context_def
      SpanContext_wf_def)

theorem scope_spans_wf_witness:
  "map sp_name (forest_spans (fst (run_scopes id sample_scopes sample_thread))) = [''a'', ''b'', ''c'']
   \<and> list_all Span_wf (forest_spans (fst (run_scopes id sample_scopes sample_thread)))"
  using scope_spans_wf [OF sample_thread_slot(3) sample_scopes_wf(2,1), of id] sample_scopes_wf(3)
  by (simp add: list_all_iff)

theorem scope_spans_export_witness:
  "json_parse (buildOtlpJsonBody sample_fmt (forest_spans (fst (run_scopes id sample_scopes sample_thread)))
     OtlpHttpExporterConfig_default) \<noteq> None"
proof -
  have "finite_attributes (oc_resource_attributes OtlpHttpExporterConfig_default)"
    by (simp add: OtlpHttpExporterConfig_default_def finite_attributes_def)
  then show ?thesis
    using scope_spans_export [OF sample_thread_slot(3) sample_scopes_wf(2,1) sample_fmt_ok _ refl, of _ id] by simp
qed

end
