(* ===== verification/Diagnostics.thy ===== *)
theory Diagnostics
  imports Otlp_Exporter
begin

text \<open>
  The library's own diagnostics, \<^verbatim>\<open>common/tracing_log.h\<close>, and where the exporters use them: the macros that
  put a tag and a message to the logger slot of the library, the messages of \<^verbatim>\<open>OtlpHttpExporter::exportSpans\<close>
  and of \<^verbatim>\<open>BatchSpanProcessor::exportBatch\<close>.

  The logger slot and the two macros underneath are those of galay-kernel, which is not part of the
  repository: a record of the operations that the header uses, with the lines logged so far as the
  observation. What is relied on is the predicate \<open>kernel_log_ok\<close>.
\<close>

section \<open>The macros\<close>

datatype KernelLogLevel = K_kTrace | K_kDebug | K_kInfo | K_kWarn | K_kError

record ('l, 'k) kernel_log =
  slot_set :: "'l option \<Rightarrow> 'k \<Rightarrow> 'k"
  slot_get :: "'k \<Rightarrow> 'l option"
  log_enabled :: "'l option \<Rightarrow> KernelLogLevel \<Rightarrow> 'k \<Rightarrow> bool"
  log_with_logger :: "'l option \<Rightarrow> KernelLogLevel \<Rightarrow> string \<Rightarrow> string \<Rightarrow> 'k \<Rightarrow> 'k"
  logged :: "'k \<Rightarrow> (KernelLogLevel \<times> string \<times> string) list"

text \<open>The slot holds what was set, a missing logger is never enabled, and a log statement adds its line exactly
  when the logger is enabled for its level.\<close>

definition kernel_log_ok :: "('l, 'k) kernel_log \<Rightarrow> bool" where
  "kernel_log_ok K \<longleftrightarrow>
     (\<forall>l k. slot_get K (slot_set K l k) = l \<and> logged K (slot_set K l k) = logged K k) \<and>
     (\<forall>v k. \<not> log_enabled K None v k) \<and>
     (\<forall>l v tag msg k.
        slot_get K (log_with_logger K l v tag msg k) = slot_get K k \<and>
        (\<forall>l' v'. log_enabled K l' v' (log_with_logger K l v tag msg k) = log_enabled K l' v' k) \<and>
        logged K (log_with_logger K l v tag msg k) =
          logged K k @ (if log_enabled K l v k then [(v, tag, msg)] else []))"

definition tracing_log_set :: "('l, 'k) kernel_log \<Rightarrow> 'l option \<Rightarrow> 'k \<Rightarrow> 'k" where
  "tracing_log_set K logger k = slot_set K logger k"

definition tracing_log_get :: "('l, 'k) kernel_log \<Rightarrow> 'k \<Rightarrow> 'l option" where
  "tracing_log_get K k = slot_get K k"

definition TRACING_LOG_ENABLED :: "('l, 'k) kernel_log \<Rightarrow> KernelLogLevel \<Rightarrow> 'k \<Rightarrow> bool" where
  "TRACING_LOG_ENABLED K level k = log_enabled K (tracing_log_get K k) level k"

definition TRACING_LOG_TRACE :: "('l, 'k) kernel_log \<Rightarrow> string \<Rightarrow> string \<Rightarrow> 'k \<Rightarrow> 'k" where
  "TRACING_LOG_TRACE K tag msg k = log_with_logger K (tracing_log_get K k) K_kTrace (''[tracing] '' @ tag) msg k"

definition TRACING_LOG_DEBUG :: "('l, 'k) kernel_log \<Rightarrow> string \<Rightarrow> string \<Rightarrow> 'k \<Rightarrow> 'k" where
  "TRACING_LOG_DEBUG K tag msg k = log_with_logger K (tracing_log_get K k) K_kDebug (''[tracing] '' @ tag) msg k"

definition TRACING_LOG_INFO :: "('l, 'k) kernel_log \<Rightarrow> string \<Rightarrow> string \<Rightarrow> 'k \<Rightarrow> 'k" where
  "TRACING_LOG_INFO K tag msg k = log_with_logger K (tracing_log_get K k) K_kInfo (''[tracing] '' @ tag) msg k"

definition TRACING_LOG_WARN :: "('l, 'k) kernel_log \<Rightarrow> string \<Rightarrow> string \<Rightarrow> 'k \<Rightarrow> 'k" where
  "TRACING_LOG_WARN K tag msg k = log_with_logger K (tracing_log_get K k) K_kWarn (''[tracing] '' @ tag) msg k"

definition TRACING_LOG_ERROR :: "('l, 'k) kernel_log \<Rightarrow> string \<Rightarrow> string \<Rightarrow> 'k \<Rightarrow> 'k" where
  "TRACING_LOG_ERROR K tag msg k = log_with_logger K (tracing_log_get K k) K_kError (''[tracing] '' @ tag) msg k"

text \<open>The names of earlier releases.\<close>

definition TRACING_BASE_LOG_TRACE :: "('l, 'k) kernel_log \<Rightarrow> string \<Rightarrow> string \<Rightarrow> 'k \<Rightarrow> 'k" where
  "TRACING_BASE_LOG_TRACE K tag msg k = TRACING_LOG_TRACE K tag msg k"

definition TRACING_BASE_LOG_DEBUG :: "('l, 'k) kernel_log \<Rightarrow> string \<Rightarrow> string \<Rightarrow> 'k \<Rightarrow> 'k" where
  "TRACING_BASE_LOG_DEBUG K tag msg k = TRACING_LOG_DEBUG K tag msg k"

definition TRACING_BASE_LOG_INFO :: "('l, 'k) kernel_log \<Rightarrow> string \<Rightarrow> string \<Rightarrow> 'k \<Rightarrow> 'k" where
  "TRACING_BASE_LOG_INFO K tag msg k = TRACING_LOG_INFO K tag msg k"

definition TRACING_BASE_LOG_WARN :: "('l, 'k) kernel_log \<Rightarrow> string \<Rightarrow> string \<Rightarrow> 'k \<Rightarrow> 'k" where
  "TRACING_BASE_LOG_WARN K tag msg k = TRACING_LOG_WARN K tag msg k"

definition TRACING_BASE_LOG_ERROR :: "('l, 'k) kernel_log \<Rightarrow> string \<Rightarrow> string \<Rightarrow> 'k \<Rightarrow> 'k" where
  "TRACING_BASE_LOG_ERROR K tag msg k = TRACING_LOG_ERROR K tag msg k"

section \<open>The exporters with their diagnostics\<close>

text \<open>\<^verbatim>\<open>OtlpHttpExporter::exportSpans\<close> on the pair of the transport's state and the diagnostics.\<close>

definition OtlpHttpExporter_exportSpans_logged ::
  "('l, 'k) kernel_log \<Rightarrow> (double \<Rightarrow> string) \<Rightarrow> 'w OtlpHttpExporter \<Rightarrow> Span list \<Rightarrow> 'w \<times> 'k \<Rightarrow> ExportResult \<times> 'w \<times> 'k" where
  "OtlpHttpExporter_exportSpans_logged K fmt e spans wk =
     (let (w, k) = wk
      in if spans = [] then (Export_kSuccess, w, k)
         else
           let k = TRACING_LOG_DEBUG K ''[otlp_http_exporter]''
                     (''export spans span_count='' @ dec_of_nat (length spans) @ '' endpoint='' @
                      oc_endpoint (oe_config e)) k
           in case oe_transport e
                     \<lparr>rq_method = ''POST'', rq_endpoint = oc_endpoint (oe_config e),
                      rq_timeout = oc_timeout (oe_config e), rq_headers = oe_headers e,
                      rq_body = buildOtlpJsonBody fmt spans (oe_config e)\<rparr> w of
                (Inl _, w') \<Rightarrow>
                  (Export_kFailure, w',
                   TRACING_LOG_ERROR K ''[otlp_http_exporter]''
                     (''transport threw span_count='' @ dec_of_nat (length spans)) k)
              | (Inr response, w') \<Rightarrow>
                  if rs_status_code response \<ge> 200 \<and> rs_status_code response < 300
                  then (Export_kSuccess, w',
                        TRACING_LOG_DEBUG K ''[otlp_http_exporter]''
                          (''export succeeded status='' @ dec_of_int (rs_status_code response) @
                           '' body_size='' @ dec_of_nat (length (rs_body response))) k)
                  else (Export_kFailure, w',
                        TRACING_LOG_WARN K ''[otlp_http_exporter]''
                          (''export failed status='' @ dec_of_int (rs_status_code response) @
                           '' error='' @ rs_error response) k))"

definition otlp_exporter_logged ::
  "('l, 'k) kernel_log \<Rightarrow> (double \<Rightarrow> string) \<Rightarrow> 'w OtlpHttpExporter \<Rightarrow> ('w \<times> 'k) SpanExporter" where
  "otlp_exporter_logged K fmt e =
     \<lparr>exportSpans = OtlpHttpExporter_exportSpans_logged K fmt e,
      forceFlush = OtlpHttpExporter_forceFlush, shutdown = OtlpHttpExporter_shutdown\<rparr>"

text \<open>\<^verbatim>\<open>BatchSpanProcessor::exportBatch\<close> with an exporter that may write diagnostics itself.\<close>

definition exportBatch_logged ::
  "('l, 'k) kernel_log \<Rightarrow> ('e \<times> 'k) SpanExporter option \<Rightarrow> Span list \<Rightarrow> 'e \<times> 'k \<Rightarrow> bool \<times> 'e \<times> 'k" where
  "exportBatch_logged K exporter spans ek =
     (case exporter of
        None \<Rightarrow> (True, ek)
      | Some x \<Rightarrow>
          if spans = [] then (True, ek)
          else
            let (result, e, k) = exportSpans x spans ek;
                success = (result = Export_kSuccess);
                k = (if \<not> success
                     then TRACING_LOG_WARN K ''[batch_processor]''
                            (''export batch failed span_count='' @ dec_of_nat (length spans)) k
                     else if TRACING_LOG_ENABLED K K_kDebug k
                     then TRACING_LOG_DEBUG K ''[batch_processor]''
                            (''export batch succeeded span_count='' @ dec_of_nat (length spans)) k
                     else k)
            in (success, e, k))"

section \<open>What is logged\<close>

lemmas tracing_log_defs =
  TRACING_LOG_DEBUG_def TRACING_LOG_WARN_def TRACING_LOG_ERROR_def TRACING_LOG_ENABLED_def tracing_log_get_def

text \<open>The lines that pass the logger of the library in the state \<open>k\<close>.\<close>

definition passing ::
  "('l, 'k) kernel_log \<Rightarrow> 'k \<Rightarrow> (KernelLogLevel \<times> string \<times> string) list \<Rightarrow> (KernelLogLevel \<times> string \<times> string) list" where
  "passing K k lines = filter (\<lambda>(v, _). log_enabled K (slot_get K k) v k) lines"

lemma kernel_log_steps:
  assumes "kernel_log_ok K"
  shows "slot_get K (log_with_logger K l v tag msg k) = slot_get K k"
    "log_enabled K l' v' (log_with_logger K l v tag msg k) = log_enabled K l' v' k"
    "logged K (log_with_logger K l v tag msg k) =
       logged K k @ (if log_enabled K l v k then [(v, tag, msg)] else [])"
    "\<not> log_enabled K None v k" "slot_get K (slot_set K l k) = l" "logged K (slot_set K l k) = logged K k"
  using assms unfolding kernel_log_ok_def by blast+

text \<open>The line that says how an export by the OTLP exporter ended.\<close>

definition otlp_outcome ::
  "ExportResult \<Rightarrow> (KernelLogLevel \<times> string \<times> string) \<Rightarrow> bool" where
  "otlp_outcome result l \<longleftrightarrow>
     (if result = Export_kSuccess then fst l = K_kDebug else fst l \<in> {K_kWarn, K_kError}) \<and>
     fst (snd l) = ''[tracing] [otlp_http_exporter]''"

lemma otlp_logged:
  assumes "kernel_log_ok K" and "spans \<noteq> []"
    and "OtlpHttpExporter_exportSpans_logged K fmt e spans (w, k) = (result, w', k')"
  shows "OtlpHttpExporter_exportSpans fmt e spans w = (result, w')"
    and "\<exists>started outcome. otlp_outcome result outcome \<and>
      logged K k' = logged K k @ passing K k [(K_kDebug, ''[tracing] [otlp_http_exporter]'', started), outcome]"
    and "slot_get K k' = slot_get K k" and "log_enabled K l' v' k' = log_enabled K l' v' k"
proof -
  let ?request = "\<lparr>rq_method = ''POST'', rq_endpoint = oc_endpoint (oe_config e),
    rq_timeout = oc_timeout (oe_config e), rq_headers = oe_headers e,
    rq_body = buildOtlpJsonBody fmt spans (oe_config e)\<rparr>"
  let ?tag = "''[tracing] [otlp_http_exporter]''"
  let ?log = "log_with_logger K (slot_get K k)"
  obtain answer w1 where t: "oe_transport e ?request w = (answer, w1)" by fastforce
  note steps = kernel_log_steps [OF assms(1)]
  define started where "started =
    ''export spans span_count='' @ dec_of_nat (length spans) @ '' endpoint='' @ oc_endpoint (oe_config e)"
  define success where "success =
    (case answer of Inl _ \<Rightarrow> False | Inr r \<Rightarrow> rs_status_code r \<ge> 200 \<and> rs_status_code r < 300)"
  obtain v msg where k': "k' = ?log v ?tag msg (?log K_kDebug ?tag started k)"
    and v: "v = (if success then K_kDebug else case answer of Inl _ \<Rightarrow> K_kError | Inr _ \<Rightarrow> K_kWarn)"
    and res: "result = (if success then Export_kSuccess else Export_kFailure)" "w' = w1"
    using assms(2,3) t
    by (cases answer)
      (auto simp: OtlpHttpExporter_exportSpans_logged_def tracing_log_defs steps success_def started_def Let_def
        split: if_splits)
  show "OtlpHttpExporter_exportSpans fmt e spans w = (result, w')"
    using assms(2) t res by (cases answer) (simp_all add: OtlpHttpExporter_exportSpans_def success_def)
  have "otlp_outcome result (v, ?tag, msg)"
    using v res by (cases answer) (simp_all add: otlp_outcome_def)
  moreover have "logged K k' = logged K k @ passing K k [(K_kDebug, ?tag, started), (v, ?tag, msg)]"
    by (simp add: k' steps passing_def)
  ultimately show "\<exists>started outcome. otlp_outcome result outcome \<and>
      logged K k' = logged K k @ passing K k [(K_kDebug, ?tag, started), outcome]"
    by blast
  show "slot_get K k' = slot_get K k" "log_enabled K l' v' k' = log_enabled K l' v' k"
    by (simp_all add: k' steps)
qed

section \<open>Properties\<close>

text \<open>C36: diagnostics report and do not interfere: exporting a batch through the processor with the OTLP exporter
  has the result and the requests it has without diagnostics, and adds the lines about the start, the
  outcome and the batch that pass the logger of the library, in this order and with the tags of the two
  components; a warning or an error is among them exactly when the export failed, and without a logger
  nothing is written.\<close>

theorem export_diagnostics:
  assumes "kernel_log_ok K" and "spans \<noteq> []"
    and "exportBatch_logged K (Some (otlp_exporter_logged K fmt e)) spans (w, k) = (ok, w', k')"
  shows "OtlpHttpExporter_exportSpans fmt e spans w = (if ok then Export_kSuccess else Export_kFailure, w')
    \<and> (\<exists>started outcome report. logged K k' = logged K k @ passing K k
          [(K_kDebug, ''[tracing] [otlp_http_exporter]'', started), outcome,
           (if ok then K_kDebug else K_kWarn, ''[tracing] [batch_processor]'', report)]
        \<and> otlp_outcome (if ok then Export_kSuccess else Export_kFailure) outcome)
    \<and> (slot_get K k = None \<longrightarrow> logged K k' = logged K k)"
proof -
  obtain result w1 k1 where x: "OtlpHttpExporter_exportSpans_logged K fmt e spans (w, k) = (result, w1, k1)"
    by (metis prod_cases3)
  note log = otlp_logged [OF assms(1,2) x] and steps = kernel_log_steps [OF assms(1)]
  have ok: "ok \<longleftrightarrow> result = Export_kSuccess" "w' = w1"
    and res: "result = (if ok then Export_kSuccess else Export_kFailure)"
    using assms(2,3) x by (cases result; auto simp: exportBatch_logged_def otlp_exporter_logged_def Let_def)+
  obtain report where k': "logged K k' = logged K k1 @ passing K k1
      [(if ok then K_kDebug else K_kWarn, ''[tracing] [batch_processor]'', report)]"
  proof
    show "logged K k' = logged K k1 @ passing K k1
      [(if ok then K_kDebug else K_kWarn, ''[tracing] [batch_processor]'',
        (if ok then ''export batch succeeded span_count='' else ''export batch failed span_count='') @
        dec_of_nat (length spans))]"
      using assms(2,3) x
      by (cases result)
        (auto simp: exportBatch_logged_def otlp_exporter_logged_def tracing_log_defs steps passing_def Let_def
          split: if_splits)
  qed
  have "passing K k1 = passing K k"
    using log(3,4) by (simp add: passing_def fun_eq_iff)
  note k' = k' [unfolded this]
  obtain started outcome where "otlp_outcome result outcome"
    "logged K k1 = logged K k @ passing K k [(K_kDebug, ''[tracing] [otlp_http_exporter]'', started), outcome]"
    using log(2) by blast
  then have lines: "logged K k' = logged K k @ passing K k
      [(K_kDebug, ''[tracing] [otlp_http_exporter]'', started), outcome,
       (if ok then K_kDebug else K_kWarn, ''[tracing] [batch_processor]'', report)]"
    "otlp_outcome (if ok then Export_kSuccess else Export_kFailure) outcome"
    using k' res by (simp_all add: passing_def [of K k])
  have none: "passing K k ls = []" if "slot_get K k = None" for ls
    using that steps(4) by (auto simp: passing_def filter_empty_conv)
  show ?thesis
  proof (intro conjI)
    show "OtlpHttpExporter_exportSpans fmt e spans w = (if ok then Export_kSuccess else Export_kFailure, w')"
      using log(1) ok(2) res by simp
    show "slot_get K k = None \<longrightarrow> logged K k' = logged K k" using lines(1) none by simp
  qed (use lines in blast)
qed

text \<open>A slot for loggers that have a minimal level and keep their lines in a list.\<close>

fun sample_rank :: "KernelLogLevel \<Rightarrow> nat" where
  "sample_rank K_kTrace = 0"
| "sample_rank K_kDebug = 1"
| "sample_rank K_kInfo = 2"
| "sample_rank K_kWarn = 3"
| "sample_rank K_kError = 4"

definition sample_kernel :: "(nat, nat option \<times> (KernelLogLevel \<times> string \<times> string) list) kernel_log" where
  "sample_kernel =
     \<lparr>slot_set = (\<lambda>l k. (l, snd k)), slot_get = fst,
      log_enabled = (\<lambda>l v k. case l of None \<Rightarrow> False | Some m \<Rightarrow> m \<le> sample_rank v),
      log_with_logger = (\<lambda>l v tag msg k.
        if (case l of None \<Rightarrow> False | Some m \<Rightarrow> m \<le> sample_rank v) then (fst k, snd k @ [(v, tag, msg)]) else k),
      logged = snd\<rparr>"

lemma sample_kernel_ok: "kernel_log_ok sample_kernel"
  by (simp add: kernel_log_ok_def sample_kernel_def)

text \<open>With the logger at the warning level a refused batch leaves two lines, the last one a warning.\<close>

theorem export_diagnostics_witness:
  "\<exists>e ok w' k' first second. exportBatch_logged sample_kernel (Some (otlp_exporter_logged sample_kernel sample_fmt e))
       [sample_span dbl_zero] (0 :: nat, (Some 3, [])) = (ok, w', k')
     \<and> \<not> ok \<and> logged sample_kernel k' = [first, (K_kWarn, ''[tracing] [batch_processor]'', second)]"
proof -
  let ?e = "OtlpHttpExporter_new OtlpHttpExporterConfig_default
    (Some (\<lambda>_ n. (Inr \<lparr>rs_status_code = 503, rs_body = [], rs_error = ''busy''\<rparr>, Suc n)))"
  obtain ok w' k' where run: "exportBatch_logged sample_kernel
      (Some (otlp_exporter_logged sample_kernel sample_fmt ?e)) [sample_span dbl_zero] (0 :: nat, (Some 3, [])) =
      (ok, w', k')"
    by (metis prod_cases3)
  have "[sample_span dbl_zero] \<noteq> []" by simp
  note diag = export_diagnostics [OF sample_kernel_ok this run]
  have "fst (OtlpHttpExporter_exportSpans sample_fmt ?e [sample_span dbl_zero] (0 :: nat)) = Export_kFailure"
    by (simp add: OtlpHttpExporter_exportSpans_def OtlpHttpExporter_new_def makeDefaultTransport_def)
  then have no: "\<not> ok" using diag by (cases ok) simp_all
  then obtain started outcome report where lines: "logged sample_kernel k' = logged sample_kernel (Some 3, []) @
      passing sample_kernel (Some 3, []) [(K_kDebug, ''[tracing] [otlp_http_exporter]'', started), outcome,
        (K_kWarn, ''[tracing] [batch_processor]'', report)]"
    and "otlp_outcome Export_kFailure outcome"
    using diag by (simp only: if_False simp_thms) blast
  then have "3 \<le> sample_rank (fst outcome)" by (auto simp: otlp_outcome_def)
  then have "logged sample_kernel k' = [outcome, (K_kWarn, ''[tracing] [batch_processor]'', report)]"
    using lines by (simp add: sample_kernel_def passing_def split_beta)
  with run no show ?thesis by blast
qed

end
