(* ===== verification/Batch_Processor.thy ===== *)
theory Batch_Processor
  imports Span_Exporter
begin

text \<open>
  Model of \<^verbatim>\<open>galay-tracing/kernel/batch_span_processor.h\<close> and \<^verbatim>\<open>batch_span_processor.cc\<close>: the
  bounded span queue, the control block, \<^verbatim>\<open>onEnd\<close>, \<^verbatim>\<open>forceFlush\<close>, \<^verbatim>\<open>shutdown\<close> and the worker thread.

  Each of the four kinds of threads is a program counter, with the local variables that are still
  needed as its arguments, and a step function that performs the next atomic access of the code.
  The relation \<open>batch_step\<close> interleaves the steps of any number of callers with those of the worker
  and with the clock; accesses are sequentially consistent. The counter \<^verbatim>\<open>size\<close> is an integer; it
  is shown never to be negative, so the unsigned counter of the code does not wrap.

  Parameters: the two \<^verbatim>\<open>moodycamel::ConcurrentQueue\<close>s are records of the operations the code
  calls, with a function that gives their contents; what is relied on is the predicate \<open>queue_ok\<close>.
  The argument \<open>pick\<close> of an operation stands for its nondeterminism. The exporter is any
  implementation of the interface. Log output is not modelled.

  The fields whose names start with \<open>g_\<close> record history for the statements and are not read by the
  steps.
\<close>

section \<open>Configuration\<close>

datatype BatchSpanScheduleMode = Mode_kTimed | Mode_kOnEnd | Mode_kBatchSize

record BatchSpanProcessorConfig =
  queue_capacity :: nat
  max_batch_size :: nat
  flush_interval :: milliseconds
  schedule_mode :: BatchSpanScheduleMode

definition BatchSpanProcessorConfig_default :: BatchSpanProcessorConfig where
  "BatchSpanProcessorConfig_default =
     \<lparr>queue_capacity = 2048, max_batch_size = 512, flush_interval = 5000, schedule_mode = Mode_kBatchSize\<rparr>"

definition normalizeConfig :: "BatchSpanProcessorConfig \<Rightarrow> BatchSpanProcessorConfig" where
  "normalizeConfig config =
     (let config = config\<lparr>queue_capacity := max (queue_capacity config) 1\<rparr>;
          config = config\<lparr>max_batch_size :=
                     (if max_batch_size config < 1 then 1
                      else if queue_capacity config < max_batch_size config then queue_capacity config
                      else max_batch_size config)\<rparr>
      in if flush_interval config \<le> 0 then config\<lparr>flush_interval := 1\<rparr> else config)"

section \<open>The concurrent queues\<close>

record ('a, 'q) queue_ops =
  cq_enqueue :: "nat \<Rightarrow> 'a \<Rightarrow> 'q \<Rightarrow> bool \<times> 'q"
  cq_try_dequeue_bulk :: "nat \<Rightarrow> nat \<Rightarrow> 'q \<Rightarrow> 'a list \<times> 'q"
  cq_contents :: "'q \<Rightarrow> 'a multiset"

text \<open>What the processor relies on: a successful \<^verbatim>\<open>enqueue\<close> adds the item and a failed one adds
  nothing; \<^verbatim>\<open>try_dequeue_bulk\<close> removes the items it returns, at most as many as asked for.\<close>

definition queue_ok :: "('a, 'q) queue_ops \<Rightarrow> bool" where
  "queue_ok Q \<longleftrightarrow>
     (\<forall>pick x q. cq_contents Q (snd (cq_enqueue Q pick x q)) =
        (if fst (cq_enqueue Q pick x q) then add_mset x (cq_contents Q q) else cq_contents Q q)) \<and>
     (\<forall>pick n q. cq_contents Q q =
        mset (fst (cq_try_dequeue_bulk Q pick n q)) + cq_contents Q (snd (cq_try_dequeue_bulk Q pick n q)) \<and>
        length (fst (cq_try_dequeue_bulk Q pick n q)) \<le> n)"

section \<open>State\<close>

record ('q, 'r, 'e) Batch =
  q_spans :: 'q
  q_size :: int
  c_shutdownRequested :: bool
  c_workerStopped :: bool
  c_joinClaimed :: bool
  c_exporterShutdown :: bool
  c_shutdownDrainOk :: bool
  c_activeFlushCallers :: int
  c_signalPending :: bool
  c_signal :: nat
  c_flushRequests :: 'r
  f_next :: nat
  f_deadline :: "nat \<Rightarrow> int"
  f_done :: "nat \<Rightarrow> bool"
  f_ok :: "nat \<Rightarrow> bool"
  m_droppedSpans :: nat
  m_exporter_state :: 'e
  clock :: int
  g_sampled :: nat
  g_closed :: nat
  g_accepted :: "Span multiset"
  g_handed :: "Span multiset"
  g_snapshot :: "nat \<Rightarrow> Span multiset"

text \<open>What is fixed at construction.\<close>

record ('q, 'r, 'e) Processor =
  m_config :: BatchSpanProcessorConfig
  m_queue :: "(Span, 'q) queue_ops"
  m_requests :: "(nat, 'r) queue_ops"
  m_exporter :: "'e SpanExporter option"

definition BatchSpanProcessor_new ::
  "'e SpanExporter option \<Rightarrow> BatchSpanProcessorConfig \<Rightarrow> (Span, 'q) queue_ops \<Rightarrow> (nat, 'r) queue_ops \<Rightarrow>
   ('q, 'r, 'e) Processor" where
  "BatchSpanProcessor_new exporter config Q R =
     \<lparr>m_config = normalizeConfig config, m_queue = Q, m_requests = R, m_exporter = exporter\<rparr>"

definition Batch_init :: "'q \<Rightarrow> 'r \<Rightarrow> 'e \<Rightarrow> ('q, 'r, 'e) Batch" where
  "Batch_init q r e =
     \<lparr>q_spans = q, q_size = 0, c_shutdownRequested = False, c_workerStopped = False, c_joinClaimed = False,
      c_exporterShutdown = False, c_shutdownDrainOk = True, c_activeFlushCallers = 0,
      c_signalPending = False, c_signal = 0, c_flushRequests = r, f_next = 0, f_deadline = (\<lambda>_. 0),
      f_done = (\<lambda>_. False), f_ok = (\<lambda>_. False), m_droppedSpans = 0, m_exporter_state = e, clock = 0,
      g_sampled = 0, g_closed = 0, g_accepted = {#}, g_handed = {#}, g_snapshot = (\<lambda>_. {#})\<rparr>"

text \<open>The clock and the deadlines count the nanoseconds of \<^verbatim>\<open>steady_clock\<close>, timeouts are
  milliseconds. \<open>deadline_after\<close> is \<^verbatim>\<open>steady_clock::now() + timeout\<close>; it does not overflow for the
  timeouts the 64 bits of a time point leave room for.\<close>

definition deadline_after :: "int \<Rightarrow> milliseconds \<Rightarrow> int" where
  "deadline_after now timeout = now + timeout * 1000000"

section \<open>Producers: \<open>onEnd\<close> and \<open>tryPush\<close>\<close>

datatype producer =
    P_start Span
  | P_add Span
  | P_full_sub
  | P_check Span int
  | P_closed_sub
  | P_enqueue Span int
  | P_dropped
  | P_schedule int
  | P_notify
  | P_release
  | P_done

fun producer_step ::
  "('q, 'r, 'e) Processor \<Rightarrow> nat \<Rightarrow> producer \<Rightarrow> ('q, 'r, 'e) Batch \<Rightarrow> producer \<times> ('q, 'r, 'e) Batch" where
  "producer_step M pick (P_start s) b =
     (if \<not> SpanContext_sampled (sp_context s) then (P_done, b)
      else (P_add s, b\<lparr>g_sampled := Suc (g_sampled b)\<rparr>))"
| "producer_step M pick (P_add s) b =
     (let previous = q_size b
      in (if previous \<ge> int (queue_capacity (m_config M)) then P_full_sub else P_check s previous,
          b\<lparr>q_size := q_size b + 1\<rparr>))"
| "producer_step M pick P_full_sub b = (P_dropped, b\<lparr>q_size := q_size b - 1\<rparr>)"
| "producer_step M pick (P_check s previous) b =
     (if c_shutdownRequested b then P_closed_sub else P_enqueue s previous, b)"
| "producer_step M pick P_closed_sub b =
     (P_notify, b\<lparr>q_size := q_size b - 1, g_closed := Suc (g_closed b)\<rparr>)"
| "producer_step M pick (P_enqueue s previous) b =
     (let (ok, q) = cq_enqueue (m_queue M) pick s (q_spans b)
      in if ok then (P_schedule (previous + 1), b\<lparr>q_spans := q, g_accepted := add_mset s (g_accepted b)\<rparr>)
         else (P_full_sub, b\<lparr>q_spans := q\<rparr>))"
| "producer_step M pick P_dropped b = (P_done, b\<lparr>m_droppedSpans := Suc (m_droppedSpans b)\<rparr>)"
| "producer_step M pick (P_schedule queuedCount) b =
     (let batch = int (max_batch_size (m_config M));
          shouldNotify = (case schedule_mode (m_config M) of
             Mode_kOnEnd \<Rightarrow> True
           | Mode_kBatchSize \<Rightarrow> queuedCount \<ge> batch \<and> queuedCount - 1 < batch
           | Mode_kTimed \<Rightarrow> False)
      in (if shouldNotify then P_notify else P_done, b))"
| "producer_step M pick P_notify b =
     (if \<not> c_signalPending b then P_release else P_done, b\<lparr>c_signalPending := True\<rparr>)"
| "producer_step M pick P_release b = (P_done, b\<lparr>c_signal := Suc (c_signal b)\<rparr>)"
| "producer_step M pick P_done b = (P_done, b)"

section \<open>Flush callers: \<open>forceFlush\<close>\<close>

text \<open>Where a caller continues after it has left \<^verbatim>\<open>activeFlushCallers\<close>: with the result that the
  queue is empty, with false, or by waking the worker for its request.\<close>

datatype flush_next = Next_empty | Next_false | Next_wake nat

datatype flusher =
    F_start milliseconds
  | F_enter milliseconds
  | F_check_shutdown milliseconds
  | F_check_stopped milliseconds
  | F_request milliseconds
  | F_enqueue nat
  | F_leave flush_next
  | F_leave_check flush_next
  | F_leave_store flush_next
  | F_leave_release flush_next
  | F_continue flush_next
  | F_wake_release nat
  | F_wait nat
  | F_result nat
  | F_return "nat option" bool

fun flusher_step ::
  "('q, 'r, 'e) Processor \<Rightarrow> nat \<Rightarrow> flusher \<Rightarrow> ('q, 'r, 'e) Batch \<Rightarrow> (flusher \<times> ('q, 'r, 'e) Batch) option" where
  "flusher_step M pick (F_start timeout) b =
     Some (if timeout < 0 then F_return None False else F_enter timeout, b)"
| "flusher_step M pick (F_enter timeout) b =
     Some (F_check_shutdown timeout, b\<lparr>c_activeFlushCallers := c_activeFlushCallers b + 1\<rparr>)"
| "flusher_step M pick (F_check_shutdown timeout) b =
     Some (if c_shutdownRequested b then F_leave Next_empty else F_check_stopped timeout, b)"
| "flusher_step M pick (F_check_stopped timeout) b =
     Some (if c_workerStopped b then F_leave Next_empty else F_request timeout, b)"
| "flusher_step M pick (F_request timeout) b =
     (let r = f_next b
      in Some (F_enqueue r,
           b\<lparr>f_next := Suc r, f_deadline := (f_deadline b)(r := deadline_after (clock b) timeout),
             f_done := (f_done b)(r := False), f_ok := (f_ok b)(r := False),
             g_snapshot := (g_snapshot b)(r := g_accepted b)\<rparr>))"
| "flusher_step M pick (F_enqueue r) b =
     (let (ok, q) = cq_enqueue (m_requests M) pick r (c_flushRequests b)
      in Some (F_leave (if ok then Next_wake r else Next_false), b\<lparr>c_flushRequests := q\<rparr>))"
| "flusher_step M pick (F_leave k) b =
     Some (if c_activeFlushCallers b = 1 then F_leave_check k else F_continue k,
           b\<lparr>c_activeFlushCallers := c_activeFlushCallers b - 1\<rparr>)"
| "flusher_step M pick (F_leave_check k) b =
     Some (if c_shutdownRequested b then F_leave_store k else F_continue k, b)"
| "flusher_step M pick (F_leave_store k) b = Some (F_leave_release k, b\<lparr>c_signalPending := True\<rparr>)"
| "flusher_step M pick (F_leave_release k) b = Some (F_continue k, b\<lparr>c_signal := Suc (c_signal b)\<rparr>)"
| "flusher_step M pick (F_continue Next_empty) b = Some (F_return None (q_size b = 0), b)"
| "flusher_step M pick (F_continue Next_false) b = Some (F_return None False, b)"
| "flusher_step M pick (F_continue (Next_wake r)) b = Some (F_wake_release r, b\<lparr>c_signalPending := True\<rparr>)"
| "flusher_step M pick (F_wake_release r) b = Some (F_wait r, b\<lparr>c_signal := Suc (c_signal b)\<rparr>)"
| "flusher_step M pick (F_wait r) b =
     (if f_done b r then Some (F_result r, b\<lparr>f_done := (f_done b)(r := False)\<rparr>)
      else if clock b \<ge> f_deadline b r then Some (F_return (Some r) False, b)
      else None)"
| "flusher_step M pick (F_result r) b = Some (F_return (Some r) (f_ok b r), b)"
| "flusher_step M pick (F_return r ok) b = None"

section \<open>Shutdown callers\<close>

datatype closer =
    S_start milliseconds
  | S_store milliseconds int
  | S_wake_store milliseconds int
  | S_wake_release milliseconds int
  | S_claim milliseconds int
  | S_join milliseconds int
  | S_spin milliseconds int
  | S_stopped milliseconds int
  | S_drain milliseconds int bool
  | S_claim_exporter milliseconds int bool
  | S_exporter milliseconds int bool
  | S_deadline int bool
  | S_return bool

text \<open>The destructor shuts down with a timeout of half a second.\<close>

definition BatchSpanProcessor_destroy :: closer where
  "BatchSpanProcessor_destroy = S_start 500"

text \<open>\<open>worker_done\<close> says whether the worker thread has run to its end, for which \<^verbatim>\<open>join\<close> waits. The
  thread is joinable for the caller that claims the join.\<close>

fun closer_step ::
  "('q, 'r, 'e) Processor \<Rightarrow> bool \<Rightarrow> closer \<Rightarrow> ('q, 'r, 'e) Batch \<Rightarrow> (closer \<times> ('q, 'r, 'e) Batch) option" where
  "closer_step M worker_done (S_start timeout) b = Some (S_store timeout (deadline_after (clock b) timeout), b)"
| "closer_step M worker_done (S_store timeout deadline) b =
     Some (S_wake_store timeout deadline, b\<lparr>c_shutdownRequested := True\<rparr>)"
| "closer_step M worker_done (S_wake_store timeout deadline) b =
     Some (S_wake_release timeout deadline, b\<lparr>c_signalPending := True\<rparr>)"
| "closer_step M worker_done (S_wake_release timeout deadline) b =
     Some (S_claim timeout deadline, b\<lparr>c_signal := Suc (c_signal b)\<rparr>)"
| "closer_step M worker_done (S_claim timeout deadline) b =
     Some (if \<not> c_joinClaimed b then S_join timeout deadline else S_spin timeout deadline,
           b\<lparr>c_joinClaimed := True\<rparr>)"
| "closer_step M worker_done (S_join timeout deadline) b =
     (if worker_done then Some (S_drain timeout deadline True, b) else None)"
| "closer_step M worker_done (S_spin timeout deadline) b =
     Some (if \<not> c_workerStopped b \<and> clock b \<le> deadline then S_spin timeout deadline
           else S_stopped timeout deadline, b)"
| "closer_step M worker_done (S_stopped timeout deadline) b =
     Some (S_drain timeout deadline (c_workerStopped b), b)"
| "closer_step M worker_done (S_drain timeout deadline ok) b =
     Some (S_claim_exporter timeout deadline (c_shutdownDrainOk b \<and> ok), b)"
| "closer_step M worker_done (S_claim_exporter timeout deadline ok) b =
     (if m_exporter M \<noteq> None
      then Some (if \<not> c_exporterShutdown b then S_exporter timeout deadline ok else S_deadline deadline ok,
                 b\<lparr>c_exporterShutdown := True\<rparr>)
      else Some (S_deadline deadline ok, b))"
| "closer_step M worker_done (S_exporter timeout deadline ok) b =
     (case m_exporter M of
        Some x \<Rightarrow>
          (let (done, e) = shutdown x timeout (m_exporter_state b)
           in Some (S_deadline deadline (done \<and> ok), b\<lparr>m_exporter_state := e\<rparr>))
      | None \<Rightarrow> None)"
| "closer_step M worker_done (S_deadline deadline ok) b = Some (S_return (ok \<and> clock b \<le> deadline), b)"
| "closer_step M worker_done (S_return ok) b = None"

section \<open>The worker\<close>

text \<open>The call sites of \<^verbatim>\<open>completeFlushRequests\<close>: at the top of the loop (with the values of
  \<^verbatim>\<open>intervalElapsed\<close> and \<^verbatim>\<open>shutdownRequested\<close>), after the shutdown drain, and in the last
  condition (with \<^verbatim>\<open>shutdownOk\<close>).\<close>

datatype flush_site = Site_main bool bool | Site_drained bool | Site_final bool

text \<open>The loops that take batches from the queue: \<^verbatim>\<open>drainReadyBatches\<close> (with \<^verbatim>\<open>drainPartial\<close>) and
  \<^verbatim>\<open>drainUntilIdle\<close>, for a flush request or for the shutdown.\<close>

datatype drain_site = Drain_ready bool | Drain_flush nat flush_site | Drain_shutdown

datatype worker =
    W_wait
  | W_clear
  | W_load bool
  | W_flush flush_site bool
  | W_clock drain_site bool
  | W_size drain_site bool bool
  | W_take drain_site bool bool
  | W_sub drain_site bool "Span list"
  | W_export drain_site bool "Span list"
  | W_empty drain_site bool bool
  | W_idle drain_site bool
  | W_idle_clear drain_site bool
  | W_drained drain_site bool
  | W_flush_exporter nat flush_site bool
  | W_flush_ok nat flush_site bool
  | W_flush_release nat flush_site
  | W_callers bool
  | W_final_empty bool
  | W_final_exporter bool
  | W_final_store bool
  | W_partial bool
  | W_ready bool bool
  | W_ready_empty bool bool
  | W_stop
  | W_stopped

text \<open>\<^verbatim>\<open>time_point::max()\<close> is no deadline.\<close>

definition drain_in_time :: "('q, 'r, 'e) Batch \<Rightarrow> drain_site \<Rightarrow> bool" where
  "drain_in_time b site = (case site of Drain_flush r _ \<Rightarrow> clock b \<le> f_deadline b r | _ \<Rightarrow> True)"

text \<open>\<^verbatim>\<open>duration_cast\<close> to milliseconds rounds towards zero; the difference is positive here.\<close>

definition remainingTimeout :: "int \<Rightarrow> int \<Rightarrow> milliseconds" where
  "remainingTimeout now deadline = (if now \<ge> deadline then 0 else (deadline - now) div 1000000)"

definition exportBatch ::
  "('q, 'r, 'e) Processor \<Rightarrow> Span list \<Rightarrow> ('q, 'r, 'e) Batch \<Rightarrow> bool \<times> ('q, 'r, 'e) Batch" where
  "exportBatch M spans b =
     (case m_exporter M of
        None \<Rightarrow> (True, b)
      | Some x \<Rightarrow>
          if spans = [] then (True, b)
          else
            let (result, e) = exportSpans x spans (m_exporter_state b)
            in (result = Export_kSuccess, b\<lparr>m_exporter_state := e\<rparr>))"

definition exporterFlush ::
  "('q, 'r, 'e) Processor \<Rightarrow> milliseconds \<Rightarrow> ('q, 'r, 'e) Batch \<Rightarrow> bool \<times> ('q, 'r, 'e) Batch" where
  "exporterFlush M timeout b =
     (case m_exporter M of
        None \<Rightarrow> (True, b)
      | Some x \<Rightarrow>
          let (ok, e) = forceFlush x timeout (m_exporter_state b) in (ok, b\<lparr>m_exporter_state := e\<rparr>))"

text \<open>Where \<^verbatim>\<open>completeFlushRequests\<close> returns to, with \<^verbatim>\<open>completedAny\<close>.\<close>

fun after_flushes :: "flush_site \<Rightarrow> bool \<Rightarrow> worker" where
  "after_flushes (Site_main intervalElapsed shutdownRequested) completedAny =
     (if completedAny then W_wait
      else if shutdownRequested then W_clock Drain_shutdown True
      else W_partial intervalElapsed)"
| "after_flushes (Site_drained shutdownOk) completedAny = W_callers shutdownOk"
| "after_flushes (Site_final shutdownOk) completedAny =
     (if completedAny then W_wait else W_final_exporter shutdownOk)"

text \<open>\<open>pick\<close> is the choice of the queues; \<open>timeout\<close> says that a wait for the semaphore gives up.\<close>

fun worker_step ::
  "('q, 'r, 'e) Processor \<Rightarrow> nat \<Rightarrow> bool \<Rightarrow> worker \<Rightarrow> ('q, 'r, 'e) Batch \<Rightarrow> worker \<times> ('q, 'r, 'e) Batch" where
  "worker_step M pick timeout W_wait b =
     (if c_signal b = 0 \<or> timeout then (W_load True, b) else (W_clear, b\<lparr>c_signal := c_signal b - 1\<rparr>))"
| "worker_step M pick timeout W_clear b = (W_load False, b\<lparr>c_signalPending := False\<rparr>)"
| "worker_step M pick timeout (W_load intervalElapsed) b =
     (W_flush (Site_main intervalElapsed (c_shutdownRequested b)) False, b)"
| "worker_step M pick timeout (W_flush site completedAny) b =
     (let (rs, q) = cq_try_dequeue_bulk (m_requests M) pick 1 (c_flushRequests b)
      in (case rs of
            [] \<Rightarrow> after_flushes site completedAny
          | r # _ \<Rightarrow> W_clock (Drain_flush r site) True,
          b\<lparr>c_flushRequests := q\<rparr>))"
| "worker_step M pick timeout (W_clock site ok) b =
     (if drain_in_time b site then W_size site ok False else W_drained site ok, b)"
| "worker_step M pick timeout (W_size site ok exportedAny) b =
     (if max_batch_size (m_config M) = 0 \<or> q_size b = 0
      then (case site of Drain_ready _ \<Rightarrow> W_wait | _ \<Rightarrow> W_empty site ok exportedAny)
      else W_take site ok exportedAny, b)"
| "worker_step M pick timeout (W_take site ok exportedAny) b =
     (let (batch, q) = cq_try_dequeue_bulk (m_queue M) pick (max_batch_size (m_config M)) (q_spans b)
      in (if batch \<noteq> [] then W_sub site ok batch
          else (case site of Drain_ready _ \<Rightarrow> W_wait | _ \<Rightarrow> W_empty site ok exportedAny),
          b\<lparr>q_spans := q\<rparr>))"
| "worker_step M pick timeout (W_sub site ok batch) b =
     (W_export site ok batch, b\<lparr>q_size := q_size b - int (length batch)\<rparr>)"
| "worker_step M pick timeout (W_export site ok batch) b =
     (let (success, b') = exportBatch M batch b;
          ok' = (success \<and> ok)
      in (case site of Drain_ready drainPartial \<Rightarrow> W_ready drainPartial ok' | _ \<Rightarrow> W_size site ok' True,
          b'\<lparr>g_handed := g_handed b' + mset batch\<rparr>))"
| "worker_step M pick timeout (W_empty site ok exportedAny) b =
     (if q_size b = 0 then W_drained site ok
      else if \<not> exportedAny then W_idle site ok else W_clock site ok, b)"
| "worker_step M pick timeout (W_idle site ok) b =
     (if c_signal b = 0 \<or> timeout then (W_clock site ok, b)
      else (W_idle_clear site ok, b\<lparr>c_signal := c_signal b - 1\<rparr>))"
| "worker_step M pick timeout (W_idle_clear site ok) b = (W_clock site ok, b\<lparr>c_signalPending := False\<rparr>)"
| "worker_step M pick timeout (W_drained site ok) b =
     (let ok' = (ok \<and> drain_in_time b site)
      in (case site of
            Drain_flush r fs \<Rightarrow> W_flush_exporter r fs ok'
          | Drain_shutdown \<Rightarrow> W_flush (Site_drained ok') False
          | Drain_ready _ \<Rightarrow> W_wait, b))"
| "worker_step M pick timeout (W_flush_exporter r site ok) b =
     (let (flushed, b') = exporterFlush M (remainingTimeout (clock b) (f_deadline b r)) b
      in (W_flush_ok r site (flushed \<and> ok), b'))"
| "worker_step M pick timeout (W_flush_ok r site ok) b =
     (W_flush_release r site, b\<lparr>f_ok := (f_ok b)(r := ok)\<rparr>)"
| "worker_step M pick timeout (W_flush_release r site) b =
     (W_flush site True, b\<lparr>f_done := (f_done b)(r := True)\<rparr>)"
| "worker_step M pick timeout (W_callers shutdownOk) b =
     (if c_activeFlushCallers b = 0 then W_final_empty shutdownOk else W_wait, b)"
| "worker_step M pick timeout (W_final_empty shutdownOk) b =
     (if q_size b = 0 then W_flush (Site_final shutdownOk) False else W_wait, b)"
| "worker_step M pick timeout (W_final_exporter shutdownOk) b =
     (let (flushed, b') = exporterFlush M 0 b in (W_final_store (flushed \<and> shutdownOk), b'))"
| "worker_step M pick timeout (W_final_store shutdownOk) b = (W_stop, b\<lparr>c_shutdownDrainOk := shutdownOk\<rparr>)"
| "worker_step M pick timeout (W_partial intervalElapsed) b =
     (let drainPartial = (intervalElapsed \<or> schedule_mode (m_config M) = Mode_kOnEnd)
      in (if \<not> drainPartial \<and> q_size b < int (max_batch_size (m_config M)) then W_wait
          else W_ready drainPartial True, b))"
| "worker_step M pick timeout (W_ready drainPartial ok) b =
     (if q_size b \<ge> int (max_batch_size (m_config M)) then W_size (Drain_ready drainPartial) ok False
      else if drainPartial then W_ready_empty drainPartial ok
      else W_wait, b)"
| "worker_step M pick timeout (W_ready_empty drainPartial ok) b =
     (if q_size b = 0 then W_wait else W_size (Drain_ready drainPartial) ok False, b)"
| "worker_step M pick timeout W_stop b = (W_stopped, b\<lparr>c_workerStopped := True\<rparr>)"
| "worker_step M pick timeout W_stopped b = (W_stopped, b)"

section \<open>Interleaving\<close>

record ('q, 'r, 'e) System =
  shared :: "('q, 'r, 'e) Batch"
  producers :: "producer multiset"
  flushers :: "flusher multiset"
  closers :: "closer multiset"
  worker_pc :: worker

definition System_init :: "'q \<Rightarrow> 'r \<Rightarrow> 'e \<Rightarrow> ('q, 'r, 'e) System" where
  "System_init q r e =
     \<lparr>shared = Batch_init q r e, producers = {#}, flushers = {#}, closers = {#}, worker_pc = W_wait\<rparr>"

inductive batch_step ::
  "('q, 'r, 'e) Processor \<Rightarrow> ('q, 'r, 'e) System \<Rightarrow> ('q, 'r, 'e) System \<Rightarrow> bool" for M where
  call_onEnd: "batch_step M s (s\<lparr>producers := add_mset (P_start x) (producers s)\<rparr>)"
| call_forceFlush: "batch_step M s (s\<lparr>flushers := add_mset (F_start timeout) (flushers s)\<rparr>)"
| call_shutdown: "batch_step M s (s\<lparr>closers := add_mset (S_start timeout) (closers s)\<rparr>)"
| producer: "producers s = add_mset p P \<Longrightarrow> producer_step M pick p (shared s) = (p', b) \<Longrightarrow>
     batch_step M s (s\<lparr>shared := b, producers := add_mset p' P\<rparr>)"
| flusher: "flushers s = add_mset f F \<Longrightarrow> flusher_step M pick f (shared s) = Some (f', b) \<Longrightarrow>
     batch_step M s (s\<lparr>shared := b, flushers := add_mset f' F\<rparr>)"
| closer: "closers s = add_mset c C \<Longrightarrow>
     closer_step M (worker_pc s = W_stopped) c (shared s) = Some (c', b) \<Longrightarrow>
     batch_step M s (s\<lparr>shared := b, closers := add_mset c' C\<rparr>)"
| worker: "worker_step M pick timeout (worker_pc s) (shared s) = (w, b) \<Longrightarrow>
     batch_step M s (s\<lparr>shared := b, worker_pc := w\<rparr>)"
| tick: "now \<ge> clock (shared s) \<Longrightarrow> batch_step M s (s\<lparr>shared := (shared s)\<lparr>clock := now\<rparr>\<rparr>)"

inductive_cases batch_stepE: "batch_step M s s'"

text \<open>The destructor is one of the shutdown calls.\<close>

lemma call_destructor:
  "batch_step M s (s\<lparr>closers := add_mset BatchSpanProcessor_destroy (closers s)\<rparr>)"
  unfolding BatchSpanProcessor_destroy_def by (rule batch_step.call_shutdown)

definition reachable ::
  "('q, 'r, 'e) Processor \<Rightarrow> 'q \<Rightarrow> 'r \<Rightarrow> 'e \<Rightarrow> ('q, 'r, 'e) System \<Rightarrow> bool" where
  "reachable M q r e s \<longleftrightarrow> (batch_step M)\<^sup>*\<^sup>* (System_init q r e) s"

section \<open>Facts on the parameters\<close>

lemma enqueue_contents:
  "queue_ok Q \<Longrightarrow> cq_enqueue Q pick x q = (ok, q') \<Longrightarrow>
     cq_contents Q q' = (if ok then add_mset x (cq_contents Q q) else cq_contents Q q)"
  unfolding queue_ok_def by (metis fst_conv snd_conv)

lemma dequeue_contents:
  "queue_ok Q \<Longrightarrow> cq_try_dequeue_bulk Q pick n q = (xs, q') \<Longrightarrow>
     cq_contents Q q = mset xs + cq_contents Q q' \<and> length xs \<le> n"
  unfolding queue_ok_def by (metis fst_conv snd_conv)

lemma exportBatch_frame: "exportBatch M xs b = (ok, b') \<Longrightarrow> \<exists>e. b' = b\<lparr>m_exporter_state := e\<rparr>"
  by (rule exI [of _ "m_exporter_state b'"])
    (auto simp: exportBatch_def Let_def split: option.splits if_splits prod.splits)

lemma exporterFlush_frame: "exporterFlush M n b = (ok, b') \<Longrightarrow> \<exists>e. b' = b\<lparr>m_exporter_state := e\<rparr>"
  by (rule exI [of _ "m_exporter_state b'"])
    (auto simp: exporterFlush_def Let_def split: option.splits prod.splits)

lemmas exporter_frames = exportBatch_frame exporterFlush_frame

section \<open>Conservation\<close>

text \<open>The producers that have counted their span in \<^verbatim>\<open>size\<close> and not yet queued it or given up.\<close>

fun reserved :: "producer \<Rightarrow> bool" where
  "reserved P_full_sub = True"
| "reserved (P_check _ _) = True"
| "reserved P_closed_sub = True"
| "reserved (P_enqueue _ _) = True"
| "reserved _ = False"

text \<open>The spans the worker has taken and not yet handed to the exporter, and those it has not yet
  subtracted from \<^verbatim>\<open>size\<close>.\<close>

fun worker_batch :: "worker \<Rightarrow> Span list" where
  "worker_batch (W_sub _ _ batch) = batch"
| "worker_batch (W_export _ _ batch) = batch"
| "worker_batch _ = []"

fun worker_unsub :: "worker \<Rightarrow> Span list" where
  "worker_unsub (W_sub _ _ batch) = batch"
| "worker_unsub _ = []"

abbreviation queued :: "('q, 'r, 'e) Processor \<Rightarrow> ('q, 'r, 'e) System \<Rightarrow> Span multiset" where
  "queued M s \<equiv> cq_contents (m_queue M) (q_spans (shared s))"

definition conserved :: "('q, 'r, 'e) Processor \<Rightarrow> ('q, 'r, 'e) System \<Rightarrow> bool" where
  "conserved M s \<longleftrightarrow>
     g_accepted (shared s) = g_handed (shared s) + mset (worker_batch (worker_pc s)) + queued M s \<and>
     q_size (shared s) = int (size (queued M s)) + int (size (filter_mset reserved (producers s))) +
       int (length (worker_unsub (worker_pc s)))"

lemma after_flushes_batch [simp]:
  "worker_batch (after_flushes site c) = []" "worker_unsub (after_flushes site c) = []"
  by (cases site; simp)+

lemma conserved_init: "cq_contents (m_queue M) q = {#} \<Longrightarrow> conserved M (System_init q r e)"
  by (simp add: conserved_def System_init_def Batch_init_def)

lemma conserved_producer:
  assumes "queue_ok (m_queue M)" and "producers s = add_mset p P"
    and "producer_step M pick p (shared s) = (p', b)" and "conserved M s"
  shows "conserved M (s\<lparr>shared := b, producers := add_mset p' P\<rparr>)"
  using assms(2-)
  by (cases p) (auto simp: conserved_def Let_def enqueue_contents [OF assms(1)]
      split: prod.splits if_splits)

lemma conserved_flusher:
  assumes "flusher_step M pick f (shared s) = Some (f', b)" and "conserved M s"
  shows "conserved M (s\<lparr>shared := b, flushers := add_mset f' F\<rparr>)"
proof (cases f)
  case (F_continue k)
  then show ?thesis using assms by (cases k) (auto simp: conserved_def)
qed (use assms in \<open>auto simp: conserved_def Let_def split: prod.splits if_splits\<close>)

lemma conserved_closer:
  assumes "closer_step M d c (shared s) = Some (c', b)" and "conserved M s"
  shows "conserved M (s\<lparr>shared := b, closers := add_mset c' C\<rparr>)"
  using assms by (cases c) (auto simp: conserved_def Let_def split: prod.splits if_splits option.splits)

lemma conserved_worker:
  assumes "queue_ok (m_queue M)"
    and "worker_step M pick timeout (worker_pc s) (shared s) = (w, b)" and "conserved M s"
  shows "conserved M (s\<lparr>shared := b, worker_pc := w\<rparr>)"
proof (cases "worker_pc s")
  case (W_take site ok exportedAny)
  then show ?thesis
    using assms(2,3)
    by (auto simp: conserved_def Let_def dest!: dequeue_contents [OF assms(1)] split: prod.splits drain_site.splits if_splits)
next
  case (W_export site ok batch)
  then show ?thesis
    using assms(2,3)
    by (auto simp: conserved_def Let_def dest!: exporter_frames split: prod.splits drain_site.splits)
qed (use assms(2,3) in \<open>auto simp: conserved_def Let_def dest!: exporter_frames
       split: prod.splits if_splits list.splits drain_site.splits\<close>)

lemma conserved_step:
  assumes "batch_step M s s'" and "queue_ok (m_queue M)" and "conserved M s"
  shows "conserved M s'"
  using assms(1)
proof (cases rule: batch_step.cases)
  case (producer p P pick p' b)
  then show ?thesis using conserved_producer assms(2,3) by blast
next
  case (flusher f F pick f' b)
  then show ?thesis using conserved_flusher assms(3) by blast
next
  case (closer c C c' b)
  then show ?thesis using conserved_closer assms(3) by blast
next
  case (worker pick timeout w b)
  then show ?thesis using conserved_worker assms(2,3) by blast
qed (use assms(3) in \<open>simp_all add: conserved_def\<close>)

section \<open>Capacity and accounting\<close>

text \<open>Producers that may still add their span, and producers whose span is not yet accounted for.\<close>

fun admitted :: "producer \<Rightarrow> bool" where
  "admitted (P_check _ _) = True"
| "admitted (P_enqueue _ _) = True"
| "admitted _ = False"

fun undecided :: "producer \<Rightarrow> bool" where
  "undecided (P_add _) = True"
| "undecided P_full_sub = True"
| "undecided (P_check _ _) = True"
| "undecided P_closed_sub = True"
| "undecided (P_enqueue _ _) = True"
| "undecided P_dropped = True"
| "undecided _ = False"

fun carries_sampled :: "producer \<Rightarrow> bool" where
  "carries_sampled (P_add s) = SpanContext_sampled (sp_context s)"
| "carries_sampled (P_check s _) = SpanContext_sampled (sp_context s)"
| "carries_sampled (P_enqueue s _) = SpanContext_sampled (sp_context s)"
| "carries_sampled _ = True"

definition accounted :: "('q, 'r, 'e) Processor \<Rightarrow> ('q, 'r, 'e) System \<Rightarrow> bool" where
  "accounted M s \<longleftrightarrow>
     size (queued M s) + size (filter_mset admitted (producers s)) + length (worker_unsub (worker_pc s))
       \<le> queue_capacity (m_config M) \<and>
     g_sampled (shared s) =
       size (g_accepted (shared s)) + m_droppedSpans (shared s) + g_closed (shared s) +
       size (filter_mset undecided (producers s)) \<and>
     (\<forall>p \<in># producers s. carries_sampled p) \<and>
     (\<forall>x \<in># g_accepted (shared s). SpanContext_sampled (sp_context x))"

lemma admitted_reserved: "size (filter_mset admitted P) \<le> size (filter_mset reserved P)"
proof -
  have "admitted p \<Longrightarrow> reserved p" for p by (cases p) simp_all
  then show ?thesis by (induction P) (auto intro: le_SucI)
qed

lemma accounted_init: "cq_contents (m_queue M) q = {#} \<Longrightarrow> accounted M (System_init q r e)"
  by (simp add: accounted_def System_init_def Batch_init_def)

lemma accounted_producer_add:
  assumes "producers s = add_mset (P_add x) P" and "producer_step M pick (P_add x) (shared s) = (p', b)"
    and "conserved M s" and "accounted M s"
  shows "accounted M (s\<lparr>shared := b, producers := add_mset p' P\<rparr>)"
  using assms admitted_reserved [of P]
  by (clarsimp simp: accounted_def conserved_def Let_def split: if_splits; linarith)

lemma accounted_producer:
  assumes "queue_ok (m_queue M)" and "producers s = add_mset p P"
    and "producer_step M pick p (shared s) = (p', b)" and "conserved M s" and "accounted M s"
  shows "accounted M (s\<lparr>shared := b, producers := add_mset p' P\<rparr>)"
proof (cases p)
  case (P_add x)
  then show ?thesis using accounted_producer_add assms by blast
qed (use assms(2,3,5) in \<open>auto simp: accounted_def Let_def enqueue_contents [OF assms(1)] split: prod.splits if_splits\<close>)

lemma accounted_flusher:
  assumes "flusher_step M pick f (shared s) = Some (f', b)" and "accounted M s"
  shows "accounted M (s\<lparr>shared := b, flushers := add_mset f' F\<rparr>)"
proof (cases f)
  case (F_continue k)
  then show ?thesis using assms by (cases k) (auto simp: accounted_def)
qed (use assms in \<open>auto simp: accounted_def Let_def split: prod.splits if_splits\<close>)

lemma accounted_closer:
  assumes "closer_step M d c (shared s) = Some (c', b)" and "accounted M s"
  shows "accounted M (s\<lparr>shared := b, closers := add_mset c' C\<rparr>)"
  using assms by (cases c) (auto simp: accounted_def Let_def split: prod.splits if_splits option.splits)

lemma accounted_worker:
  assumes "queue_ok (m_queue M)"
    and "worker_step M pick timeout (worker_pc s) (shared s) = (w, b)" and "accounted M s"
  shows "accounted M (s\<lparr>shared := b, worker_pc := w\<rparr>)"
proof (cases "worker_pc s")
  case (W_take site ok exportedAny)
  then show ?thesis
    using assms(2,3)
    by (auto simp: accounted_def Let_def dest!: dequeue_contents [OF assms(1)] split: prod.splits drain_site.splits if_splits)
qed (use assms(2,3) in \<open>auto simp: accounted_def Let_def dest!: exporter_frames
       split: prod.splits if_splits list.splits drain_site.splits\<close>)

lemma accounted_step:
  assumes "batch_step M s s'" and "queue_ok (m_queue M)" and "conserved M s" and "accounted M s"
  shows "accounted M s'"
  using assms(1)
proof (cases rule: batch_step.cases)
  case (producer p P pick p' b)
  then show ?thesis using accounted_producer assms(2-) by blast
next
  case (flusher f F pick f' b)
  then show ?thesis using accounted_flusher assms(4) by blast
next
  case (closer c C c' b)
  then show ?thesis using accounted_closer assms(4) by blast
next
  case (worker pick timeout w b)
  then show ?thesis using accounted_worker assms(2,4) by blast
qed (use assms(4) in \<open>simp_all add: accounted_def\<close>)

section \<open>Closing\<close>

text \<open>Program points the worker reaches only after it has seen the shutdown request, and those it
  reaches only after it has then seen the queue empty.\<close>

fun site_saw :: "flush_site \<Rightarrow> bool" where
  "site_saw (Site_main _ shutdownRequested) = shutdownRequested"
| "site_saw _ = True"

fun drain_saw :: "drain_site \<Rightarrow> bool" where
  "drain_saw (Drain_ready _) = False"
| "drain_saw (Drain_flush _ site) = site_saw site"
| "drain_saw Drain_shutdown = True"

fun final_site :: "flush_site \<Rightarrow> bool" where
  "final_site (Site_final _) = True"
| "final_site _ = False"

fun final_drain :: "drain_site \<Rightarrow> bool" where
  "final_drain (Drain_flush _ site) = final_site site"
| "final_drain _ = False"

fun worker_at :: "(flush_site \<Rightarrow> bool) \<Rightarrow> (drain_site \<Rightarrow> bool) \<Rightarrow> worker \<Rightarrow> bool" where
  "worker_at F D (W_flush site _) = F site"
| "worker_at F D (W_clock site _) = D site"
| "worker_at F D (W_size site _ _) = D site"
| "worker_at F D (W_take site _ _) = D site"
| "worker_at F D (W_sub site _ _) = D site"
| "worker_at F D (W_export site _ _) = D site"
| "worker_at F D (W_empty site _ _) = D site"
| "worker_at F D (W_idle site _) = D site"
| "worker_at F D (W_idle_clear site _) = D site"
| "worker_at F D (W_drained site _) = D site"
| "worker_at F D (W_flush_exporter _ site _) = F site"
| "worker_at F D (W_flush_ok _ site _) = F site"
| "worker_at F D (W_flush_release _ site) = F site"
| "worker_at F D (W_final_exporter _) = True"
| "worker_at F D (W_final_store _) = True"
| "worker_at F D W_stop = True"
| "worker_at F D W_stopped = True"
| "worker_at F D _ = False"

definition saw_shutdown :: "worker \<Rightarrow> bool" where
  "saw_shutdown w \<longleftrightarrow> worker_at site_saw drain_saw w \<or> (\<exists>ok. w = W_callers ok \<or> w = W_final_empty ok)"

definition saw_empty :: "worker \<Rightarrow> bool" where
  "saw_empty w \<longleftrightarrow> worker_at final_site final_drain w"

text \<open>Shutdown callers whose result is still true after they waited for the worker.\<close>

fun closer_ok :: "closer \<Rightarrow> bool" where
  "closer_ok (S_drain _ _ ok) = ok"
| "closer_ok (S_claim_exporter _ _ ok) = ok"
| "closer_ok (S_exporter _ _ ok) = ok"
| "closer_ok (S_deadline _ ok) = ok"
| "closer_ok (S_return ok) = ok"
| "closer_ok _ = False"

definition closing :: "('q, 'r, 'e) Processor \<Rightarrow> ('q, 'r, 'e) System \<Rightarrow> bool" where
  "closing M s \<longleftrightarrow>
     (saw_shutdown (worker_pc s) \<longrightarrow> c_shutdownRequested (shared s)) \<and>
     (saw_empty (worker_pc s) \<longrightarrow>
        c_shutdownRequested (shared s) \<and> (\<forall>x n. P_enqueue x n \<notin># producers s) \<and> queued M s = {#} \<and>
        worker_batch (worker_pc s) = []) \<and>
     (c_workerStopped (shared s) \<longleftrightarrow> worker_pc s = W_stopped) \<and>
     (\<forall>c \<in># closers s. closer_ok c \<longrightarrow> worker_pc s = W_stopped)"

lemma closing_init: "closing M (System_init q r e)"
  by (simp add: closing_def System_init_def Batch_init_def saw_shutdown_def saw_empty_def)

lemma producer_step_frame:
  assumes "producer_step M pick p b = (p', b')"
  shows "c_shutdownRequested b' = c_shutdownRequested b" "c_workerStopped b' = c_workerStopped b"
    "(\<And>x n. p \<noteq> P_enqueue x n) \<Longrightarrow> q_spans b' = q_spans b"
    "p' = P_enqueue x n \<Longrightarrow> \<not> c_shutdownRequested b"
  using assms by (cases p; auto simp: Let_def split: prod.splits if_splits)+

lemma closing_producer:
  assumes "queue_ok (m_queue M)" and "producers s = add_mset p P"
    and "producer_step M pick p (shared s) = (p', b)" and "closing M s"
  shows "closing M (s\<lparr>shared := b, producers := add_mset p' P\<rparr>)"
proof -
  note frame = producer_step_frame [OF assms(3)]
  have "saw_empty (worker_pc s) \<Longrightarrow> q_spans b = q_spans (shared s)"
    using frame(3) assms(2,4) unfolding closing_def by auto
  then show ?thesis
    using assms(2,4) frame(1,2,4) unfolding closing_def by auto
qed

lemma flusher_closing_frame:
  assumes "flusher_step M pick f b = Some (f', b')"
  shows "c_shutdownRequested b' = c_shutdownRequested b" "c_workerStopped b' = c_workerStopped b"
    "q_spans b' = q_spans b"
  using assms by (induction M pick f b rule: flusher_step.induct) (auto simp: Let_def split: prod.splits if_splits)

lemma closing_flusher:
  assumes "flusher_step M pick f (shared s) = Some (f', b)" and "closing M s"
  shows "closing M (s\<lparr>shared := b, flushers := add_mset f' F\<rparr>)"
  using assms(2) flusher_closing_frame [OF assms(1)] by (simp add: closing_def)

lemma closer_step_frame:
  assumes "closer_step M d c b = Some (c', b')"
  shows "q_spans b' = q_spans b" "c_workerStopped b' = c_workerStopped b"
    "c_shutdownRequested b \<Longrightarrow> c_shutdownRequested b'"
    "closer_ok c' \<Longrightarrow> closer_ok c \<or> d \<or> c_workerStopped b"
  using assms by (cases c; auto simp: Let_def split: prod.splits if_splits option.splits)+

lemma closing_closer:
  assumes "closers s = add_mset c C" and "closer_step M (worker_pc s = W_stopped) c (shared s) = Some (c', b)"
    and "closing M s"
  shows "closing M (s\<lparr>shared := b, closers := add_mset c' C\<rparr>)"
  using assms(1,3) closer_step_frame [OF assms(2)] unfolding closing_def by auto

lemma final_sites: "final_site site \<Longrightarrow> site_saw site" "final_drain d \<Longrightarrow> drain_saw d"
  by (cases site; simp) (cases d; simp; metis final_site.elims(2) site_saw.simps(3))

lemma conserved_empty:
  assumes "conserved M s" and "q_size (shared s) = 0"
  shows "queued M s = {#}" and "P_enqueue x n \<notin># producers s" and "worker_unsub (worker_pc s) = []"
proof -
  have *: "size (queued M s) = 0" "size (filter_mset reserved (producers s)) = 0"
    "length (worker_unsub (worker_pc s)) = 0"
    using assms unfolding conserved_def by linarith+
  then show "queued M s = {#}" "worker_unsub (worker_pc s) = []" by simp_all
  from *(2) have "filter_mset reserved (producers s) = {#}" by simp
  then show "P_enqueue x n \<notin># producers s" by (auto simp: filter_mset_eq_mempty_iff)
qed

lemma after_flushes_at:
  "worker_at F D (after_flushes site c) \<longleftrightarrow>
     (case site of
        Site_main _ shutdownRequested \<Rightarrow> \<not> c \<and> shutdownRequested \<and> D Drain_shutdown
      | Site_drained _ \<Rightarrow> False
      | Site_final _ \<Rightarrow> \<not> c)"
  by (cases site) simp_all

lemma after_flushes_stopped [simp]: "after_flushes site c \<noteq> W_stopped" "after_flushes site c \<noteq> W_stop"
  by (cases site; simp)+

lemma worker_step_frame:
  assumes "worker_step M pick timeout w b = (w', b')"
  shows "c_shutdownRequested b' = c_shutdownRequested b"
    "c_workerStopped b' = (c_workerStopped b \<or> w = W_stop)" "w' = W_stopped \<longleftrightarrow> w = W_stop \<or> w = W_stopped"
    "(\<And>site ok c. w \<noteq> W_take site ok c) \<Longrightarrow> q_spans b' = q_spans b"
  using assms
  by (cases w; auto simp: Let_def dest!: exporter_frames split: prod.splits if_splits list.splits drain_site.splits)+

lemma worker_step_saw_shutdown:
  assumes "worker_step M pick timeout w b = (w', b')" and "saw_shutdown w'"
  shows "saw_shutdown w \<or> c_shutdownRequested b"
proof (cases w)
  case (W_flush site c)
  then show ?thesis
    using assms by (cases site) (auto simp: saw_shutdown_def Let_def split: prod.splits list.splits if_splits)
next
  case (W_drained site ok)
  then show ?thesis using assms by (cases site) (auto simp: saw_shutdown_def Let_def)
qed (use assms in \<open>auto simp: saw_shutdown_def Let_def split: prod.splits if_splits drain_site.splits\<close>)

lemma worker_step_saw_empty:
  assumes "worker_step M pick timeout w b = (w', b')" and "saw_empty w'"
  shows "saw_empty w \<or> (\<exists>ok. w = W_final_empty ok \<and> q_size b = 0)"
proof (cases w)
  case (W_flush site c)
  then show ?thesis
    using assms by (cases site) (auto simp: saw_empty_def Let_def split: prod.splits list.splits if_splits)
next
  case (W_drained site ok)
  then show ?thesis using assms by (cases site) (auto simp: saw_empty_def Let_def)
qed (use assms in \<open>auto simp: saw_empty_def Let_def split: prod.splits if_splits drain_site.splits\<close>)

lemma worker_step_idle_batch:
  assumes "worker_step M pick timeout w b = (w', b')" and "worker_batch w = []"
    and "\<And>site ok c. w \<noteq> W_take site ok c"
  shows "worker_batch w' = []"
  using assms by (cases w) (auto simp: Let_def split: prod.splits list.splits if_splits drain_site.splits)

text \<open>A worker that takes from an empty queue gets nothing.\<close>

lemma worker_take_empty:
  assumes "queue_ok (m_queue M)" and "cq_contents (m_queue M) (q_spans b) = {#}"
    and "worker_step M pick timeout (W_take site ok c) b = (w', b')"
  shows "cq_contents (m_queue M) (q_spans b') = {#}" "worker_batch w' = []"
  using assms(2,3) dequeue_contents [OF assms(1)]
  by (fastforce simp: Let_def split: prod.splits if_splits drain_site.splits)+

lemma closing_worker:
  assumes "queue_ok (m_queue M)" and "worker_step M pick timeout (worker_pc s) (shared s) = (w, b)"
    and "conserved M s" and "closing M s"
  shows "closing M (s\<lparr>shared := b, worker_pc := w\<rparr>)"
proof -
  note frame = worker_step_frame [OF assms(2)]
  have "c_shutdownRequested (shared s) \<and> (\<forall>x n. P_enqueue x n \<notin># producers s) \<and> queued M s = {#} \<and>
      worker_batch (worker_pc s) = []" if "saw_empty w"
    using worker_step_saw_empty [OF assms(2) that]
  proof (elim disjE exE conjE)
    fix ok assume "worker_pc s = W_final_empty ok" "q_size (shared s) = 0"
    then show ?thesis
      using conserved_empty [OF assms(3)] assms(4) by (auto simp: closing_def saw_shutdown_def)
  qed (use assms(4) in \<open>auto simp: closing_def\<close>)
  then have empty: "saw_empty w \<Longrightarrow> c_shutdownRequested b \<and> (\<forall>x n. P_enqueue x n \<notin># producers s) \<and>
      cq_contents (m_queue M) (q_spans b) = {#} \<and> worker_batch w = []"
    using worker_take_empty [OF assms(1)] frame(1,4) worker_step_idle_batch [OF assms(2)] assms(2) by metis
  have "saw_shutdown w \<Longrightarrow> c_shutdownRequested b"
    using worker_step_saw_shutdown [OF assms(2)] assms(4) frame(1) by (auto simp: closing_def)
  then show ?thesis
    using empty assms(4) frame(2,3) by (auto simp: closing_def)
qed

lemma closing_step:
  assumes "batch_step M s s'" and "queue_ok (m_queue M)" and "conserved M s" and "closing M s"
  shows "closing M s'"
  using assms(1)
proof (cases rule: batch_step.cases)
  case (producer p P pick p' b)
  then show ?thesis using closing_producer assms(2-) by blast
next
  case (flusher f F pick f' b)
  then show ?thesis using closing_flusher assms(4) by blast
next
  case (closer c C c' b)
  then show ?thesis using closing_closer assms(4) by blast
next
  case (worker pick timeout w b)
  then show ?thesis using closing_worker assms(2-) by blast
qed (use assms(4) in \<open>auto simp: closing_def\<close>)

section \<open>Flush requests\<close>

fun flusher_request :: "flusher \<Rightarrow> nat option" where
  "flusher_request (F_enqueue r) = Some r"
| "flusher_request (F_leave (Next_wake r)) = Some r"
| "flusher_request (F_leave_check (Next_wake r)) = Some r"
| "flusher_request (F_leave_store (Next_wake r)) = Some r"
| "flusher_request (F_leave_release (Next_wake r)) = Some r"
| "flusher_request (F_continue (Next_wake r)) = Some r"
| "flusher_request (F_wake_release r) = Some r"
| "flusher_request (F_wait r) = Some r"
| "flusher_request (F_result r) = Some r"
| "flusher_request (F_return r ok) = r"
| "flusher_request _ = None"

fun drain_request :: "drain_site \<Rightarrow> nat option" where
  "drain_request (Drain_flush r _) = Some r"
| "drain_request _ = None"

fun worker_request :: "worker \<Rightarrow> nat option" where
  "worker_request (W_clock site _) = drain_request site"
| "worker_request (W_size site _ _) = drain_request site"
| "worker_request (W_take site _ _) = drain_request site"
| "worker_request (W_sub site _ _) = drain_request site"
| "worker_request (W_export site _ _) = drain_request site"
| "worker_request (W_empty site _ _) = drain_request site"
| "worker_request (W_idle site _) = drain_request site"
| "worker_request (W_idle_clear site _) = drain_request site"
| "worker_request (W_drained site _) = drain_request site"
| "worker_request (W_flush_exporter r _ _) = Some r"
| "worker_request (W_flush_ok r _ _) = Some r"
| "worker_request (W_flush_release r _) = Some r"
| "worker_request _ = None"

text \<open>Requests are numbered below \<^verbatim>\<open>f_next\<close>.\<close>

definition requests_known :: "('q, 'r, 'e) Processor \<Rightarrow> ('q, 'r, 'e) System \<Rightarrow> bool" where
  "requests_known M s \<longleftrightarrow>
     (\<forall>r \<in># cq_contents (m_requests M) (c_flushRequests (shared s)). r < f_next (shared s)) \<and>
     (\<forall>f \<in># flushers s. \<forall>r. flusher_request f = Some r \<longrightarrow> r < f_next (shared s)) \<and>
     (\<forall>r. worker_request (worker_pc s) = Some r \<longrightarrow> r < f_next (shared s))"

lemma requests_known_init: "cq_contents (m_requests M) r = {#} \<Longrightarrow> requests_known M (System_init q r e)"
  by (simp add: requests_known_def System_init_def Batch_init_def)

lemma after_flushes_request [simp]: "worker_request (after_flushes site c) = None"
  by (cases site) simp_all

lemma requests_known_producer:
  assumes "producer_step M pick p (shared s) = (p', b)" and "requests_known M s"
  shows "requests_known M (s\<lparr>shared := b, producers := add_mset p' P\<rparr>)"
  using assms by (cases p) (auto simp: requests_known_def Let_def split: prod.splits if_splits)

lemma requests_known_flusher:
  assumes "queue_ok (m_requests M)" and "flushers s = add_mset f F"
    and "flusher_step M pick f (shared s) = Some (f', b)" and "requests_known M s"
  shows "requests_known M (s\<lparr>shared := b, flushers := add_mset f' F\<rparr>)"
proof (cases f)
  case (F_continue k)
  then show ?thesis using assms(2-) by (cases k) (auto simp: requests_known_def)
next
  case (F_leave k)
  then show ?thesis using assms(2-) by (cases k) (auto simp: requests_known_def split: if_splits)
next
  case (F_leave_check k)
  then show ?thesis using assms(2-) by (cases k) (auto simp: requests_known_def split: if_splits)
next
  case (F_leave_store k)
  then show ?thesis using assms(2-) by (cases k) (auto simp: requests_known_def split: if_splits)
next
  case (F_leave_release k)
  then show ?thesis using assms(2-) by (cases k) (auto simp: requests_known_def split: if_splits)
next
  case (F_enqueue r)
  then show ?thesis
    using assms(2-) by (auto simp: requests_known_def Let_def enqueue_contents [OF assms(1)] split: prod.splits if_splits)
qed (use assms(2-) in \<open>auto simp: requests_known_def Let_def less_Suc_eq split: if_splits\<close>)

lemma requests_known_closer:
  assumes "closer_step M d c (shared s) = Some (c', b)" and "requests_known M s"
  shows "requests_known M (s\<lparr>shared := b, closers := add_mset c' C\<rparr>)"
  using assms by (cases c) (auto simp: requests_known_def Let_def split: prod.splits if_splits option.splits)

lemma requests_known_worker:
  assumes "queue_ok (m_requests M)" and "worker_step M pick timeout (worker_pc s) (shared s) = (w, b)"
    and "requests_known M s"
  shows "requests_known M (s\<lparr>shared := b, worker_pc := w\<rparr>)"
proof (cases "worker_pc s")
  case (W_flush site completedAny)
  then show ?thesis
    using assms(2,3)
    by (auto simp: requests_known_def Let_def dest!: dequeue_contents [OF assms(1)] split: prod.splits list.splits)
qed (use assms(2,3) in \<open>auto simp: requests_known_def Let_def dest!: exporter_frames
       split: prod.splits if_splits drain_site.splits\<close>)

abbreviation flushed :: "('q, 'r, 'e) Batch \<Rightarrow> nat \<Rightarrow> bool" where
  "flushed b r \<equiv> g_snapshot b r \<subseteq># g_handed b"

fun worker_flushed :: "('q, 'r, 'e) Batch \<Rightarrow> worker \<Rightarrow> bool" where
  "worker_flushed b (W_drained site _) =
     (case site of Drain_flush r _ \<Rightarrow> clock b \<le> f_deadline b r \<longrightarrow> flushed b r | _ \<Rightarrow> True)"
| "worker_flushed b (W_flush_exporter r _ ok) = (ok \<longrightarrow> flushed b r)"
| "worker_flushed b (W_flush_ok r _ ok) = (ok \<longrightarrow> flushed b r)"
| "worker_flushed b _ = True"

definition flush_sound :: "('q, 'r, 'e) System \<Rightarrow> bool" where
  "flush_sound s \<longleftrightarrow>
     (\<forall>r. g_snapshot (shared s) r \<subseteq># g_accepted (shared s)) \<and>
     (\<forall>r. f_ok (shared s) r \<longrightarrow> flushed (shared s) r) \<and>
     (\<forall>r. F_return (Some r) True \<in># flushers s \<longrightarrow> flushed (shared s) r) \<and>
     worker_flushed (shared s) (worker_pc s)"

lemma flush_sound_init: "flush_sound (System_init q r e)"
  by (simp add: flush_sound_def System_init_def Batch_init_def)

lemma worker_flushed_cong:
  "clock b' = clock b \<Longrightarrow> f_deadline b' = f_deadline b \<Longrightarrow> g_snapshot b' = g_snapshot b \<Longrightarrow>
   g_handed b' = g_handed b \<Longrightarrow> worker_flushed b' w = worker_flushed b w"
  by (cases w) (auto split: drain_site.splits)

lemma flush_sound_producer:
  assumes "producer_step M pick p (shared s) = (p', b)" and "flush_sound s"
  shows "flush_sound (s\<lparr>shared := b, producers := add_mset p' P\<rparr>)"
proof -
  have frame: "clock b = clock (shared s)" "f_deadline b = f_deadline (shared s)"
    "g_snapshot b = g_snapshot (shared s)" "g_handed b = g_handed (shared s)" "f_ok b = f_ok (shared s)"
    "g_accepted (shared s) \<subseteq># g_accepted b"
    using assms(1) by (cases p; auto simp: Let_def split: prod.splits if_splits)+
  then show ?thesis
    using assms(2) worker_flushed_cong [of b "shared s"]
    by (auto simp: flush_sound_def intro: subset_mset.order_trans)
qed

lemma flush_sound_closer:
  assumes "closer_step M d c (shared s) = Some (c', b)" and "flush_sound s"
  shows "flush_sound (s\<lparr>shared := b, closers := add_mset c' C\<rparr>)"
proof -
  have frame: "clock b = clock (shared s)" "f_deadline b = f_deadline (shared s)"
    "g_snapshot b = g_snapshot (shared s)" "g_handed b = g_handed (shared s)" "f_ok b = f_ok (shared s)"
    "g_accepted b = g_accepted (shared s)"
    using assms(1) by (cases c; auto simp: Let_def split: prod.splits if_splits option.splits)+
  then show ?thesis
    using assms(2) worker_flushed_cong [of b "shared s"] by (simp add: flush_sound_def)
qed

lemma flusher_step_frame:
  assumes "flusher_step M pick f b = Some (f', b')"
  shows "clock b' = clock b \<and> g_handed b' = g_handed b \<and> g_accepted b' = g_accepted b \<and>
     ((\<exists>timeout. f = F_request timeout) \<or>
      f_deadline b' = f_deadline b \<and> g_snapshot b' = g_snapshot b \<and> f_ok b' = f_ok b) \<and>
     (f' = F_return (Some r) True \<longrightarrow> f_ok b r)"
proof (cases f)
  case (F_continue k)
  then show ?thesis using assms by (cases k) auto
qed (use assms in \<open>auto simp: Let_def split: prod.splits if_splits\<close>)

lemma flush_sound_flusher:
  assumes "flushers s = add_mset f F" and "flusher_step M pick f (shared s) = Some (f', b)"
    and "requests_known M s" and "flush_sound s"
  shows "flush_sound (s\<lparr>shared := b, flushers := add_mset f' F\<rparr>)"
proof (cases "\<exists>timeout. f = F_request timeout")
  case False
  note frame = flusher_step_frame [OF assms(2)]
  have "worker_flushed b (worker_pc s)"
    using worker_flushed_cong [of b "shared s"] frame False assms(4) by (simp add: flush_sound_def)
  then show ?thesis
    using frame False assms(1,4) by (auto simp: flush_sound_def)
next
  case True
  then obtain timeout where f: "f = F_request timeout" by blast
  let ?r = "f_next (shared s)"
  have known: "worker_request (worker_pc s) \<noteq> Some ?r" "F_return (Some ?r) True \<notin># F"
    using assms(1,3) by (auto simp: requests_known_def)
  then have "worker_flushed b (worker_pc s)"
    using assms(2,4) f by (cases "worker_pc s") (auto simp: flush_sound_def Let_def split: drain_site.splits)
  then show ?thesis
    using assms(1,2,4) f known by (auto simp: flush_sound_def Let_def)
qed

lemma subseteq_add_right: "A \<subseteq># B \<Longrightarrow> A \<subseteq># B + C"
  by (meson mset_subset_eq_add_left subset_mset.order_trans)

lemma flush_sound_worker:
  assumes "worker_step M pick timeout (worker_pc s) (shared s) = (w, b)"
    and "conserved M s" and "flush_sound s"
  shows "flush_sound (s\<lparr>shared := b, worker_pc := w\<rparr>)"
proof (cases "worker_pc s")
  case (W_empty site ok exportedAny)
  have "g_accepted (shared s) = g_handed (shared s)" if "q_size (shared s) = 0"
    using that conserved_empty [OF assms(2) that] assms(2) W_empty by (simp add: conserved_def)
  then show ?thesis
    using assms(1,3) W_empty by (auto simp: flush_sound_def split: if_splits drain_site.splits)
next
  case (W_export site ok batch)
  then show ?thesis
    using assms(1,3)
    by (auto simp: flush_sound_def Let_def dest!: exporter_frames split: prod.splits drain_site.splits
        intro!: subseteq_add_right)
next
  case (W_flush site completedAny)
  then show ?thesis
    using assms(1,3)
    by (cases site) (auto simp: flush_sound_def Let_def split: prod.splits list.splits)
qed (use assms(1,3) in \<open>auto simp: flush_sound_def Let_def drain_in_time_def dest!: exporter_frames
       split: prod.splits if_splits drain_site.splits\<close>)

lemma flush_sound_tick:
  assumes "now \<ge> clock (shared s)" and "flush_sound s"
  shows "flush_sound (s\<lparr>shared := (shared s)\<lparr>clock := now\<rparr>\<rparr>)"
proof -
  have "worker_flushed ((shared s)\<lparr>clock := now\<rparr>) (worker_pc s)"
    using assms by (cases "worker_pc s") (auto simp: flush_sound_def split: drain_site.splits)
  then show ?thesis using assms(2) by (simp add: flush_sound_def)
qed

section \<open>Wake-ups\<close>

text \<open>Callers that are about to release the semaphore, and the worker just after it acquired it.\<close>

fun producer_releasing :: "producer \<Rightarrow> bool" where
  "producer_releasing P_release = True"
| "producer_releasing _ = False"

fun flusher_releasing :: "flusher \<Rightarrow> bool" where
  "flusher_releasing (F_leave_release _) = True"
| "flusher_releasing (F_wake_release _) = True"
| "flusher_releasing _ = False"

fun closer_releasing :: "closer \<Rightarrow> bool" where
  "closer_releasing (S_wake_release _ _) = True"
| "closer_releasing _ = False"

fun worker_acquired :: "worker \<Rightarrow> bool" where
  "worker_acquired W_clear = True"
| "worker_acquired (W_idle_clear _ _) = True"
| "worker_acquired _ = False"

definition wakeup :: "('q, 'r, 'e) System \<Rightarrow> bool" where
  "wakeup s \<longleftrightarrow>
     (c_signalPending (shared s) \<longrightarrow>
        0 < c_signal (shared s) \<or> worker_acquired (worker_pc s) \<or>
        (\<exists>p \<in># producers s. producer_releasing p) \<or> (\<exists>f \<in># flushers s. flusher_releasing f) \<or>
        (\<exists>c \<in># closers s. closer_releasing c))"

lemma wakeup_step: "batch_step M s s' \<Longrightarrow> wakeup s \<Longrightarrow> wakeup s'"
proof (induction rule: batch_step.induct)
  case (producer s p P pick p' b)
  then show ?case by (cases p) (auto simp: wakeup_def Let_def split: prod.splits if_splits)
next
  case (flusher s f F pick f' b)
  show ?case
  proof (cases f)
    case (F_continue k)
    then show ?thesis using flusher by (cases k) (auto simp: wakeup_def)
  qed (use flusher in \<open>auto simp: wakeup_def Let_def split: prod.splits if_splits\<close>)
next
  case (closer s c C c' b)
  then show ?case by (cases c) (auto simp: wakeup_def Let_def split: prod.splits if_splits option.splits)
next
  case (worker pick timeout s w b)
  show ?case
  proof (cases "worker_pc s")
    case (W_flush site completedAny)
    then show ?thesis
      using worker by (cases site) (auto simp: wakeup_def Let_def split: prod.splits list.splits)
  qed (use worker in \<open>auto simp: wakeup_def Let_def dest!: exporter_frames
         split: prod.splits if_splits drain_site.splits\<close>)
qed (auto simp: wakeup_def)

section \<open>Reachable states\<close>

definition batch_inv :: "('q, 'r, 'e) Processor \<Rightarrow> ('q, 'r, 'e) System \<Rightarrow> bool" where
  "batch_inv M s \<longleftrightarrow>
     conserved M s \<and> accounted M s \<and> closing M s \<and> requests_known M s \<and> flush_sound s \<and> wakeup s"

lemma requests_known_step:
  assumes "batch_step M s s'" and "queue_ok (m_requests M)" and "requests_known M s"
  shows "requests_known M s'"
  using assms(1)
proof (cases rule: batch_step.cases)
  case (producer p P pick p' b)
  then show ?thesis using requests_known_producer assms(3) by blast
next
  case (flusher f F pick f' b)
  then show ?thesis using requests_known_flusher assms(2,3) by blast
next
  case (closer c C c' b)
  then show ?thesis using requests_known_closer assms(3) by blast
next
  case (worker pick timeout w b)
  then show ?thesis using requests_known_worker assms(2,3) by blast
qed (use assms(3) in \<open>auto simp: requests_known_def\<close>)

lemma flush_sound_step:
  assumes "batch_step M s s'" and "conserved M s" and "requests_known M s" and "flush_sound s"
  shows "flush_sound s'"
  using assms(1)
proof (cases rule: batch_step.cases)
  case (producer p P pick p' b)
  then show ?thesis using flush_sound_producer assms(4) by blast
next
  case (flusher f F pick f' b)
  then show ?thesis using flush_sound_flusher assms(3,4) by blast
next
  case (closer c C c' b)
  then show ?thesis using flush_sound_closer assms(4) by blast
next
  case (worker pick timeout w b)
  then show ?thesis using flush_sound_worker assms(2,4) by blast
next
  case (tick now)
  then show ?thesis using flush_sound_tick assms(4) by blast
qed (use assms(4) in \<open>auto simp: flush_sound_def\<close>)

text \<open>The queues start empty.\<close>

definition empty_queues :: "('q, 'r, 'e) Processor \<Rightarrow> 'q \<Rightarrow> 'r \<Rightarrow> bool" where
  "empty_queues M q r \<longleftrightarrow>
     queue_ok (m_queue M) \<and> queue_ok (m_requests M) \<and>
     cq_contents (m_queue M) q = {#} \<and> cq_contents (m_requests M) r = {#}"

lemma reachable_inv:
  assumes "reachable M q r e s" and "empty_queues M q r"
  shows "batch_inv M s"
proof -
  have ok: "queue_ok (m_queue M)" "queue_ok (m_requests M)"
    and empty: "cq_contents (m_queue M) q = {#}" "cq_contents (m_requests M) r = {#}"
    using assms(2) by (simp_all add: empty_queues_def)
  from assms(1)[unfolded reachable_def] show ?thesis
  proof (induction rule: rtranclp_induct)
    case base
    have "wakeup (System_init q r e)" by (simp add: wakeup_def System_init_def Batch_init_def)
    then show ?case
      by (simp add: batch_inv_def conserved_init accounted_init closing_init requests_known_init
          flush_sound_init empty)
  next
    case (step s s')
    then have "conserved M s'" "accounted M s'" "closing M s'" "requests_known M s'" "flush_sound s'" "wakeup s'"
      using conserved_step accounted_step closing_step requests_known_step flush_sound_step wakeup_step ok
      unfolding batch_inv_def by blast+
    then show ?case by (simp add: batch_inv_def)
  qed
qed

lemma reachable_drained:
  assumes "reachable M q r e s" and "empty_queues M q r"
    and "c_workerStopped (shared s) \<or> S_return True \<in># closers s"
  shows "g_handed (shared s) = g_accepted (shared s) \<and> queued M s = {#} \<and>
         c_shutdownRequested (shared s) \<and> (\<forall>x n. P_enqueue x n \<notin># producers s)"
proof -
  have inv: "closing M s" "conserved M s" using reachable_inv [OF assms(1,2)] by (simp_all add: batch_inv_def)
  then have "worker_pc s = W_stopped" using assms(3) unfolding closing_def by (metis closer_ok.simps(5))
  then show ?thesis using inv by (simp add: closing_def conserved_def saw_empty_def)
qed

section \<open>Properties\<close>

text \<open>C1: no span is lost or exported twice: in every reachable state the spans the queue accepted are
  exactly those handed to the exporter, those in the batch the worker holds and those still
  queued; the queue never holds more than its capacity, and the counter of queued spans is never
  negative.\<close>

theorem batch_conserves_spans:
  assumes "reachable M q r e s" and "empty_queues M q r"
  shows "g_accepted (shared s) = g_handed (shared s) + mset (worker_batch (worker_pc s)) + queued M s \<and>
         size (queued M s) \<le> queue_capacity (m_config M) \<and> 0 \<le> q_size (shared s)"
  using reachable_inv [OF assms] by (auto simp: batch_inv_def conserved_def accounted_def)

text \<open>C24: every sampled span given to \<^verbatim>\<open>onEnd\<close> is accounted for: it was accepted, counted as dropped
  because the queue was full, refused after the shutdown request, or its call is still running.
  Spans that are not sampled are never queued or exported.\<close>

theorem batch_accounts_for_spans:
  assumes "reachable M q r e s" and "empty_queues M q r"
  shows "g_sampled (shared s) =
           size (g_accepted (shared s)) + m_droppedSpans (shared s) + g_closed (shared s) +
           size (filter_mset undecided (producers s)) \<and>
         (\<forall>x \<in># g_handed (shared s). SpanContext_sampled (sp_context x))"
  using reachable_inv [OF assms] by (auto simp: batch_inv_def accounted_def conserved_def)

text \<open>C7: once the worker has stopped, every accepted span was handed to the exporter, the queue is
  empty and no call can add to it any more; and a shutdown call that returns true has waited for
  the worker to stop.\<close>

theorem batch_shutdown_drains:
  assumes "reachable M q r e s" and "empty_queues M q r"
    and "c_workerStopped (shared s) \<or> S_return True \<in># closers s"
  shows "g_handed (shared s) = g_accepted (shared s) \<and> queued M s = {#} \<and>
         c_shutdownRequested (shared s) \<and> (\<forall>x n. P_enqueue x n \<notin># producers s)"
  by (rule reachable_drained [OF assms])

text \<open>C21: a flush that returns true through the worker has flushed: every span accepted before the
  request was made has been handed to the exporter.\<close>

theorem batch_flush_sound:
  assumes "reachable M q r e s" and "empty_queues M q r" and "F_return (Some req) True \<in># flushers s"
  shows "g_snapshot (shared s) req \<subseteq># g_handed (shared s)"
  using reachable_inv [OF assms(1,2)] assms(3) by (auto simp: batch_inv_def flush_sound_def)

text \<open>C23: no wake-up is lost: while the worker waits and a wake-up is marked pending, so that further
  notifications are left out, a token of the semaphore is there or some caller is about to release
  one.\<close>

theorem batch_no_lost_wakeup:
  assumes "reachable M q r e s" and "empty_queues M q r"
    and "worker_pc s = W_wait" and "c_signalPending (shared s)"
  shows "0 < c_signal (shared s) \<or> P_release \<in># producers s \<or>
         (\<exists>f \<in># flushers s. flusher_releasing f) \<or> (\<exists>c \<in># closers s. closer_releasing c)"
proof -
  have "producer_releasing p \<Longrightarrow> p = P_release" for p by (cases p) simp_all
  then show ?thesis
    using reachable_inv [OF assms(1,2)] assms(3,4) by (auto simp: batch_inv_def wakeup_def)
qed

text \<open>The normalised configuration has a positive capacity, a batch size from one to the capacity
  and a positive interval, keeps valid settings, and normalising again changes nothing.\<close>

theorem normalizeConfig_valid:
  "let c = normalizeConfig config
   in 1 \<le> queue_capacity c \<and> 1 \<le> max_batch_size c \<and> max_batch_size c \<le> queue_capacity c \<and>
      0 < flush_interval c \<and> normalizeConfig c = c \<and>
      (1 \<le> max_batch_size config \<and> max_batch_size config \<le> queue_capacity config \<and> 0 < flush_interval config
        \<longrightarrow> c = config)"
  by (simp add: normalizeConfig_def Let_def max_def)

end
