(* ===== verification/Batch_Calls.thy ===== *)
theory Batch_Calls
  imports Batch_Processor
begin

text \<open>
  The member functions of \<^verbatim>\<open>SpanQueue\<close>, \<^verbatim>\<open>WorkerControl\<close> and \<^verbatim>\<open>BatchSpanProcessor\<close> as whole functions, the way
  the source writes them, and the proof that the step functions of \<open>Batch_Processor\<close> are these functions
  cut at their atomic accesses: a call that no other thread interrupts has the effect of the function.
\<close>

section \<open>The queue\<close>

datatype PushResult = Push_kAccepted | Push_kFull | Push_kClosed

definition queuedCount :: "('q, 'r, 'e) Batch \<Rightarrow> int" where
  "queuedCount b = q_size b"

definition queue_empty :: "('q, 'r, 'e) Batch \<Rightarrow> bool" where
  "queue_empty b \<longleftrightarrow> queuedCount b = 0"

text \<open>The result, \<^verbatim>\<open>queuedCount\<close> as the call leaves it, and the state.\<close>

definition tryPush ::
  "('q, 'r, 'e) Processor \<Rightarrow> nat \<Rightarrow> Span \<Rightarrow> ('q, 'r, 'e) Batch \<Rightarrow> PushResult \<times> int \<times> ('q, 'r, 'e) Batch" where
  "tryPush M pick s b =
     (let previous = q_size b;
          b = b\<lparr>q_size := q_size b + 1\<rparr>
      in if previous \<ge> int (queue_capacity (m_config M))
         then (Push_kFull, 0, b\<lparr>q_size := q_size b - 1\<rparr>)
         else if c_shutdownRequested b
         then (Push_kClosed, 0, b\<lparr>q_size := q_size b - 1, g_closed := Suc (g_closed b)\<rparr>)
         else
           let (ok, q) = cq_enqueue (m_queue M) pick s (q_spans b);
               b = b\<lparr>q_spans := q\<rparr>
           in if \<not> ok then (Push_kFull, 0, b\<lparr>q_size := q_size b - 1\<rparr>)
              else (Push_kAccepted, previous + 1, b\<lparr>g_accepted := add_mset s (g_accepted b)\<rparr>))"

definition tryPopBulk ::
  "('q, 'r, 'e) Processor \<Rightarrow> nat \<Rightarrow> nat \<Rightarrow> ('q, 'r, 'e) Batch \<Rightarrow> Span list \<times> ('q, 'r, 'e) Batch" where
  "tryPopBulk M pick maxCount b =
     (if maxCount = 0 \<or> q_size b = 0 then ([], b)
      else
        let (batch, q) = cq_try_dequeue_bulk (m_queue M) pick maxCount (q_spans b);
            b = b\<lparr>q_spans := q\<rparr>
        in (batch, if batch \<noteq> [] then b\<lparr>q_size := q_size b - int (length batch)\<rparr> else b))"

definition drainQueue ::
  "('q, 'r, 'e) Processor \<Rightarrow> nat \<Rightarrow> nat \<Rightarrow> ('q, 'r, 'e) Batch \<Rightarrow> Span list \<times> ('q, 'r, 'e) Batch" where
  "drainQueue M pick maxCount b = tryPopBulk M pick maxCount b"

section \<open>The control block\<close>

definition notify :: "('q, 'r, 'e) Batch \<Rightarrow> ('q, 'r, 'e) Batch" where
  "notify b =
     (if \<not> c_signalPending b then b\<lparr>c_signalPending := True, c_signal := Suc (c_signal b)\<rparr>
      else b\<lparr>c_signalPending := True\<rparr>)"

definition forceNotify :: "('q, 'r, 'e) Batch \<Rightarrow> ('q, 'r, 'e) Batch" where
  "forceNotify b = b\<lparr>c_signalPending := True, c_signal := Suc (c_signal b)\<rparr>"

text \<open>\<open>expires\<close> says that the wait gives up although a token is there.\<close>

definition waitFor :: "bool \<Rightarrow> ('q, 'r, 'e) Batch \<Rightarrow> bool \<times> ('q, 'r, 'e) Batch" where
  "waitFor expires b =
     (let acquired = (c_signal b \<noteq> 0 \<and> \<not> expires)
      in (acquired, if acquired then b\<lparr>c_signal := c_signal b - 1, c_signalPending := False\<rparr> else b))"

section \<open>The processor\<close>

definition onEnd ::
  "('q, 'r, 'e) Processor \<Rightarrow> nat \<Rightarrow> Span \<Rightarrow> ('q, 'r, 'e) Batch \<Rightarrow> ('q, 'r, 'e) Batch" where
  "onEnd M pick s b =
     (if \<not> SpanContext_sampled (sp_context s) then b
      else
        let (pushResult, count, b) = tryPush M pick s (b\<lparr>g_sampled := Suc (g_sampled b)\<rparr>)
        in case pushResult of
             Push_kFull \<Rightarrow> b\<lparr>m_droppedSpans := Suc (m_droppedSpans b)\<rparr>
           | Push_kClosed \<Rightarrow> notify b
           | Push_kAccepted \<Rightarrow>
               let shouldNotify =
                     (case schedule_mode (m_config M) of
                        Mode_kOnEnd \<Rightarrow> True
                      | Mode_kBatchSize \<Rightarrow>
                          count \<ge> int (max_batch_size (m_config M)) \<and> count - 1 < int (max_batch_size (m_config M))
                      | Mode_kTimed \<Rightarrow> False)
               in if shouldNotify then notify b else b)"

definition droppedSpanCount :: "('q, 'r, 'e) Batch \<Rightarrow> nat" where
  "droppedSpanCount b = m_droppedSpans b"

text \<open>\<^verbatim>\<open>forceFlush\<close> up to the wait for the answer: the result when the call returns before that, or the
  number of its request.\<close>

definition leaveFlush :: "('q, 'r, 'e) Batch \<Rightarrow> ('q, 'r, 'e) Batch" where
  "leaveFlush b =
     (let last = (c_activeFlushCallers b = 1);
          b = b\<lparr>c_activeFlushCallers := c_activeFlushCallers b - 1\<rparr>
      in if last \<and> c_shutdownRequested b then forceNotify b else b)"

definition forceFlush_begin ::
  "('q, 'r, 'e) Processor \<Rightarrow> nat \<Rightarrow> milliseconds \<Rightarrow> ('q, 'r, 'e) Batch \<Rightarrow> (bool + nat) \<times> ('q, 'r, 'e) Batch" where
  "forceFlush_begin M pick timeout b =
     (if timeout < 0 then (Inl False, b)
      else
        let b = b\<lparr>c_activeFlushCallers := c_activeFlushCallers b + 1\<rparr>
        in if c_shutdownRequested b \<or> c_workerStopped b
           then let b = leaveFlush b in (Inl (queue_empty b), b)
           else
             let r = f_next b;
                 b = b\<lparr>f_next := Suc r, f_deadline := (f_deadline b)(r := deadline_after (clock b) timeout),
                       f_done := (f_done b)(r := False), f_ok := (f_ok b)(r := False),
                       g_snapshot := (g_snapshot b)(r := g_accepted b)\<rparr>;
                 (ok, q) = cq_enqueue (m_requests M) pick r (c_flushRequests b);
                 b = leaveFlush (b\<lparr>c_flushRequests := q\<rparr>)
             in if \<not> ok then (Inl False, b) else (Inr r, forceNotify b))"

section \<open>Running alone\<close>

fun producer_alone ::
  "nat \<Rightarrow> ('q, 'r, 'e) Processor \<Rightarrow> nat \<Rightarrow> producer \<Rightarrow> ('q, 'r, 'e) Batch \<Rightarrow> producer \<times> ('q, 'r, 'e) Batch" where
  "producer_alone 0 M pick p b = (p, b)"
| "producer_alone (Suc n) M pick p b = (let (p', b') = producer_step M pick p b in producer_alone n M pick p' b')"

fun flusher_alone ::
  "nat \<Rightarrow> ('q, 'r, 'e) Processor \<Rightarrow> nat \<Rightarrow> flusher \<Rightarrow> ('q, 'r, 'e) Batch \<Rightarrow> flusher \<times> ('q, 'r, 'e) Batch" where
  "flusher_alone 0 M pick f b = (f, b)"
| "flusher_alone (Suc n) M pick f b =
     (case f of
        F_wait r \<Rightarrow> (f, b)
      | _ \<Rightarrow> (case flusher_step M pick f b of None \<Rightarrow> (f, b) | Some (f', b') \<Rightarrow> flusher_alone n M pick f' b'))"

fun worker_alone ::
  "nat \<Rightarrow> ('q, 'r, 'e) Processor \<Rightarrow> nat \<Rightarrow> bool \<Rightarrow> worker \<Rightarrow> ('q, 'r, 'e) Batch \<Rightarrow> worker \<times> ('q, 'r, 'e) Batch" where
  "worker_alone 0 M pick expires w b = (w, b)"
| "worker_alone (Suc n) M pick expires w b =
     (let (w', b') = worker_step M pick expires w b in worker_alone n M pick expires w' b')"

lemma producer_alone_done [simp]: "producer_alone n M pick P_done b = (P_done, b)"
  by (induction n) simp_all

lemma flusher_alone_stops [simp]:
  "flusher_alone n M pick (F_wait r) b = (F_wait r, b)" "flusher_alone n M pick (F_return r' ok) b = (F_return r' ok, b)"
  by (cases n; simp)+

lemma producer_onEnd: "producer_alone 7 M pick (P_start x) b = (P_done, onEnd M pick x b)"
  by (cases "schedule_mode (m_config M)")
    (auto simp: numeral_eq_Suc onEnd_def tryPush_def notify_def Let_def split: prod.splits)

text \<open>Leaving \<^verbatim>\<open>activeFlushCallers\<close> takes one, two or four accesses.\<close>

lemma flusher_leaves:
  "flusher_alone (Suc (Suc (Suc (Suc n)))) M pick (F_leave k) b =
     flusher_alone (n + (if c_activeFlushCallers b \<noteq> 1 then 3 else if \<not> c_shutdownRequested b then 2 else 0)) M pick
       (F_continue k) (leaveFlush b)"
  by (auto simp: leaveFlush_def forceNotify_def Let_def numeral_eq_Suc)

lemma flusher_continues:
  "0 < n \<Longrightarrow> flusher_alone n M pick (F_continue Next_empty) b = (F_return None (queue_empty b), b)"
  "0 < n \<Longrightarrow> flusher_alone n M pick (F_continue Next_false) b = (F_return None False, b)"
  "0 < n \<Longrightarrow> flusher_alone (Suc n) M pick (F_continue (Next_wake r)) b = (F_wait r, forceNotify b)"
  by (auto simp: gr0_conv_Suc queue_empty_def queuedCount_def forceNotify_def)

lemma flusher_begins:
  "flusher_alone (Suc n) M pick (F_start timeout) b =
     (if timeout < 0 then (F_return None False, b) else flusher_alone n M pick (F_enter timeout) b)"
  "flusher_alone (Suc (Suc (Suc n))) M pick (F_enter timeout) b =
     (let b = b\<lparr>c_activeFlushCallers := c_activeFlushCallers b + 1\<rparr>
      in if c_shutdownRequested b then flusher_alone (Suc n) M pick (F_leave Next_empty) b
         else if c_workerStopped b then flusher_alone n M pick (F_leave Next_empty) b
         else flusher_alone n M pick (F_request timeout) b)"
  "flusher_alone (Suc (Suc n)) M pick (F_request timeout) b =
     (let r = f_next b;
          b = b\<lparr>f_next := Suc r, f_deadline := (f_deadline b)(r := deadline_after (clock b) timeout),
                f_done := (f_done b)(r := False), f_ok := (f_ok b)(r := False),
                g_snapshot := (g_snapshot b)(r := g_accepted b)\<rparr>;
          (ok, q) = cq_enqueue (m_requests M) pick r (c_flushRequests b)
      in flusher_alone n M pick (F_leave (if ok then Next_wake r else Next_false)) (b\<lparr>c_flushRequests := q\<rparr>))"
  by (auto simp: Let_def split: prod.splits)

lemma flusher_forceFlush:
  "flusher_alone 12 M pick (F_start timeout) b =
     (case forceFlush_begin M pick timeout b of
        (Inl ok, b') \<Rightarrow> (F_return None ok, b')
      | (Inr r, b') \<Rightarrow> (F_wait r, b'))"
proof -
  have twelve: "(12 :: nat) = Suc (Suc (Suc (Suc (Suc (Suc (Suc (Suc (Suc (Suc (Suc (Suc 0)))))))))))" by simp
  show ?thesis
    unfolding twelve flusher_begins flusher_leaves Let_def
    by (simp add: forceFlush_begin_def flusher_begins flusher_leaves flusher_continues Let_def
        del: flusher_alone.simps(2) split: prod.split)
qed

lemma worker_waitFor:
  "worker_alone (if fst (waitFor expires b) then 2 else 1) M pick expires W_wait b =
     (W_load (\<not> fst (waitFor expires b)), snd (waitFor expires b))"
  by (simp add: waitFor_def numeral_eq_Suc)

lemma worker_drainQueue:
  obtains n where "n \<le> 3"
    and "worker_alone n M pick expires (W_size site ok exportedAny) b =
      (case drainQueue M pick (max_batch_size (m_config M)) b of
         ([], b') \<Rightarrow> (case site of Drain_ready _ \<Rightarrow> W_wait | _ \<Rightarrow> W_empty site ok exportedAny, b')
       | (x # xs, b') \<Rightarrow> (W_export site ok (x # xs), b'))"
proof -
  obtain batch q where d: "cq_try_dequeue_bulk (m_queue M) pick (max_batch_size (m_config M)) (q_spans b) = (batch, q)"
    by fastforce
  show thesis
  proof (cases "max_batch_size (m_config M) = 0 \<or> q_size b = 0")
    case True
    then show thesis by (intro that [of 1]) (auto simp: drainQueue_def tryPopBulk_def)
  next
    case False
    then show thesis
      by (intro that [of "if batch = [] then 2 else 3"])
        (auto simp: drainQueue_def tryPopBulk_def d Let_def numeral_eq_Suc split: list.split)
  qed
qed

end
