(* ===== verification/Batch_Runs.thy ===== *)
theory Batch_Runs
  imports Batch_Processor
begin

text \<open>
  Executions of the batch processor: schedules of the threads of \<open>Batch_Processor\<close> as data, a function
  that runs them and the proof that what it runs are steps of \<open>batch_step\<close>. With a list as the
  concurrent queue this shows that the hypotheses of the properties of the batch processor can
  hold in states where spans were accepted, flushed and drained, and it exhibits a flush that
  returns true during a shutdown although the last batch has not reached the exporter.
\<close>

section \<open>Schedules\<close>

datatype action =
    Call_onEnd Span
  | Call_forceFlush milliseconds
  | Call_shutdown milliseconds
  | Run_producer producer
  | Run_flusher flusher
  | Run_closer closer
  | Run_worker

definition run_action ::
  "('q, 'r, 'e) Processor \<Rightarrow> action \<Rightarrow> ('q, 'r, 'e) System \<Rightarrow> ('q, 'r, 'e) System option" where
  "run_action M a s =
     (case a of
        Call_onEnd x \<Rightarrow> Some (s\<lparr>producers := add_mset (P_start x) (producers s)\<rparr>)
      | Call_forceFlush t \<Rightarrow> Some (s\<lparr>flushers := add_mset (F_start t) (flushers s)\<rparr>)
      | Call_shutdown t \<Rightarrow> Some (s\<lparr>closers := add_mset (S_start t) (closers s)\<rparr>)
      | Run_producer p \<Rightarrow>
          if p \<in># producers s then
            let (p', b) = producer_step M 0 p (shared s)
            in Some (s\<lparr>shared := b, producers := add_mset p' (producers s - {#p#})\<rparr>)
          else None
      | Run_flusher f \<Rightarrow>
          if f \<in># flushers s then
            (case flusher_step M 0 f (shared s) of
               None \<Rightarrow> None
             | Some (f', b) \<Rightarrow> Some (s\<lparr>shared := b, flushers := add_mset f' (flushers s - {#f#})\<rparr>))
          else None
      | Run_closer c \<Rightarrow>
          if c \<in># closers s then
            (case closer_step M (worker_pc s = W_stopped) c (shared s) of
               None \<Rightarrow> None
             | Some (c', b) \<Rightarrow> Some (s\<lparr>shared := b, closers := add_mset c' (closers s - {#c#})\<rparr>))
          else None
      | Run_worker \<Rightarrow>
          let (w, b) = worker_step M 0 False (worker_pc s) (shared s)
          in Some (s\<lparr>shared := b, worker_pc := w\<rparr>))"

fun run_actions ::
  "('q, 'r, 'e) Processor \<Rightarrow> action list \<Rightarrow> ('q, 'r, 'e) System \<Rightarrow> ('q, 'r, 'e) System option" where
  "run_actions M [] s = Some s"
| "run_actions M (a # as) s =
     (case run_action M a s of None \<Rightarrow> None | Some s' \<Rightarrow> run_actions M as s')"

lemma run_action_step: "run_action M a s = Some s' \<Longrightarrow> batch_step M s s'"
  by (cases a) (auto simp: run_action_def Let_def split: if_splits prod.splits option.splits
      intro: batch_step.intros batch_step.producer [OF insert_DiffM [symmetric]]
        batch_step.flusher [OF insert_DiffM [symmetric]] batch_step.closer [OF insert_DiffM [symmetric]])

lemma run_actions_steps: "run_actions M as s = Some s' \<Longrightarrow> (batch_step M)\<^sup>*\<^sup>* s s'"
  by (induction as arbitrary: s)
    (auto split: option.splits dest!: run_action_step intro: converse_rtranclp_into_rtranclp)

lemma run_actions_reachable: "run_actions M as (System_init q r e) = Some s \<Longrightarrow> reachable M q r e s"
  by (simp add: reachable_def run_actions_steps)

section \<open>A processor on list queues\<close>

definition list_queue :: "('a, 'a list) queue_ops" where
  "list_queue =
     \<lparr>cq_enqueue = (\<lambda>pick x q. (True, q @ [x])),
      cq_try_dequeue_bulk = (\<lambda>pick n q. (take n q, drop n q)),
      cq_contents = mset\<rparr>"

lemma list_queue_ok: "queue_ok list_queue"
proof -
  have "mset q = mset (take n q) + mset (drop n q)" for n and q :: "'a list"
    by (metis append_take_drop_id mset_append)
  then show ?thesis by (simp add: queue_ok_def list_queue_def)
qed

text \<open>An exporter that keeps what it is given.\<close>

definition list_exporter :: "Span list SpanExporter" where
  "list_exporter =
     \<lparr>exportSpans = (\<lambda>spans e. (Export_kSuccess, e @ spans)),
      forceFlush = SpanExporter_forceFlush, shutdown = SpanExporter_shutdown\<rparr>"

definition sample_processor :: "(Span list, nat list, Span list) Processor" where
  "sample_processor =
     BatchSpanProcessor_new (Some list_exporter) BatchSpanProcessorConfig_default list_queue list_queue"

lemma sample_empty_queues: "empty_queues sample_processor [] []"
  by (simp add: empty_queues_def sample_processor_def BatchSpanProcessor_new_def list_queue_ok)
    (simp add: list_queue_def)

definition sampled_span :: Span where
  "sampled_span = Span_default\<lparr>sp_context := SpanContext_new TraceId_zero SpanId_zero 1 None\<rparr>"

lemma sampled_span_sampled: "SpanContext_sampled (sp_context sampled_span)"
  by (simp add: sampled_span_def SpanContext_sampled_def kSampledFlag_def)

definition produce :: "Span \<Rightarrow> action list" where
  "produce x =
     [Call_onEnd x, Run_producer (P_start x), Run_producer (P_add x), Run_producer (P_check x 0),
      Run_producer (P_enqueue x 0)]"

definition close_up_to_join :: "action list" where
  "close_up_to_join =
     [Call_shutdown 500, Run_closer (S_start 500), Run_closer (S_store 500 500000000),
      Run_closer (S_wake_store 500 500000000), Run_closer (S_wake_release 500 500000000), Run_closer (S_claim 500 500000000)]"

definition join_and_return :: "action list" where
  "join_and_return =
     [Run_closer (S_join 500 500000000), Run_closer (S_drain 500 500000000 True),
      Run_closer (S_claim_exporter 500 500000000 True), Run_closer (S_exporter 500 500000000 True),
      Run_closer (S_deadline 500000000 True)]"

definition flush_through_worker :: "action list" where
  "flush_through_worker =
     [Call_forceFlush 10, Run_flusher (F_start 10), Run_flusher (F_enter 10),
      Run_flusher (F_check_shutdown 10), Run_flusher (F_check_stopped 10), Run_flusher (F_request 10),
      Run_flusher (F_enqueue 0), Run_flusher (F_leave (Next_wake 0)), Run_flusher (F_leave_check (Next_wake 0)),
      Run_flusher (F_continue (Next_wake 0)), Run_flusher (F_wake_release 0)] @
     replicate 15 Run_worker @ [Run_flusher (F_wait 0), Run_flusher (F_result 0)]"

definition flush_while_closing :: "action list" where
  "flush_while_closing =
     [Call_forceFlush 10, Run_flusher (F_start 10), Run_flusher (F_enter 10),
      Run_flusher (F_check_shutdown 10), Run_flusher (F_leave Next_empty), Run_flusher (F_leave_check Next_empty),
      Run_flusher (F_leave_store Next_empty), Run_flusher (F_leave_release Next_empty),
      Run_flusher (F_continue Next_empty)]"

lemmas run_simps = run_action_def sample_processor_def BatchSpanProcessor_new_def list_queue_def
  list_exporter_def System_init_def Batch_init_def sampled_span_sampled normalizeConfig_def
  BatchSpanProcessorConfig_default_def exportBatch_def exporterFlush_def drain_in_time_def deadline_after_def
  SpanExporter_forceFlush_def SpanExporter_shutdown_def

lemma run_shutdown:
  "\<exists>s. run_actions sample_processor (produce sampled_span @ close_up_to_join @ replicate 20 Run_worker @ join_and_return)
        (System_init [] [] []) = Some s \<and>
     S_return True \<in># closers s \<and> g_accepted (shared s) = {#sampled_span#} \<and>
     m_exporter_state (shared s) = [sampled_span]"
  by (simp add: produce_def close_up_to_join_def join_and_return_def run_simps Let_def numeral_eq_Suc)

lemma run_flush:
  "\<exists>s. run_actions sample_processor (produce sampled_span @ flush_through_worker) (System_init [] [] []) = Some s \<and>
     F_return (Some 0) True \<in># flushers s \<and> g_snapshot (shared s) 0 = {#sampled_span#}"
  by (simp add: produce_def flush_through_worker_def run_simps Let_def numeral_eq_Suc)

lemma run_flush_while_closing:
  "\<exists>s. run_actions sample_processor
        (produce sampled_span @ close_up_to_join @ replicate 8 Run_worker @ flush_while_closing)
        (System_init [] [] []) = Some s \<and>
     F_return None True \<in># flushers s \<and> g_accepted (shared s) = {#sampled_span#} \<and>
     g_handed (shared s) = {#} \<and> m_exporter_state (shared s) = []"
  by (simp add: produce_def close_up_to_join_def flush_while_closing_def run_simps Let_def numeral_eq_Suc)

lemma run_notify:
  "\<exists>s. run_actions sample_processor [Call_shutdown 500, Run_closer (S_start 500), Run_closer (S_store 500 500000000),
        Run_closer (S_wake_store 500 500000000)] (System_init [] [] []) = Some s \<and>
     worker_pc s = W_wait \<and> c_signalPending (shared s) \<and> producers s = {#} \<and> flushers s = {#} \<and>
     c_signal (shared s) = 0"
  by (simp add: run_simps Let_def)

text \<open>A small processor that wakes its worker by batch size, and a schedule in which the span that reaches
  the threshold is queued before its predecessor: \<open>stalled\<close> leaves the worker asleep next to a full queue.\<close>

definition small_processor :: "(Span list, nat list, Span list) Processor" where
  "small_processor =
     BatchSpanProcessor_new (Some list_exporter)
       \<lparr>queue_capacity = 3, max_batch_size = 2, flush_interval = 5000, schedule_mode = Mode_kBatchSize\<rparr>
       list_queue list_queue"

definition stalled :: "Span \<Rightarrow> action list" where
  "stalled x =
     replicate 3 (Call_onEnd x) @ replicate 3 (Run_producer (P_start x)) @ replicate 3 (Run_producer (P_add x)) @
     [Run_producer (P_check x 1), Run_producer (P_enqueue x 1), Run_producer (P_schedule 2),
      Run_producer P_notify, Run_producer P_release] @
     replicate 13 Run_worker @
     [Run_producer (P_check x 0), Run_producer (P_enqueue x 0), Run_producer (P_schedule 1),
      Run_producer (P_check x 2), Run_producer (P_enqueue x 2), Run_producer (P_schedule 3),
      Call_onEnd x, Run_producer (P_start x), Run_producer (P_add x),
      Run_producer (P_check x 2), Run_producer (P_enqueue x 2), Run_producer (P_schedule 3),
      Call_onEnd x, Run_producer (P_start x), Run_producer (P_add x), Run_producer P_full_sub, Run_producer P_dropped]"

lemma run_stalled:
  "\<exists>s. run_actions small_processor (stalled sampled_span) (System_init [] [] []) = Some s \<and>
     worker_pc s = W_wait \<and> c_signal (shared s) = 0 \<and> \<not> c_signalPending (shared s) \<and>
     producers s = replicate_mset 5 P_done \<and> queued small_processor s = replicate_mset 3 sampled_span \<and>
     m_droppedSpans (shared s) = 1"
  by (simp add: stalled_def small_processor_def run_simps Let_def numeral_eq_Suc)

section \<open>Properties\<close>

text \<open>C31: waking the worker by batch size can miss the batch: there is an execution after which the queue is full
  and a span has been dropped, no call is under way, and yet the worker waits for its timer with no
  wake-up released or marked pending. The call that reaches the threshold notifies the worker before an
  earlier call has queued its span, and later calls see a count above the threshold.\<close>

theorem batch_size_wakeup_missed:
  "\<exists>s. reachable small_processor [] [] [] s \<and> worker_pc s = W_wait \<and> c_signal (shared s) = 0
     \<and> \<not> c_signalPending (shared s) \<and> producers s = replicate_mset 5 P_done
     \<and> max_batch_size (m_config small_processor) < size (queued small_processor s)
     \<and> size (queued small_processor s) = queue_capacity (m_config small_processor)
     \<and> m_droppedSpans (shared s) = 1"
proof -
  have "max_batch_size (m_config small_processor) = 2" "queue_capacity (m_config small_processor) = 3"
    by (simp_all add: small_processor_def BatchSpanProcessor_new_def normalizeConfig_def)
  then show ?thesis
    using run_stalled run_actions_reachable [of small_processor] by fastforce
qed

text \<open>C30: a flush that overlaps a shutdown can return true too early: there is an execution in which a
  span was accepted, \<^verbatim>\<open>forceFlush\<close> returned true and the exporter has not been given the span,
  because the worker has taken it from the queue and not exported it yet.\<close>

theorem flush_during_shutdown_incomplete:
  "\<exists>s. reachable sample_processor [] [] [] s \<and> F_return None True \<in># flushers s \<and>
     g_accepted (shared s) = {#sampled_span#} \<and> g_handed (shared s) = {#} \<and> m_exporter_state (shared s) = []"
  using run_flush_while_closing run_actions_reachable by metis

section \<open>Witnesses of the properties of the batch processor\<close>

theorem batch_conserves_spans_witness:
  "\<exists>s. reachable sample_processor [] [] [] s \<and> S_return True \<in># closers s \<and>
     g_accepted (shared s) = g_handed (shared s) + mset (worker_batch (worker_pc s)) + queued sample_processor s"
  using run_shutdown run_actions_reachable batch_conserves_spans [OF _ sample_empty_queues] by metis

theorem batch_accounts_for_spans_witness:
  "\<exists>s. reachable sample_processor [] [] [] s \<and> g_accepted (shared s) = {#sampled_span#} \<and>
     g_sampled (shared s) = size (g_accepted (shared s)) + m_droppedSpans (shared s) + g_closed (shared s) +
       size (filter_mset undecided (producers s))"
  using run_shutdown run_actions_reachable batch_accounts_for_spans [OF _ sample_empty_queues] by metis

theorem batch_shutdown_drains_witness:
  "\<exists>s. reachable sample_processor [] [] [] s \<and> S_return True \<in># closers s \<and>
     g_handed (shared s) = {#sampled_span#}"
  using run_shutdown run_actions_reachable batch_shutdown_drains [OF _ sample_empty_queues] by metis

theorem batch_flush_sound_witness:
  "\<exists>s. reachable sample_processor [] [] [] s \<and> F_return (Some 0) True \<in># flushers s \<and>
     {#sampled_span#} \<subseteq># g_handed (shared s)"
  using run_flush run_actions_reachable batch_flush_sound [OF _ sample_empty_queues] by metis

theorem batch_no_lost_wakeup_witness:
  "\<exists>s. reachable sample_processor [] [] [] s \<and> worker_pc s = W_wait \<and> (\<exists>c \<in># closers s. closer_releasing c)"
proof -
  obtain s where s: "reachable sample_processor [] [] [] s" "worker_pc s = W_wait" "c_signalPending (shared s)"
    "producers s = {#}" "flushers s = {#}" "c_signal (shared s) = 0"
    using run_notify run_actions_reachable by metis
  then have "\<exists>c \<in># closers s. closer_releasing c"
    using batch_no_lost_wakeup [OF s(1) sample_empty_queues s(2,3)] by simp
  then show ?thesis using s by blast
qed

theorem normalizeConfig_valid_witness:
  "normalizeConfig BatchSpanProcessorConfig_default = BatchSpanProcessorConfig_default"
  using normalizeConfig_valid [of BatchSpanProcessorConfig_default]
  by (simp add: BatchSpanProcessorConfig_default_def Let_def)

end
