(* ===== verification/Batch_Progress.thy ===== *)
theory Batch_Progress
  imports Batch_Runs
begin

text \<open>
  Progress of the batch processor. A run interleaves the worker thread with the \<^verbatim>\<open>onEnd\<close> calls that are
  under way and with the clock; it is fair when the worker acts again and again and each call that has
  reserved a place in the queue goes on. In every fair run, after a shutdown request and once no flush call
  is under way, the worker comes to its end, whatever the queues choose and whatever time-outs happen, so
  \<^verbatim>\<open>shutdown\<close> does not wait for ever.

  The measure for the shutdown is lexicographic: the flush requests that wait, the phase of the worker loop, the
  spans in the queue, and the position inside a phase. A phase after the shutdown drain is left
  backwards only when the queue is not empty, so those phases count as early ones in that case.

  In normal operation the same holds for the drain of the queue, so that spans are exported without
  a flush. Both arguments are instances of the locale \<open>worker_progress\<close>.

  What is relied on of the queue of spans beyond \<open>queue_ok\<close> is that a dequeue which no other operation
  overlaps fails on an empty queue only.
\<close>

section \<open>Runs\<close>

text \<open>A run is a sequence of turns of the worker, of the \<^verbatim>\<open>onEnd\<close> calls that are under way, and of the clock,
  so any time passes during an export or a wait. A turn of a call that is not under way, or is over, does
  nothing.\<close>

datatype turn =
    Turn_worker nat bool
  | Turn_onEnd producer nat
  | Turn_time nat

definition worker_turn :: "('q, 'r, 'e) Processor \<Rightarrow> nat \<times> bool \<Rightarrow> ('q, 'r, 'e) System \<Rightarrow> ('q, 'r, 'e) System" where
  "worker_turn M choice s =
     (let (w, b) = worker_step M (fst choice) (snd choice) (worker_pc s) (shared s)
      in s\<lparr>shared := b, worker_pc := w\<rparr>)"

definition onEnd_turn ::
  "('q, 'r, 'e) Processor \<Rightarrow> producer \<Rightarrow> nat \<Rightarrow> ('q, 'r, 'e) System \<Rightarrow> ('q, 'r, 'e) System" where
  "onEnd_turn M p pick s =
     (if p \<in># producers s then
        let (p', b) = producer_step M pick p (shared s)
        in s\<lparr>shared := b, producers := add_mset p' (producers s - {#p#})\<rparr>
      else s)"

definition advance :: "nat \<Rightarrow> ('q, 'r, 'e) System \<Rightarrow> ('q, 'r, 'e) System" where
  "advance d s = s\<lparr>shared := (shared s)\<lparr>clock := clock (shared s) + int d\<rparr>\<rparr>"

fun take_turn :: "('q, 'r, 'e) Processor \<Rightarrow> turn \<Rightarrow> ('q, 'r, 'e) System \<Rightarrow> ('q, 'r, 'e) System" where
  "take_turn M (Turn_worker pick timeout) s = worker_turn M (pick, timeout) s"
| "take_turn M (Turn_onEnd p pick) s = onEnd_turn M p pick s"
| "take_turn M (Turn_time d) s = advance d s"

fun system_run ::
  "('q, 'r, 'e) Processor \<Rightarrow> (nat \<Rightarrow> turn) \<Rightarrow> ('q, 'r, 'e) System \<Rightarrow> nat \<Rightarrow> ('q, 'r, 'e) System" where
  "system_run M sch s 0 = s"
| "system_run M sch s (Suc n) = take_turn M (sch n) (system_run M sch s n)"

text \<open>No call holds a place in the queue without having put its span there.\<close>

definition quiet :: "('q, 'r, 'e) System \<Rightarrow> bool" where
  "quiet s \<longleftrightarrow> filter_mset reserved (producers s) = {#}"

fun worker_acts :: "turn \<Rightarrow> bool" where
  "worker_acts (Turn_worker _ _) = True"
| "worker_acts _ = False"

fun reserved_acts :: "turn \<Rightarrow> ('q, 'r, 'e) System \<Rightarrow> bool" where
  "reserved_acts (Turn_onEnd p _) s = (p \<in># producers s \<and> reserved p)"
| "reserved_acts _ s = False"

text \<open>A run is fair if the worker has a turn again and again, and a call that holds a place in the queue
  has one in the end.\<close>

definition fair_run :: "('q, 'r, 'e) Processor \<Rightarrow> (nat \<Rightarrow> turn) \<Rightarrow> ('q, 'r, 'e) System \<Rightarrow> bool" where
  "fair_run M sch s \<longleftrightarrow>
     (\<forall>n. \<exists>m\<ge>n. worker_acts (sch m)) \<and>
     (\<forall>n. \<not> quiet (system_run M sch s n) \<longrightarrow> (\<exists>m\<ge>n. reserved_acts (sch m) (system_run M sch s m)))"

section \<open>The calls under way come to an end\<close>

fun producer_rest :: "producer \<Rightarrow> nat" where
  "producer_rest (P_start _) = 7"
| "producer_rest (P_add _) = 6"
| "producer_rest (P_check _ _) = 5"
| "producer_rest (P_enqueue _ _) = 4"
| "producer_rest (P_schedule _) = 3"
| "producer_rest P_closed_sub = 3"
| "producer_rest P_notify = 2"
| "producer_rest P_full_sub = 2"
| "producer_rest P_release = 1"
| "producer_rest P_dropped = 1"
| "producer_rest P_done = 0"

definition calls_left :: "('q, 'r, 'e) System \<Rightarrow> nat" where
  "calls_left s = (\<Sum>p\<in>#producers s. producer_rest p)"

lemma producer_rest_step:
  "p \<noteq> P_done \<Longrightarrow> producer_step M pick p b = (p', b') \<Longrightarrow> producer_rest p' < producer_rest p"
  by (cases p) (auto simp: Let_def split: prod.splits if_splits)

lemma onEnd_turn_left:
  assumes "p \<in># producers s" and "p \<noteq> P_done"
  shows "calls_left (onEnd_turn M p pick s) < calls_left s"
proof -
  obtain p' b where step: "producer_step M pick p (shared s) = (p', b)" by fastforce
  obtain P where P: "producers s = add_mset p P" using assms(1) by (metis insert_DiffM)
  show ?thesis
    using producer_rest_step [OF assms(2) step] by (simp add: onEnd_turn_def calls_left_def P step)
qed

lemma onEnd_turn_idle:
  "calls_left (onEnd_turn M p pick s) = calls_left s \<Longrightarrow> onEnd_turn M p pick s = s"
  using onEnd_turn_left [of p s M pick] by (cases "p = P_done") (auto simp: onEnd_turn_def)

lemma onEnd_turn_left_le: "calls_left (onEnd_turn M p pick s) \<le> calls_left s"
  using onEnd_turn_left [of p s M pick] by (cases "p \<in># producers s \<and> p \<noteq> P_done") (auto simp: onEnd_turn_def)

lemma turn_producers [simp]:
  "producers (worker_turn M choice s) = producers s" "producers (advance d s) = producers s"
  by (simp_all add: worker_turn_def advance_def split: prod.split)

lemma turn_calls_left: "calls_left (take_turn M t s) \<le> calls_left s"
  by (cases t) (simp_all add: onEnd_turn_left_le, simp_all add: calls_left_def)

lemma falls_to_a_rest:
  fixes f :: "nat \<Rightarrow> nat"
  assumes "\<And>n. f (Suc n) \<le> f n"
  shows "\<exists>N. \<forall>n\<ge>N. f n = f N"
proof -
  obtain N where N: "\<And>n. f N \<le> f n" using ex_has_least_nat [of "\<lambda>_. True" 0 f] by auto
  then show ?thesis using lift_Suc_antimono_le [of f] assms by (meson le_antisym)
qed

lemma fair_run_quiet:
  assumes "fair_run M sch s"
  obtains N where "\<And>n. N \<le> n \<Longrightarrow> quiet (system_run M sch s n) \<and>
    (\<forall>p pick. sch n = Turn_onEnd p pick \<longrightarrow> system_run M sch s (Suc n) = system_run M sch s n)"
proof -
  obtain N where N: "\<And>n. N \<le> n \<Longrightarrow> calls_left (system_run M sch s n) = calls_left (system_run M sch s N)"
    using falls_to_a_rest [of "\<lambda>n. calls_left (system_run M sch s n)"] by (auto simp: turn_calls_left)
  have idle: "calls_left (system_run M sch s (Suc n)) = calls_left (system_run M sch s n)" if "N \<le> n" for n
    using N [OF that] N [of "Suc n"] that by simp
  have "quiet (system_run M sch s n)" if n: "N \<le> n" for n
  proof (rule ccontr)
    assume "\<not> quiet (system_run M sch s n)"
    then obtain m where m: "n \<le> m" "reserved_acts (sch m) (system_run M sch s m)"
      using assms by (auto simp: fair_run_def)
    then obtain p pick where p: "sch m = Turn_onEnd p pick" "p \<in># producers (system_run M sch s m)" "reserved p"
      by (cases "sch m") auto
    have "p \<noteq> P_done" using p(3) by auto
    then have "calls_left (system_run M sch s (Suc m)) < calls_left (system_run M sch s m)"
      using p by (simp add: onEnd_turn_left)
    then show False using idle [of m] m(1) n by simp
  qed
  moreover have "system_run M sch s (Suc n) = system_run M sch s n" if "N \<le> n" "sch n = Turn_onEnd p pick" for n p pick
    using idle [OF that(1)] that(2) by (simp add: onEnd_turn_idle)
  ultimately show thesis using that by blast
qed

lemma next_turn:
  assumes "fair_run M sch s"
  obtains m where "n \<le> m" "worker_acts (sch m)" "\<And>i. n \<le> i \<Longrightarrow> i < m \<Longrightarrow> \<not> worker_acts (sch i)"
proof -
  obtain m where "n \<le> m" "worker_acts (sch m)" using assms by (auto simp: fair_run_def)
  then have "n \<le> (LEAST m. n \<le> m \<and> worker_acts (sch m)) \<and> worker_acts (sch (LEAST m. n \<le> m \<and> worker_acts (sch m)))"
    using LeastI [of "\<lambda>m. n \<le> m \<and> worker_acts (sch m)"] by blast
  then show thesis using that not_less_Least by blast
qed

section \<open>Progress\<close>

definition queue_live :: "('a, 'q) queue_ops \<Rightarrow> bool" where
  "queue_live Q \<longleftrightarrow>
     (\<forall>pick n q. cq_contents Q q \<noteq> {#} \<and> 0 < n \<longrightarrow> fst (cq_try_dequeue_bulk Q pick n q) \<noteq> [])"

definition live_processor :: "('q, 'r, 'e) Processor \<Rightarrow> bool" where
  "live_processor M \<longleftrightarrow> queue_ok (m_queue M) \<and> queue_ok (m_requests M) \<and>
     queue_live (m_queue M) \<and> 1 \<le> max_batch_size (m_config M)"

text \<open>How every progress argument goes: every turn keeps the invariant, and while the goal is not reached
  and the calls are quiet, each turn of the worker decreases a well-founded order in which time does not
  count.\<close>

locale worker_progress =
  fixes M :: "('q, 'r, 'e) Processor"
    and inv :: "('q, 'r, 'e) System \<Rightarrow> bool"
    and goal :: "('q, 'r, 'e) System \<Rightarrow> bool"
    and order :: "(('q, 'r, 'e) System \<times> ('q, 'r, 'e) System) set"
  assumes wf_order: "wf order"
    and turn_inv: "inv s \<Longrightarrow> inv (take_turn M t s)"
    and turn_order: "inv s \<Longrightarrow> quiet s \<Longrightarrow> \<not> goal s \<Longrightarrow> (worker_turn M choice s, s) \<in> order"
    and time_order: "(s', advance d s) \<in> order \<Longrightarrow> (s', s) \<in> order"
begin

lemma run_inv: "inv s \<Longrightarrow> inv (system_run M sch s n)"
  by (induction n) (simp_all add: turn_inv)

text \<open>Turns without the worker, once no call acts any more.\<close>

lemma idle_turns:
  assumes "\<And>i. n \<le> i \<Longrightarrow> i < m \<Longrightarrow> \<not> worker_acts (sch i)"
    and "\<And>i p pick. n \<le> i \<Longrightarrow> sch i = Turn_onEnd p pick \<Longrightarrow> system_run M sch s (Suc i) = system_run M sch s i"
    and "n \<le> m" and "(x, system_run M sch s m) \<in> order"
  shows "(x, system_run M sch s n) \<in> order"
  using assms(3,1,4)
proof (induction m rule: dec_induct)
  case (step i)
  have "(x, system_run M sch s i) \<in> order"
  proof (cases "sch i")
    case (Turn_worker pick timeout)
    then show ?thesis using step.prems(1) [of i] step.hyps by simp
  next
    case (Turn_onEnd p pick)
    then show ?thesis using step.prems(2) assms(2) step.hyps(1) by metis
  next
    case (Turn_time d)
    then show ?thesis using step.prems(2) time_order by simp
  qed
  then show ?case using step.IH step.prems(1) by simp
qed simp

lemma reaches_goal:
  assumes "inv s" and "fair_run M sch s"
  shows "\<exists>n\<ge>k. goal (system_run M sch s n)"
proof -
  obtain N where N: "\<And>n. N \<le> n \<Longrightarrow> quiet (system_run M sch s n) \<and>
      (\<forall>p pick. sch n = Turn_onEnd p pick \<longrightarrow> system_run M sch s (Suc n) = system_run M sch s n)"
    using fair_run_quiet [OF assms(2)] by metis
  have "\<exists>m\<ge>n. goal (system_run M sch s m)" if "N \<le> n" "system_run M sch s n = x" for n x
    using that
  proof (induction x arbitrary: n rule: wf_induct_rule [OF wf_order])
    case (1 x)
    obtain m where m: "n \<le> m" "worker_acts (sch m)" "\<And>i. n \<le> i \<Longrightarrow> i < m \<Longrightarrow> \<not> worker_acts (sch i)"
      by (rule next_turn [OF assms(2), of n]) (rule that)
    show ?case
    proof (cases "goal (system_run M sch s m)")
      case True
      then show ?thesis using m(1) by blast
    next
      case False
      have Nm: "N \<le> m" using "1.prems"(1) m(1) by simp
      obtain pick timeout where t: "sch m = Turn_worker pick timeout" using m(2) by (cases "sch m") auto
      have "(system_run M sch s (Suc m), system_run M sch s m) \<in> order"
        using turn_order [OF run_inv [OF assms(1)] _ False] N [OF Nm] by (simp add: t)
      then have "(system_run M sch s (Suc m), system_run M sch s n) \<in> order"
        by (rule idle_turns [rotated 3]) (use m(1,3) N "1.prems"(1) in \<open>auto simp del: system_run.simps\<close>)
      then have "\<exists>k\<ge>Suc m. goal (system_run M sch s k)"
        using "1.IH" [OF _ _ refl] "1.prems"(2) Nm by (simp del: system_run.simps)
      then show ?thesis using m(1) by (meson Suc_leD order_trans)
    qed
  qed
  from this [of "max N k"] show ?thesis by (meson max.bounded_iff order_refl)
qed

end

text \<open>Every state of a run is reachable.\<close>

definition run_state :: "('q, 'r, 'e) Processor \<Rightarrow> 'q \<Rightarrow> 'r \<Rightarrow> 'e \<Rightarrow> ('q, 'r, 'e) System \<Rightarrow> bool" where
  "run_state M q r e s \<longleftrightarrow> live_processor M \<and> empty_queues M q r \<and> reachable M q r e s"

text \<open>A shutdown is requested and no flush call is under way.\<close>

definition settled :: "('q, 'r, 'e) System \<Rightarrow> bool" where
  "settled s \<longleftrightarrow> c_shutdownRequested (shared s) \<and> c_activeFlushCallers (shared s) = 0"

section \<open>The measure\<close>

fun site_phase :: "drain_site \<Rightarrow> nat" where
  "site_phase (Drain_flush _ _) = 30"
| "site_phase (Drain_ready _) = 10"
| "site_phase Drain_shutdown = 6"

fun flush_phase :: "bool \<Rightarrow> flush_site \<Rightarrow> bool \<Rightarrow> nat" where
  "flush_phase busy (Site_main _ shutdownRequested) completedAny =
     (if completedAny then 25 else if shutdownRequested then 7 else 12)"
| "flush_phase busy (Site_drained _) completedAny = (if busy then 22 else 5)"
| "flush_phase busy (Site_final _) completedAny = (if completedAny then 25 else 2)"

text \<open>\<open>busy\<close> says that the queue holds spans.\<close>

fun phase :: "bool \<Rightarrow> worker \<Rightarrow> nat" where
  "phase busy (W_clock site _) = site_phase site"
| "phase busy (W_size site _ _) = site_phase site"
| "phase busy (W_take site _ _) = site_phase site"
| "phase busy (W_sub site _ _) = site_phase site"
| "phase busy (W_export site _ _) = site_phase site"
| "phase busy (W_empty site _ _) = site_phase site"
| "phase busy (W_idle site _) = site_phase site"
| "phase busy (W_idle_clear site _) = site_phase site"
| "phase busy (W_drained site _) = (if busy \<and> site = Drain_shutdown then 23 else site_phase site)"
| "phase busy (W_flush_exporter _ _ _) = 29"
| "phase busy (W_flush_ok _ _ _) = 28"
| "phase busy (W_flush_release _ _) = 27"
| "phase busy (W_flush site completedAny) = flush_phase busy site completedAny"
| "phase busy (W_callers _) = (if busy then 21 else 4)"
| "phase busy (W_final_empty _) = (if busy then 20 else 3)"
| "phase busy (W_partial _) = 11"
| "phase busy (W_ready _ _) = 10"
| "phase busy (W_ready_empty _ _) = 10"
| "phase busy W_wait = 8"
| "phase busy W_clear = 8"
| "phase busy (W_load _) = 8"
| "phase busy (W_final_exporter _) = 1"
| "phase busy (W_final_store _) = 1"
| "phase busy W_stop = 1"
| "phase busy W_stopped = 0"

fun place :: "bool \<Rightarrow> worker \<Rightarrow> nat" where
  "place busy (W_sub _ _ _) = 19"
| "place busy (W_export _ _ _) = 18"
| "place busy (W_ready _ _) = 17"
| "place busy (W_ready_empty _ _) = 16"
| "place busy (W_empty _ _ _) = (if busy then 15 else 3)"
| "place busy (W_idle _ _) = 14"
| "place busy (W_idle_clear _ _) = 13"
| "place busy (W_clock _ _) = 12"
| "place busy (W_size _ _ _) = 11"
| "place busy (W_take _ _ _) = 10"
| "place busy (W_drained _ _) = 2"
| "place busy W_wait = 3"
| "place busy W_clear = 2"
| "place busy (W_load _) = 1"
| "place busy (W_final_exporter _) = 3"
| "place busy (W_final_store _) = 2"
| "place busy _ = 1"

abbreviation requests :: "('q, 'r, 'e) Processor \<Rightarrow> ('q, 'r, 'e) System \<Rightarrow> nat multiset" where
  "requests M s \<equiv> cq_contents (m_requests M) (c_flushRequests (shared s))"

definition worker_order :: "('q, 'r, 'e) Processor \<Rightarrow> (('q, 'r, 'e) System \<times> ('q, 'r, 'e) System) set" where
  "worker_order M = measures
     [\<lambda>s. size (requests M s), \<lambda>s. phase (queued M s \<noteq> {#}) (worker_pc s),
      \<lambda>s. size (queued M s), \<lambda>s. place (queued M s \<noteq> {#}) (worker_pc s)]"

lemma wf_worker_order: "wf (worker_order M)"
  by (simp add: worker_order_def)

section \<open>Every turn keeps the state of the run\<close>

lemma flush_phase_True [simp]: "flush_phase busy site True < 27"
  by (cases site) simp_all

lemma queue_liveD:
  "queue_live Q \<Longrightarrow> cq_try_dequeue_bulk Q pick n q = ([], q') \<Longrightarrow> 0 < n \<Longrightarrow> cq_contents Q q = {#}"
  unfolding queue_live_def by (metis fst_conv)

lemma run_state_size:
  "run_state M q r e s \<Longrightarrow> quiet s \<Longrightarrow>
     q_size (shared s) = int (size (queued M s)) + int (length (worker_unsub (worker_pc s)))"
  using reachable_inv [of M q r e s] by (simp add: run_state_def quiet_def batch_inv_def conserved_def)

lemma run_state_handed:
  "run_state M q r e s \<Longrightarrow> queued M s = {#} \<Longrightarrow> worker_batch (worker_pc s) = [] \<Longrightarrow>
     g_handed (shared s) = g_accepted (shared s)"
  using reachable_inv [of M q r e s] by (simp add: run_state_def batch_inv_def conserved_def)

lemma worker_step_accepted:
  assumes "worker_step M pick timeout w b = (w', b')"
  shows "c_activeFlushCallers b' = c_activeFlushCallers b" "g_accepted b' = g_accepted b"
  using assms
  by (cases w; auto simp: Let_def dest!: exporter_frames split: prod.splits if_splits list.splits drain_site.splits)+

lemma take_turn_step: "batch_step M s (take_turn M t s) \<or> take_turn M t s = s"
proof (cases t)
  case (Turn_worker pick timeout)
  then show ?thesis by (auto simp: worker_turn_def split: prod.split intro: batch_step.worker)
next
  case (Turn_onEnd p pick)
  then show ?thesis
    using batch_step.producer [of s p "producers s - {#p#}" M pick] by (auto simp: onEnd_turn_def split: prod.split)
next
  case (Turn_time d)
  then show ?thesis using batch_step.tick [of s "clock (shared s) + int d" M] by (simp add: advance_def)
qed

lemma run_state_turn: "run_state M q r e s \<Longrightarrow> run_state M q r e (take_turn M t s)"
  using take_turn_step [of M s t] unfolding run_state_def reachable_def by (metis rtranclp.rtrancl_into_rtrancl)

lemma onEnd_turn_frame:
  "c_activeFlushCallers (shared (onEnd_turn M p pick s)) = c_activeFlushCallers (shared s)"
  "c_shutdownRequested (shared (onEnd_turn M p pick s)) = c_shutdownRequested (shared s)"
  "flushers (onEnd_turn M p pick s) = flushers s" "worker_pc (onEnd_turn M p pick s) = worker_pc s"
  "g_handed (shared (onEnd_turn M p pick s)) = g_handed (shared s)"
  by (cases p; auto simp: onEnd_turn_def Let_def split: prod.splits if_splits)+

lemma advance_frame [simp]:
  "shared (advance d s) = (shared s)\<lparr>clock := clock (shared s) + int d\<rparr>"
  "worker_pc (advance d s) = worker_pc s" "flushers (advance d s) = flushers s"
  by (simp_all add: advance_def)

lemma settled_turn: "settled s \<Longrightarrow> settled (take_turn M t s)"
  using worker_step_accepted(1) [of M] worker_step_frame(1) [of M]
  by (cases t) (auto simp: settled_def worker_turn_def onEnd_turn_frame split: prod.split)

lemma shutdown_request_turn: "c_shutdownRequested (shared (take_turn M t s)) = c_shutdownRequested (shared s)"
  using worker_step_frame(1) [of M]
  by (cases t) (auto simp: worker_turn_def onEnd_turn_frame split: prod.split)

section \<open>Progress after a shutdown request\<close>

text \<open>The steps that leave both queues as they are.\<close>

lemma shutdown_turn_still:
  assumes "settled s" and "1 \<le> max_batch_size (m_config M)" and "worker_pc s \<noteq> W_stopped"
    and "q_size (shared s) = int (size (queued M s)) + int (length (worker_unsub (worker_pc s)))"
    and "\<And>site c. worker_pc s \<noteq> W_flush site c" and "\<And>site ok c. worker_pc s \<noteq> W_take site ok c"
  shows "(worker_turn M choice s, s) \<in> worker_order M"
  using assms
  by (cases "worker_pc s")
    (auto simp: worker_order_def worker_turn_def settled_def Let_def drain_in_time_def
      dest!: exporter_frames split: prod.splits drain_site.splits)

text \<open>The steps that take from a queue.\<close>

lemma dequeued_requests:
  assumes "queue_ok (m_requests M)" and "worker_pc s = W_flush site c"
  obtains (none) q' where "cq_contents (m_requests M) q' = requests M s"
      "worker_turn M choice s =
        s\<lparr>shared := (shared s)\<lparr>c_flushRequests := q'\<rparr>, worker_pc := after_flushes site c\<rparr>"
  | (some) "size (requests M (worker_turn M choice s)) < size (requests M s)"
proof -
  obtain rs q where d: "cq_try_dequeue_bulk (m_requests M) (fst choice) 1 (c_flushRequests (shared s)) = (rs, q)"
    by fastforce
  note c = dequeue_contents [OF assms(1) d]
  show thesis
  proof (cases rs)
    case Nil
    then show thesis using none [of q] assms(2) d c by (simp add: worker_turn_def)
  next
    case (Cons x xs)
    then show thesis using some assms(2) d c by (simp add: worker_turn_def)
  qed
qed

lemma dequeued_spans:
  assumes "queue_ok (m_queue M)" and "queue_live (m_queue M)" and "1 \<le> max_batch_size (m_config M)"
    and "worker_pc s = W_take site ok c"
  obtains (none) q' where "queued M s = {#}" "cq_contents (m_queue M) q' = {#}"
      "worker_turn M choice s = s\<lparr>shared := (shared s)\<lparr>q_spans := q'\<rparr>,
        worker_pc := (case site of Drain_ready _ \<Rightarrow> W_wait | _ \<Rightarrow> W_empty site ok c)\<rparr>"
  | (some) q' xs where "size (cq_contents (m_queue M) q') < size (queued M s)"
      "worker_turn M choice s = s\<lparr>shared := (shared s)\<lparr>q_spans := q'\<rparr>, worker_pc := W_sub site ok xs\<rparr>"
proof -
  obtain xs q where d: "cq_try_dequeue_bulk (m_queue M) (fst choice) (max_batch_size (m_config M))
      (q_spans (shared s)) = (xs, q)"
    by fastforce
  note c = dequeue_contents [OF assms(1) d]
  show thesis
  proof (cases xs)
    case Nil
    then have "queued M s = {#}" using queue_liveD [OF assms(2)] d assms(3) by simp
    then show thesis using none [of q] assms(4) d c Nil by (simp add: worker_turn_def)
  next
    case (Cons x xs')
    then show thesis using some [of q xs] assms(4) d c by (simp add: worker_turn_def)
  qed
qed

lemma shutdown_turn:
  assumes "run_state M q r e s" and "quiet s" and "settled s" and "worker_pc s \<noteq> W_stopped"
  shows "(worker_turn M choice s, s) \<in> worker_order M"
proof -
  have M: "queue_ok (m_queue M)" "queue_ok (m_requests M)" "queue_live (m_queue M)" "1 \<le> max_batch_size (m_config M)"
    using assms(1) by (simp_all add: run_state_def live_processor_def)
  consider (flush) site c where "worker_pc s = W_flush site c"
    | (take) site ok c where "worker_pc s = W_take site ok c"
    | (still) "\<And>site c. worker_pc s \<noteq> W_flush site c" "\<And>site ok c. worker_pc s \<noteq> W_take site ok c"
    by metis
  then show ?thesis
  proof cases
    case flush
    then show ?thesis
      by (cases rule: dequeued_requests [OF M(2) flush, of choice])
        (cases site, auto simp: worker_order_def)
  next
    case take
    then show ?thesis
      by (cases rule: dequeued_spans [OF M(1,3,4) take, of choice])
        (cases site, auto simp: worker_order_def)
  next
    case still
    then show ?thesis using shutdown_turn_still assms(3,4) M(4) run_state_size [OF assms(1,2)] by metis
  qed
qed

interpretation shutdown_run: worker_progress M "\<lambda>s. run_state M q r e s \<and> settled s"
  "\<lambda>s. worker_pc s = W_stopped" "worker_order M" for M q r e
proof unfold_locales
  show "(s', advance d s) \<in> worker_order M \<Longrightarrow> (s', s) \<in> worker_order M" for s' d and s :: "('a, 'b, 'c) System"
    by (simp add: worker_order_def)
qed (use shutdown_turn in \<open>auto simp: wf_worker_order run_state_turn settled_turn\<close>)

section \<open>Progress in normal operation\<close>

text \<open>Without a shutdown the worker goes round its loop for ever; it makes progress until the queue is
  empty and no batch is under way. A token of the semaphore can make it look at the queue without
  draining a part of a batch, so the tokens count before the phase. The phases of a round that
  drains everything come last.\<close>

fun idle_site :: "drain_site \<Rightarrow> nat" where
  "idle_site (Drain_flush _ _) = 40"
| "idle_site (Drain_ready drainPartial) = (if drainPartial then 16 else 22)"
| "idle_site Drain_shutdown = 0"

fun idle_phase :: "worker \<Rightarrow> nat" where
  "idle_phase (W_clock site _) = idle_site site"
| "idle_phase (W_size site _ _) = idle_site site"
| "idle_phase (W_take site _ _) = idle_site site"
| "idle_phase (W_sub site _ _) = idle_site site"
| "idle_phase (W_export site _ _) = idle_site site"
| "idle_phase (W_empty site _ _) = idle_site site"
| "idle_phase (W_idle site _) = idle_site site"
| "idle_phase (W_idle_clear site _) = idle_site site"
| "idle_phase (W_drained (Drain_ready _) _) = 25"
| "idle_phase (W_drained site _) = idle_site site"
| "idle_phase (W_flush_exporter _ _ _) = 39"
| "idle_phase (W_flush_ok _ _ _) = 38"
| "idle_phase (W_flush_release _ _) = 37"
| "idle_phase (W_flush (Site_main intervalElapsed _) completedAny) =
     (if completedAny then 30 else if intervalElapsed then 18 else 24)"
| "idle_phase (W_partial intervalElapsed) = (if intervalElapsed then 17 else 23)"
| "idle_phase (W_ready drainPartial _) = (if drainPartial then 16 else 22)"
| "idle_phase (W_ready_empty drainPartial _) = (if drainPartial then 16 else 22)"
| "idle_phase W_wait = 20"
| "idle_phase W_clear = 26"
| "idle_phase (W_load intervalElapsed) = (if intervalElapsed then 19 else 25)"
| "idle_phase _ = 0"

definition idle_order :: "('q, 'r, 'e) Processor \<Rightarrow> (('q, 'r, 'e) System \<times> ('q, 'r, 'e) System) set" where
  "idle_order M = measures
     [\<lambda>s. size (requests M s), \<lambda>s. c_signal (shared s), \<lambda>s. idle_phase (worker_pc s),
      \<lambda>s. size (queued M s), \<lambda>s. place (queued M s \<noteq> {#}) (worker_pc s)]"

definition drained :: "('q, 'r, 'e) Processor \<Rightarrow> ('q, 'r, 'e) System \<Rightarrow> bool" where
  "drained M s \<longleftrightarrow> queued M s = {#} \<and> worker_batch (worker_pc s) = []"

lemma idle_turn_still:
  assumes "\<not> c_shutdownRequested (shared s)" and "\<not> saw_shutdown (worker_pc s)" and "\<not> drained M s"
    and "1 \<le> max_batch_size (m_config M)"
    and "q_size (shared s) = int (size (queued M s)) + int (length (worker_unsub (worker_pc s)))"
    and "\<And>site c. worker_pc s \<noteq> W_flush site c" and "\<And>site ok c. worker_pc s \<noteq> W_take site ok c"
  shows "(worker_turn M choice s, s) \<in> idle_order M"
proof (cases "worker_pc s")
  case (W_drained site ok)
  then show ?thesis
    using assms(1-3)
    by (cases site) (auto simp: idle_order_def worker_turn_def saw_shutdown_def drained_def Let_def)
next
  case (W_flush_release req site)
  then show ?thesis
    using assms(2)
    by (cases site) (auto simp: idle_order_def worker_turn_def saw_shutdown_def)
qed (use assms in \<open>auto simp: idle_order_def worker_turn_def saw_shutdown_def drained_def Let_def
       drain_in_time_def dest!: exporter_frames split: prod.splits drain_site.splits\<close>)

lemma run_state_shutdown_unseen:
  "run_state M q r e s \<Longrightarrow> \<not> c_shutdownRequested (shared s) \<Longrightarrow> \<not> saw_shutdown (worker_pc s)"
  using reachable_inv [of M q r e s] by (auto simp: run_state_def batch_inv_def closing_def)

lemma idle_turn:
  assumes "run_state M q r e s" and "quiet s" and "\<not> c_shutdownRequested (shared s)" and "\<not> drained M s"
  shows "(worker_turn M choice s, s) \<in> idle_order M"
proof -
  have M: "queue_ok (m_queue M)" "queue_ok (m_requests M)" "queue_live (m_queue M)" "1 \<le> max_batch_size (m_config M)"
    using assms(1) by (simp_all add: run_state_def live_processor_def)
  note unseen = run_state_shutdown_unseen [OF assms(1,3)]
  consider (flush) site c where "worker_pc s = W_flush site c"
    | (take) site ok c where "worker_pc s = W_take site ok c"
    | (still) "\<And>site c. worker_pc s \<noteq> W_flush site c" "\<And>site ok c. worker_pc s \<noteq> W_take site ok c"
    by metis
  then show ?thesis
  proof cases
    case flush
    then show ?thesis
      by (cases rule: dequeued_requests [OF M(2) flush, of choice])
        (use unseen in \<open>cases site, auto simp: idle_order_def saw_shutdown_def\<close>)
  next
    case take
    then show ?thesis
      by (cases rule: dequeued_spans [OF M(1,3,4) take, of choice])
        (use assms(4) in \<open>auto simp: idle_order_def drained_def\<close>)
  next
    case still
    then show ?thesis using idle_turn_still assms(3,4) unseen M(4) run_state_size [OF assms(1,2)] by metis
  qed
qed

lemma wf_idle_order: "wf (idle_order M)"
  by (simp add: idle_order_def)

interpretation idle_run: worker_progress M "\<lambda>s. run_state M q r e s \<and> \<not> c_shutdownRequested (shared s)"
  "drained M" "idle_order M" for M q r e
proof unfold_locales
  show "(s', advance d s) \<in> idle_order M \<Longrightarrow> (s', s) \<in> idle_order M" for s' d and s :: "('a, 'b, 'c) System"
    by (simp add: idle_order_def)
qed (use idle_turn in \<open>auto simp: wf_idle_order run_state_turn shutdown_request_turn\<close>)

section \<open>What stays reached\<close>

lemma turn_stopped: "worker_pc s = W_stopped \<Longrightarrow> worker_pc (take_turn M t s) = W_stopped"
  by (cases t) (simp_all add: worker_turn_def onEnd_turn_frame)

lemma run_stopped:
  assumes "worker_pc (system_run M sch s n) = W_stopped" and "n \<le> m"
  shows "worker_pc (system_run M sch s m) = W_stopped"
  using assms(2,1) by (induction m rule: dec_induct) (simp_all add: turn_stopped)

lemma worker_handed_mono: "worker_step M pick timeout w b = (w', b') \<Longrightarrow> g_handed b \<subseteq># g_handed b'"
  by (cases w) (auto simp: Let_def dest!: exporter_frames split: prod.splits if_splits list.splits drain_site.splits)

lemma turn_handed_mono: "g_handed (shared s) \<subseteq># g_handed (shared (take_turn M t s))"
  using worker_handed_mono [of M] by (cases t) (auto simp: worker_turn_def onEnd_turn_frame split: prod.split)

lemma turn_accepted:
  "(\<And>p pick. t = Turn_onEnd p pick \<Longrightarrow> take_turn M t s = s) \<Longrightarrow>
     g_accepted (shared (take_turn M t s)) = g_accepted (shared s)"
  using worker_step_accepted(2) [of M] by (cases t) (auto simp: worker_turn_def split: prod.split)

lemma run_accepted_mono: "g_accepted (shared s) \<subseteq># g_accepted (shared (system_run M sch s n))"
proof (induction n)
  case (Suc n)
  have "g_accepted (shared x) \<subseteq># g_accepted (shared (take_turn M t x))" for t x
  proof (cases t)
    case (Turn_onEnd p pick)
    then show ?thesis by (cases p) (auto simp: onEnd_turn_def Let_def split: prod.split)
  qed (use turn_accepted [of t M x] in simp_all)
  then show ?case using Suc subset_mset.order_trans by fastforce
qed simp

text \<open>Once no call acts any more and everything is handed over, it stays so.\<close>

lemma run_handed_stays:
  assumes "\<And>n. N \<le> n \<Longrightarrow> \<forall>p pick. sch n = Turn_onEnd p pick \<longrightarrow> system_run M sch s (Suc n) = system_run M sch s n"
    and "\<And>n. run_state M q r e (system_run M sch s n)" and "N \<le> m"
    and "g_handed (shared (system_run M sch s m)) = g_accepted (shared (system_run M sch s m))" and "m \<le> n"
  shows "g_handed (shared (system_run M sch s n)) = g_accepted (shared (system_run M sch s n))"
  using assms(5)
proof (induction n rule: dec_induct)
  case base
  then show ?case by (rule assms(4))
next
  case (step n)
  have "g_accepted (shared (system_run M sch s (Suc n))) = g_accepted (shared (system_run M sch s n))"
    unfolding system_run.simps
    by (rule turn_accepted) (use assms(1) [of n] assms(3) step.hyps(1) in simp)
  moreover have "g_handed (shared (system_run M sch s n)) \<subseteq># g_handed (shared (system_run M sch s (Suc n)))"
    by (simp add: turn_handed_mono)
  moreover have "g_handed (shared (system_run M sch s (Suc n))) \<subseteq># g_accepted (shared (system_run M sch s (Suc n)))"
    using assms(2) [of "Suc n"] reachable_inv
    by (fastforce simp: run_state_def batch_inv_def conserved_def simp del: system_run.simps)
  ultimately show ?case using step.IH by (metis subset_mset.antisym)
qed

section \<open>Properties\<close>

text \<open>C8: a shutdown terminates: once it is requested and no flush call is under way, every fair run of the
  worker thread and the \<^verbatim>\<open>onEnd\<close> calls under way, whatever order the queues deliver in, whatever
  time-outs the waits have and however long exports take, comes to the end of the worker, and from then on
  every accepted span has been handed to the exporter.\<close>

theorem batch_worker_terminates:
  assumes "reachable M q r e s" and "empty_queues M q r" and "live_processor M"
    and "c_shutdownRequested (shared s)" and "c_activeFlushCallers (shared s) = 0"
    and "fair_run M sch s"
  shows "\<exists>N. \<forall>n\<ge>N. worker_pc (system_run M sch s n) = W_stopped \<and>
    g_handed (shared (system_run M sch s n)) = g_accepted (shared (system_run M sch s n)) \<and>
    g_accepted (shared s) \<subseteq># g_handed (shared (system_run M sch s n))"
proof -
  have start: "run_state M q r e s \<and> settled s"
    using assms by (simp add: run_state_def settled_def)
  obtain N where N: "worker_pc (system_run M sch s N) = W_stopped"
    using shutdown_run.reaches_goal [OF start assms(6), of 0] by blast
  have "worker_pc (system_run M sch s n) = W_stopped \<and>
      g_handed (shared (system_run M sch s n)) = g_accepted (shared (system_run M sch s n))" if "N \<le> n" for n
  proof -
    have "run_state M q r e (system_run M sch s n)" using shutdown_run.run_inv [OF start] by blast
    then show ?thesis
      using reachable_drained [of M q r e "system_run M sch s n"] run_stopped [OF N that]
        reachable_inv [of M q r e "system_run M sch s n"]
      by (simp add: run_state_def batch_inv_def closing_def)
  qed
  then show ?thesis using run_accepted_mono [of s M sch] by metis
qed

text \<open>C9: every accepted span is exported in the end without any flush: from a state without a shutdown request,
  every fair run of the worker thread and the \<^verbatim>\<open>onEnd\<close> calls under way comes to a point from which on
  all accepted spans have been handed to the exporter, those of the calls under way included, in every
  scheduling mode, however few spans there are and however long exports take.\<close>

theorem batch_worker_exports_all:
  assumes "reachable M q r e s" and "empty_queues M q r" and "live_processor M"
    and "\<not> c_shutdownRequested (shared s)" and "fair_run M sch s"
  shows "\<exists>N. \<forall>n\<ge>N. g_handed (shared (system_run M sch s n)) = g_accepted (shared (system_run M sch s n)) \<and>
    g_accepted (shared s) \<subseteq># g_handed (shared (system_run M sch s n))"
proof -
  have start: "run_state M q r e s \<and> \<not> c_shutdownRequested (shared s)"
    using assms by (simp add: run_state_def)
  note inv = conjunct1 [OF idle_run.run_inv [OF start]]
  obtain N where N: "\<And>n. N \<le> n \<Longrightarrow> \<forall>p pick. sch n = Turn_onEnd p pick \<longrightarrow>
      system_run M sch s (Suc n) = system_run M sch s n"
    using fair_run_quiet [OF assms(5)] by metis
  obtain m where m: "N \<le> m" "drained M (system_run M sch s m)"
    using idle_run.reaches_goal [OF start assms(5)] by blast
  then have "g_handed (shared (system_run M sch s m)) = g_accepted (shared (system_run M sch s m))"
    using run_state_handed [OF inv] by (simp add: drained_def)
  then show ?thesis
    using run_handed_stays [OF N inv m(1)] run_accepted_mono [of s M sch] by metis
qed

text \<open>The processor on list queues with a span in the queue, before and after a shutdown call.\<close>

lemma sample_live: "live_processor sample_processor"
  by (simp add: live_processor_def sample_processor_def BatchSpanProcessor_new_def list_queue_ok
      normalizeConfig_def BatchSpanProcessorConfig_default_def Let_def)
    (simp add: queue_live_def list_queue_def)

lemma run_up_to_join:
  "\<exists>s. run_actions sample_processor (produce sampled_span @ close_up_to_join) (System_init [] [] []) = Some s \<and>
     c_shutdownRequested (shared s) \<and> c_activeFlushCallers (shared s) = 0 \<and>
     filter_mset reserved (producers s) = {#} \<and> g_accepted (shared s) = {#sampled_span#}"
  by (simp add: produce_def close_up_to_join_def run_simps Let_def numeral_eq_Suc)

text \<open>A call that has its place in the queue and not yet put its span there; in the run it does so at its
  turn, before turns of the worker and steps of the clock.\<close>

definition produce_started :: "action list" where
  "produce_started =
     [Call_onEnd sampled_span, Run_producer (P_start sampled_span), Run_producer (P_add sampled_span)]"

lemma run_produce_started:
  "\<exists>s. run_actions sample_processor (produce sampled_span @ produce_started) (System_init [] [] []) = Some s \<and>
     \<not> c_shutdownRequested (shared s) \<and> producers s = {#P_check sampled_span 1, P_schedule 1#} \<and>
     g_accepted (shared s) = {#sampled_span#}"
  by (simp add: produce_def produce_started_def run_simps Let_def numeral_eq_Suc)

definition sample_schedule :: "nat \<Rightarrow> turn" where
  "sample_schedule n =
     (if n = 0 then Turn_onEnd (P_check sampled_span 1) 0
      else if n = 1 then Turn_onEnd (P_enqueue sampled_span 1) 0
      else if even n then Turn_worker 0 (n mod 4 = 0) else Turn_time (if n < 1000 then 1000 else 0))"

lemma sample_schedule_producers:
  "2 \<le> n \<Longrightarrow> producers (system_run M sample_schedule s n) = producers (system_run M sample_schedule s 2)"
  by (induction n rule: dec_induct) (simp_all add: sample_schedule_def)

lemma sample_schedule_fair:
  assumes "quiet (system_run M sample_schedule s 2)"
    and "quiet s \<or> P_check sampled_span 1 \<in># producers s"
    and "quiet (system_run M sample_schedule s 1) \<or>
      P_enqueue sampled_span 1 \<in># producers (system_run M sample_schedule s 1)"
  shows "fair_run M sample_schedule s"
  unfolding fair_run_def
proof (intro conjI allI impI)
  fix n
  show "\<exists>m\<ge>n. worker_acts (sample_schedule m)"
    by (intro exI [of _ "2 * n + 2"]) (simp add: sample_schedule_def)
next
  fix n assume busy: "\<not> quiet (system_run M sample_schedule s n)"
  have "quiet (system_run M sample_schedule s n)" if "2 \<le> n"
    using assms(1) sample_schedule_producers [OF that, of M s] by (simp add: quiet_def)
  then have "n = 0 \<or> n = 1" using busy by linarith
  then have "reserved_acts (sample_schedule n) (system_run M sample_schedule s n)"
    using assms(2,3) busy by (auto simp: sample_schedule_def)
  then show "\<exists>m\<ge>n. reserved_acts (sample_schedule m) (system_run M sample_schedule s m)" by blast
qed

lemma sample_schedule_quiet:
  assumes "quiet s"
  shows "fair_run M sample_schedule s"
proof -
  have no: "P_check x n \<notin># producers s" "P_enqueue x n \<notin># producers s" for x n
    using assms by (auto simp: quiet_def filter_mset_eq_mempty_iff)
  then have "system_run M sample_schedule s 1 = s" "system_run M sample_schedule s 2 = s"
    by (simp_all add: sample_schedule_def onEnd_turn_def numeral_2_eq_2)
  then show ?thesis using sample_schedule_fair [of M s] assms by simp
qed

lemma sample_schedule_in_flight:
  assumes "\<not> c_shutdownRequested (shared s)" and "producers s = {#P_check sampled_span 1, P_schedule 1#}"
  shows "fair_run sample_processor sample_schedule s"
    and "g_accepted (shared (system_run sample_processor sample_schedule s 2)) = add_mset sampled_span (g_accepted (shared s))"
proof -
  have one: "system_run sample_processor sample_schedule s 1 =
      s\<lparr>producers := {#P_enqueue sampled_span 1, P_schedule 1#}\<rparr>"
    using assms by (simp add: sample_schedule_def onEnd_turn_def)
  have step: "system_run sample_processor sample_schedule s 2 =
      take_turn sample_processor (sample_schedule 1) (system_run sample_processor sample_schedule s 1)"
    by (simp add: numeral_2_eq_2)
  have two: "producers (system_run sample_processor sample_schedule s 2) = {#P_schedule 2, P_schedule 1#}"
    "g_accepted (shared (system_run sample_processor sample_schedule s 2)) = add_mset sampled_span (g_accepted (shared s))"
    unfolding step one by (simp_all add: sample_schedule_def onEnd_turn_def sample_processor_def
        BatchSpanProcessor_new_def list_queue_def)
  show "fair_run sample_processor sample_schedule s"
    by (rule sample_schedule_fair) (unfold one, simp_all add: quiet_def two assms(2))
  show "g_accepted (shared (system_run sample_processor sample_schedule s 2)) = add_mset sampled_span (g_accepted (shared s))"
    by (rule two(2))
qed

theorem batch_worker_terminates_witness:
  "\<exists>s N. reachable sample_processor [] [] [] s \<and> g_accepted (shared s) = {#sampled_span#} \<and>
     (\<forall>n\<ge>N. worker_pc (system_run sample_processor sample_schedule s n) = W_stopped \<and>
       {#sampled_span#} \<subseteq># g_handed (shared (system_run sample_processor sample_schedule s n)))"
proof -
  obtain s where s: "reachable sample_processor [] [] [] s" "c_shutdownRequested (shared s)"
    "c_activeFlushCallers (shared s) = 0" "filter_mset reserved (producers s) = {#}"
    "g_accepted (shared s) = {#sampled_span#}"
    using run_up_to_join run_actions_reachable by metis
  have "fair_run sample_processor sample_schedule s"
    by (rule sample_schedule_quiet) (simp add: quiet_def s(4))
  from batch_worker_terminates [OF s(1) sample_empty_queues sample_live s(2,3) this] s(1,5) show ?thesis by metis
qed

theorem batch_worker_exports_all_witness:
  "\<exists>s N. reachable sample_processor [] [] [] s \<and> P_check sampled_span 1 \<in># producers s \<and>
     (\<forall>n\<ge>N. g_handed (shared (system_run sample_processor sample_schedule s n)) =
       g_accepted (shared (system_run sample_processor sample_schedule s n)))"
proof -
  obtain s where s: "reachable sample_processor [] [] [] s" "\<not> c_shutdownRequested (shared s)"
    "producers s = {#P_check sampled_span 1, P_schedule 1#}"
    using run_produce_started run_actions_reachable by metis
  from batch_worker_exports_all [OF s(1) sample_empty_queues sample_live s(2) sample_schedule_in_flight(1) [OF s(2,3)]]
    s(1,3) show ?thesis by (metis union_single_eq_member)
qed

end
