(* ===== verification/Batch_Flush.thy ===== *)
theory Batch_Flush
  imports Batch_Progress
begin

text \<open>
  Flush requests of the batch processor are answered: in every interleaving a request that a
  \<^verbatim>\<open>forceFlush\<close> call waits for is in the request queue, with the worker or already answered. The count
  \<^verbatim>\<open>activeFlushCallers\<close> keeps the worker from stopping while a call may still add a request, so no caller
  is left waiting at a worker that has stopped; and every fair run of the worker and the \<^verbatim>\<open>onEnd\<close> calls
  under way comes to answer the request.

  What is relied on of the request queue beyond \<open>queue_ok\<close> is \<open>queue_live\<close>: a dequeue fails on an empty
  queue only.
\<close>

section \<open>Flush callers\<close>

text \<open>Callers counted in \<^verbatim>\<open>activeFlushCallers\<close>, and callers that may still add a request although a shutdown
  is requested.\<close>

fun entered :: "flusher \<Rightarrow> bool" where
  "entered (F_check_shutdown _) = True"
| "entered (F_check_stopped _) = True"
| "entered (F_request _) = True"
| "entered (F_enqueue _) = True"
| "entered (F_leave _) = True"
| "entered _ = False"

fun requesting :: "flusher \<Rightarrow> bool" where
  "requesting (F_check_stopped _) = True"
| "requesting (F_request _) = True"
| "requesting (F_enqueue _) = True"
| "requesting _ = False"

text \<open>The request a call has made and not yet returned from, and the one it waits for.\<close>

fun next_request :: "flush_next \<Rightarrow> nat option" where
  "next_request (Next_wake r) = Some r"
| "next_request _ = None"

fun awaited :: "flusher \<Rightarrow> nat option" where
  "awaited (F_leave k) = next_request k"
| "awaited (F_leave_check k) = next_request k"
| "awaited (F_leave_store k) = next_request k"
| "awaited (F_leave_release k) = next_request k"
| "awaited (F_continue k) = next_request k"
| "awaited (F_wake_release r) = Some r"
| "awaited (F_wait r) = Some r"
| "awaited _ = None"

fun open_request :: "flusher \<Rightarrow> nat option" where
  "open_request (F_enqueue r) = Some r"
| "open_request f = awaited f"

lemma awaited_open: "awaited f = Some r \<Longrightarrow> open_request f = Some r"
  by (cases f) simp_all

lemma awaited_request: "awaited f = Some r \<Longrightarrow> flusher_request f = Some r"
  by (cases f) (simp_all, (metis flusher_request.simps next_request.elims option.distinct(1))+)

lemma open_flusher_request: "open_request f = Some r \<Longrightarrow> flusher_request f = Some r"
  by (cases f) (simp_all add: awaited_request)

definition holders :: "nat \<Rightarrow> flusher multiset \<Rightarrow> nat" where
  "holders r F = size {#f \<in># F. open_request f = Some r#}"

section \<open>The worker after the last check of the callers\<close>

definition past_callers :: "worker \<Rightarrow> bool" where
  "past_callers w \<longleftrightarrow> saw_empty w \<or> (\<exists>ok. w = W_final_empty ok)"

fun past_requests :: "worker \<Rightarrow> bool" where
  "past_requests (W_final_exporter _) = True"
| "past_requests (W_final_store _) = True"
| "past_requests W_stop = True"
| "past_requests W_stopped = True"
| "past_requests _ = False"

lemma past_requests_callers: "past_requests w \<Longrightarrow> past_callers w"
  by (cases w) (simp_all add: past_callers_def saw_empty_def)

section \<open>Invariants\<close>

definition callers_counted :: "('q, 'r, 'e) System \<Rightarrow> bool" where
  "callers_counted s \<longleftrightarrow> c_activeFlushCallers (shared s) = int (size (filter_mset entered (flushers s)))"

definition callers_gone :: "('q, 'r, 'e) Processor \<Rightarrow> ('q, 'r, 'e) System \<Rightarrow> bool" where
  "callers_gone M s \<longleftrightarrow>
     (past_callers (worker_pc s) \<longrightarrow> filter_mset requesting (flushers s) = {#}) \<and>
     (past_requests (worker_pc s) \<longrightarrow> requests M s = {#})"

definition single_holder :: "('q, 'r, 'e) System \<Rightarrow> bool" where
  "single_holder s \<longleftrightarrow> (\<forall>r. holders r (flushers s) \<le> 1)"

definition tracked :: "('q, 'r, 'e) Processor \<Rightarrow> ('q, 'r, 'e) System \<Rightarrow> nat \<Rightarrow> bool" where
  "tracked M s r \<longleftrightarrow> r \<in># requests M s \<or> worker_request (worker_pc s) = Some r \<or> f_done (shared s) r"

definition all_tracked :: "('q, 'r, 'e) Processor \<Rightarrow> ('q, 'r, 'e) System \<Rightarrow> bool" where
  "all_tracked M s \<longleftrightarrow> (\<forall>f \<in># flushers s. \<forall>r. awaited f = Some r \<longrightarrow> tracked M s r)"

section \<open>Steps of the other threads\<close>

text \<open>Producers and closers leave everything about flushes alone.\<close>

lemma producer_flush_frame:
  assumes "producer_step M pick p b = (p', b')"
  shows "c_activeFlushCallers b' = c_activeFlushCallers b" "c_flushRequests b' = c_flushRequests b"
    "f_done b' = f_done b"
  using assms by (cases p; auto simp: Let_def split: prod.splits if_splits)+

lemma closer_flush_frame:
  assumes "closer_step M d c b = Some (c', b')"
  shows "c_activeFlushCallers b' = c_activeFlushCallers b" "c_flushRequests b' = c_flushRequests b"
    "f_done b' = f_done b"
  using assms by (cases c; auto simp: Let_def split: prod.splits if_splits option.splits)+

text \<open>What a flush caller does to the count, to the request queue and to the answers.\<close>

lemma flusher_entered:
  assumes "flusher_step M pick f b = Some (f', b')"
  shows "c_activeFlushCallers b' - int (of_bool (entered f')) = c_activeFlushCallers b - int (of_bool (entered f))"
  using assms by (cases "(M, pick, f, b)" rule: flusher_step.cases) (auto simp: Let_def split: prod.splits if_splits)

lemma flusher_requesting:
  assumes "flusher_step M pick f b = Some (f', b')"
  shows "requesting f' \<Longrightarrow> requesting f \<or> \<not> c_shutdownRequested b"
    and "\<not> requesting f \<Longrightarrow> c_flushRequests b' = c_flushRequests b"
  using assms
  by (cases "(M, pick, f, b)" rule: flusher_step.cases; auto simp: Let_def split: prod.splits if_splits)+

lemma flusher_open:
  assumes "flusher_step M pick f b = Some (f', b')"
  shows "open_request f' = Some r \<Longrightarrow> open_request f = Some r \<or> r = f_next b \<and> (\<exists>t. f = F_request t)"
  using assms
  by (cases "(M, pick, f, b)" rule: flusher_step.cases) (auto simp: Let_def split: prod.splits if_splits)

lemma flusher_answers:
  assumes "flusher_step M pick f b = Some (f', b')" and "f_done b r" and "open_request f \<noteq> Some r"
    and "r < f_next b"
  shows "f_done b' r"
  using assms
  by (cases "(M, pick, f, b)" rule: flusher_step.cases) (auto simp: Let_def split: prod.splits if_splits)

lemma flusher_requests:
  assumes "queue_ok (m_requests M)" and "flusher_step M pick f b = Some (f', b')"
    and "r \<in># cq_contents (m_requests M) (c_flushRequests b)"
  shows "r \<in># cq_contents (m_requests M) (c_flushRequests b')"
  using assms(2,3) enqueue_contents [OF assms(1)]
  by (cases "(M, pick, f, b)" rule: flusher_step.cases) (auto simp: Let_def split: prod.splits if_splits)

lemma flusher_awaits:
  assumes "queue_ok (m_requests M)" and "flusher_step M pick f b = Some (f', b')" and "awaited f' = Some r"
  shows "awaited f = Some r \<and> (f_done b r \<longrightarrow> f_done b' r)
    \<or> r \<in># cq_contents (m_requests M) (c_flushRequests b')"
  using assms(2,3) enqueue_contents [OF assms(1)]
  by (cases "(M, pick, f, b)" rule: flusher_step.cases) (auto simp: Let_def split: prod.splits if_splits)

section \<open>The invariants are kept\<close>

lemma holders_add: "holders r (add_mset f F) = holders r F + of_bool (open_request f = Some r)"
  by (simp add: holders_def)

lemma callers_counted_flusher:
  assumes "flushers s = add_mset f F" and "flusher_step M pick f (shared s) = Some (f', b)" and "callers_counted s"
  shows "callers_counted (s\<lparr>shared := b, flushers := add_mset f' F\<rparr>)"
  using assms(1,3) flusher_entered [OF assms(2)] by (auto simp: callers_counted_def split: if_splits)

lemma callers_gone_flusher:
  assumes "flushers s = add_mset f F" and "flusher_step M pick f (shared s) = Some (f', b)"
    and "closing M s" and "callers_gone M s"
  shows "callers_gone M (s\<lparr>shared := b, flushers := add_mset f' F\<rparr>)"
proof -
  have shut: "c_shutdownRequested (shared s)" if "past_callers (worker_pc s)"
    using assms(3) that by (auto simp: closing_def past_callers_def saw_shutdown_def)
  have "filter_mset requesting (add_mset f' F) = {#}" "\<not> requesting f" if past: "past_callers (worker_pc s)"
    using assms(1,4) past shut [OF past] flusher_requesting(1) [OF assms(2)]
    by (auto simp: callers_gone_def split: if_splits)
  then show ?thesis
    using flusher_requesting(2) [OF assms(2)] past_requests_callers [of "worker_pc s"] assms(4)
    by (auto simp: callers_gone_def simp del: filter_mset_add_mset)
qed

lemma single_holder_flusher:
  assumes "flushers s = add_mset f F" and "flusher_step M pick f (shared s) = Some (f', b)"
    and "requests_known M s" and "single_holder s"
  shows "single_holder (s\<lparr>shared := b, flushers := add_mset f' F\<rparr>)"
proof -
  have new: "holders (f_next (shared s)) F = 0"
    using assms(1,3) open_flusher_request
    by (fastforce simp: holders_def requests_known_def filter_mset_eq_mempty_iff)
  have "holders r F + of_bool (open_request f' = Some r) \<le> 1" for r
  proof -
    have "holders r F + of_bool (open_request f = Some r) \<le> 1"
      using assms(1,4) by (metis holders_add single_holder_def)
    with flusher_open [OF assms(2), of r] new show ?thesis
      by (cases "r = f_next (shared s)"; cases "open_request f' = Some r"; cases "open_request f = Some r") simp_all
  qed
  then show ?thesis by (simp add: single_holder_def holders_add)
qed

lemma all_tracked_flusher:
  assumes "queue_ok (m_requests M)" and "flushers s = add_mset f F"
    and "flusher_step M pick f (shared s) = Some (f', b)"
    and "requests_known M s" and "single_holder s" and "all_tracked M s"
  shows "all_tracked M (s\<lparr>shared := b, flushers := add_mset f' F\<rparr>)"
proof -
  let ?s = "s\<lparr>shared := b, flushers := add_mset f' F\<rparr>"
  note keep = flusher_requests [OF assms(1,3)]
  have "tracked M ?s r" if g: "g \<in># F" "awaited g = Some r" for g r
  proof -
    have "0 < holders r F" using g awaited_open [of g r] by (auto simp: holders_def nonempty_has_size [symmetric] filter_mset_eq_mempty_iff)
    moreover have "holders r F + of_bool (open_request f = Some r) \<le> 1"
      using assms(2,5) by (metis holders_add single_holder_def)
    ultimately have other: "open_request f \<noteq> Some r" by (auto split: if_splits)
    have "r < f_next (shared s)"
      using assms(2,4) g awaited_request [of g r] by (auto simp: requests_known_def)
    moreover have "tracked M s r" using assms(2,6) g by (simp add: all_tracked_def)
    ultimately show ?thesis
      using keep [of r] flusher_answers [OF assms(3) _ other] by (auto simp: tracked_def)
  qed
  moreover have "tracked M ?s r" if "awaited f' = Some r" for r
    using flusher_awaits [OF assms(1,3) that] keep [of r] assms(2,6) by (auto simp: tracked_def all_tracked_def)
  ultimately show ?thesis by (auto simp: all_tracked_def)
qed

text \<open>The worker.\<close>

lemma worker_flush_frame:
  assumes "worker_step M pick timeout w b = (w', b')"
  shows "c_activeFlushCallers b' = c_activeFlushCallers b"
    and "(\<And>site c. w \<noteq> W_flush site c) \<Longrightarrow> c_flushRequests b' = c_flushRequests b"
    and "f_done b r \<Longrightarrow> f_done b' r"
    and "worker_request w = Some r \<Longrightarrow> worker_request w' = Some r \<or> f_done b' r"
  using assms
  by (cases w; auto simp: Let_def dest!: exporter_frames split: prod.splits if_splits list.splits drain_site.splits)+

lemma past_callers_worker:
  assumes "worker_step M pick timeout w b = (w', b')" and "past_callers w'"
  shows "past_callers w \<or> c_activeFlushCallers b = 0"
proof (cases "saw_empty w'")
  case True
  then show ?thesis using worker_step_saw_empty [OF assms(1)] by (auto simp: past_callers_def)
next
  case False
  then obtain ok where w': "w' = W_final_empty ok" using assms(2) by (auto simp: past_callers_def)
  have no: "after_flushes site c \<noteq> W_final_empty ok" for site c by (cases site) auto
  show ?thesis
    using assms(1) no
    by (cases w) (auto simp: w' Let_def split: prod.splits if_splits list.splits drain_site.splits)
qed

lemma past_requests_worker:
  assumes "queue_live (m_requests M)" and "worker_step M pick timeout w b = (w', b')" and "past_requests w'"
  shows "past_requests w \<or> cq_contents (m_requests M) (c_flushRequests b) = {#} \<and> (\<exists>site c. w = W_flush site c)"
proof (cases w)
  case (W_flush site c)
  then show ?thesis
    using assms(2,3) queue_liveD [OF assms(1)]
    by (auto simp: Let_def split: prod.splits list.splits)
qed (use assms(2,3) in \<open>auto simp: Let_def split: prod.splits if_splits drain_site.splits\<close>)

lemma callers_gone_worker:
  assumes "queue_ok (m_requests M)" and "queue_live (m_requests M)"
    and "worker_step M pick timeout (worker_pc s) (shared s) = (w, b)"
    and "callers_counted s" and "callers_gone M s"
  shows "callers_gone M (s\<lparr>shared := b, worker_pc := w\<rparr>)"
proof -
  have "filter_mset requesting (flushers s) = {#}" if "c_activeFlushCallers (shared s) = 0"
  proof -
    have "filter_mset entered (flushers s) = {#}" using assms(4) that by (simp add: callers_counted_def)
    moreover have "requesting f \<Longrightarrow> entered f" for f by (cases f) simp_all
    ultimately show ?thesis by (auto simp: filter_mset_eq_mempty_iff)
  qed
  then have "past_callers w \<Longrightarrow> filter_mset requesting (flushers s) = {#}"
    using past_callers_worker [OF assms(3)] assms(5) by (auto simp: callers_gone_def)
  moreover have "cq_contents (m_requests M) (c_flushRequests b) = {#}" if "past_requests w"
  proof (cases "\<exists>site c. worker_pc s = W_flush site c")
    case True
    then obtain site c where w: "worker_pc s = W_flush site c" by blast
    then have "requests M s = {#}" using past_requests_worker [OF assms(2,3) that] by auto
    then show ?thesis
      using assms(3) w dequeue_contents [OF assms(1)] by (fastforce simp: Let_def split: prod.splits)
  next
    case False
    then show ?thesis
      using past_requests_worker [OF assms(2,3) that] worker_flush_frame(2) [OF assms(3)] assms(5)
      by (auto simp: callers_gone_def)
  qed
  ultimately show ?thesis by (simp add: callers_gone_def)
qed

lemma tracked_worker:
  assumes "queue_ok (m_requests M)" and "worker_step M pick timeout (worker_pc s) (shared s) = (w, b)"
    and "tracked M s r"
  shows "tracked M (s\<lparr>shared := b, worker_pc := w\<rparr>) r"
proof (cases "\<exists>site c. worker_pc s = W_flush site c")
  case True
  then obtain site c where "worker_pc s = W_flush site c" by blast
  then show ?thesis
    using assms(2,3)
    by (auto simp: tracked_def Let_def split: prod.splits list.splits dest!: dequeue_contents [OF assms(1)])
next
  case False
  then show ?thesis
    using worker_flush_frame(2-4) [OF assms(2)] assms(3) by (auto simp: tracked_def)
qed

definition flush_inv :: "('q, 'r, 'e) Processor \<Rightarrow> ('q, 'r, 'e) System \<Rightarrow> bool" where
  "flush_inv M s \<longleftrightarrow> callers_counted s \<and> callers_gone M s \<and> single_holder s \<and> all_tracked M s"

lemmas flush_inv_defs =
  flush_inv_def callers_counted_def callers_gone_def single_holder_def all_tracked_def tracked_def holders_def

lemma flush_inv_init:
  "cq_contents (m_requests M) r = {#} \<Longrightarrow> flush_inv M (System_init q r e)"
  by (simp add: flush_inv_defs System_init_def Batch_init_def)

lemma flush_inv_step:
  assumes "batch_step M s s'" and "queue_ok (m_requests M)" and "queue_live (m_requests M)"
    and "batch_inv M s" and "flush_inv M s"
  shows "flush_inv M s'"
  using assms(1)
proof (cases rule: batch_step.cases)
  case (producer p P pick p' b)
  then show ?thesis using producer_flush_frame [OF producer(3)] assms(5) by (simp add: flush_inv_defs)
next
  case (closer c C c' b)
  then show ?thesis using closer_flush_frame [OF closer(3)] assms(5) by (simp add: flush_inv_defs)
next
  case (flusher f F pick f' b)
  then show ?thesis
    using assms(4,5) callers_counted_flusher [OF flusher(2,3)] callers_gone_flusher [OF flusher(2,3)]
      single_holder_flusher [OF flusher(2,3)] all_tracked_flusher [OF assms(2) flusher(2,3)]
    by (simp add: flush_inv_def batch_inv_def)
next
  case (worker pick timeout w b)
  have "all_tracked M s'"
    using tracked_worker [OF assms(2) worker(2)] assms(5) worker(1) by (simp add: flush_inv_def all_tracked_def)
  moreover have "callers_gone M s'"
    using callers_gone_worker [OF assms(2,3) worker(2)] assms(5) worker(1) by (simp add: flush_inv_def)
  ultimately show ?thesis
    using assms(5) worker worker_flush_frame(1) [OF worker(2)]
    by (simp add: flush_inv_def callers_counted_def single_holder_def)
qed (use assms(5) in \<open>auto simp: flush_inv_defs\<close>)

lemma reachable_flush_inv:
  assumes "reachable M q r e s" and "empty_queues M q r" and "queue_live (m_requests M)"
  shows "flush_inv M s"
  using assms(1)[unfolded reachable_def]
proof (induction rule: rtranclp_induct)
  case base
  then show ?case using assms(2) by (simp add: flush_inv_init empty_queues_def)
next
  case (step s s')
  moreover have "batch_inv M s" using step(1) by (intro reachable_inv [OF _ assms(2), of e]) (simp add: reachable_def)
  ultimately show ?case using flush_inv_step [OF step(2) _ assms(3)] assms(2) by (simp add: empty_queues_def)
qed

section \<open>Progress\<close>

text \<open>The worker takes a request at each look at the queue while there is one, so a round that takes none is
  over before the next look. The phases count down to it.\<close>

fun answer_site :: "drain_site \<Rightarrow> nat" where
  "answer_site (Drain_ready _) = 20"
| "answer_site _ = 4"

fun answer_phase :: "worker \<Rightarrow> nat" where
  "answer_phase (W_flush _ _) = 0"
| "answer_phase (W_flush_release _ _) = 1"
| "answer_phase (W_flush_ok _ _ _) = 2"
| "answer_phase (W_flush_exporter _ _ _) = 3"
| "answer_phase (W_clock site _) = answer_site site"
| "answer_phase (W_size site _ _) = answer_site site"
| "answer_phase (W_take site _ _) = answer_site site"
| "answer_phase (W_sub site _ _) = answer_site site"
| "answer_phase (W_export site _ _) = answer_site site"
| "answer_phase (W_empty site _ _) = answer_site site"
| "answer_phase (W_idle site _) = answer_site site"
| "answer_phase (W_idle_clear site _) = answer_site site"
| "answer_phase (W_drained site _) = answer_site site"
| "answer_phase (W_load _) = 8"
| "answer_phase W_clear = 9"
| "answer_phase W_wait = 10"
| "answer_phase (W_final_empty _) = 11"
| "answer_phase (W_callers _) = 12"
| "answer_phase (W_partial _) = 21"
| "answer_phase _ = 20"

definition answer_order :: "('q, 'r, 'e) Processor \<Rightarrow> (('q, 'r, 'e) System \<times> ('q, 'r, 'e) System) set" where
  "answer_order M = measures
     [\<lambda>s. size (requests M s), \<lambda>s. answer_phase (worker_pc s),
      \<lambda>s. size (queued M s), \<lambda>s. place (queued M s \<noteq> {#}) (worker_pc s)]"

lemma wf_answer_order: "wf (answer_order M)"
  by (simp add: answer_order_def)

lemma answer_turn_still:
  assumes "1 \<le> max_batch_size (m_config M)" and "\<not> past_requests (worker_pc s)"
    and "q_size (shared s) = int (size (queued M s)) + int (length (worker_unsub (worker_pc s)))"
    and "\<And>site c. worker_pc s \<noteq> W_flush site c" and "\<And>site ok c. worker_pc s \<noteq> W_take site ok c"
  shows "(worker_turn M choice s, s) \<in> answer_order M"
  using assms
  by (cases "worker_pc s")
    (auto simp: answer_order_def worker_turn_def Let_def dest!: exporter_frames split: prod.splits drain_site.splits)

text \<open>A state of a run in which a call waits for the request \<open>req\<close>.\<close>

definition awaiting :: "('q, 'r, 'e) Processor \<Rightarrow> nat \<Rightarrow> ('q, 'r, 'e) System \<Rightarrow> bool" where
  "awaiting M req s \<longleftrightarrow> queue_live (m_requests M) \<and> F_wait req \<in># flushers s"

lemma awaiting_tracked:
  assumes "run_state M q r e s" and "awaiting M req s"
  shows "tracked M s req" and "past_requests (worker_pc s) \<Longrightarrow> requests M s = {#}"
  using reachable_flush_inv [of M q r e s] assms
  by (auto simp: run_state_def awaiting_def flush_inv_def all_tracked_def callers_gone_def)

lemma answer_turn:
  assumes "run_state M q r e s" and "quiet s" and "awaiting M req s" and "\<not> f_done (shared s) req"
  shows "(worker_turn M choice s, s) \<in> answer_order M"
proof -
  have M: "queue_ok (m_queue M)" "queue_ok (m_requests M)" "queue_live (m_queue M)" "1 \<le> max_batch_size (m_config M)"
    and live: "queue_live (m_requests M)"
    using assms(1,3) by (simp_all add: run_state_def live_processor_def awaiting_def)
  note tr = awaiting_tracked [OF assms(1,3)]
  consider (flush) site c where "worker_pc s = W_flush site c"
    | (take) site ok c where "worker_pc s = W_take site ok c"
    | (still) "\<And>site c. worker_pc s \<noteq> W_flush site c" "\<And>site ok c. worker_pc s \<noteq> W_take site ok c"
    by metis
  then show ?thesis
  proof cases
    case flush
    then have "req \<in># requests M s" using tr(1) assms(4) by (simp add: tracked_def)
    then have "size (requests M (worker_turn M choice s)) < size (requests M s)"
      using flush queue_liveD [OF live] dequeue_contents [OF M(2)]
      by (fastforce simp: worker_turn_def Let_def split: prod.splits)
    then show ?thesis by (simp add: answer_order_def)
  next
    case take
    then show ?thesis
      by (cases rule: dequeued_spans [OF M(1,3,4) take, of choice])
        (cases site, auto simp: answer_order_def)
  next
    case still
    have "\<not> past_requests (worker_pc s)"
      using tr assms(4) by (cases "worker_pc s") (auto simp: tracked_def)
    then show ?thesis using answer_turn_still still M(4) run_state_size [OF assms(1,2)] by metis
  qed
qed

lemma turn_flushers [simp]: "flushers (take_turn M t s) = flushers s"
  by (cases t) (auto simp: worker_turn_def onEnd_turn_frame split: prod.split)

lemma awaiting_turn: "awaiting M req s \<Longrightarrow> awaiting M req (take_turn M t s)"
  by (simp add: awaiting_def)

interpretation flush_run: worker_progress M "\<lambda>s. run_state M q r e s \<and> awaiting M req s"
  "\<lambda>s. f_done (shared s) req" "answer_order M" for M q r e req
proof unfold_locales
  show "(s', advance d s) \<in> answer_order M \<Longrightarrow> (s', s) \<in> answer_order M" for s' d and s :: "('a, 'b, 'c) System"
    by (simp add: answer_order_def)
qed (use answer_turn in \<open>auto simp: wf_answer_order run_state_turn awaiting_turn\<close>)

section \<open>Properties\<close>

text \<open>C12: no flush caller is stranded by a shutdown: once the worker has stopped, no request is left in the queue, no
  call can add one any more, and every call that waits for a request finds it answered.\<close>

theorem batch_flush_not_stranded:
  assumes "reachable M q r e s" and "empty_queues M q r" and "queue_live (m_requests M)"
    and "worker_pc s = W_stopped" and "F_wait req \<in># flushers s"
  shows "cq_contents (m_requests M) (c_flushRequests (shared s)) = {#}
    \<and> (\<forall>n. F_enqueue n \<notin># flushers s) \<and> f_done (shared s) req
    \<and> (\<exists>b. flusher_step M pick (F_wait req) (shared s) = Some (F_result req, b))"
proof -
  note inv = reachable_flush_inv [OF assms(1-3)]
  have "tracked M s req" using inv assms(5) by (auto simp: flush_inv_def all_tracked_def)
  moreover have "requests M s = {#}" "filter_mset requesting (flushers s) = {#}"
    using inv assms(4) by (simp_all add: flush_inv_def callers_gone_def past_callers_def saw_empty_def)
  ultimately show ?thesis
    using assms(4) by (auto simp: tracked_def filter_mset_eq_mempty_iff)
qed

text \<open>C10: every flush is answered: while a call waits for its request, every fair run of the worker thread and
  the \<^verbatim>\<open>onEnd\<close> calls under way comes to answer the request, before or during a shutdown, whatever other
  requests are queued and however long exports take, and the waiting call then goes on.\<close>

theorem batch_flush_answered:
  assumes "reachable M q r e s" and "empty_queues M q r" and "live_processor M" and "queue_live (m_requests M)"
    and "F_wait req \<in># flushers s" and "fair_run M sch s"
  shows "\<exists>n b. f_done (shared (system_run M sch s n)) req
    \<and> flusher_step M pick (F_wait req) (shared (system_run M sch s n)) = Some (F_result req, b)"
proof -
  have start: "run_state M q r e s \<and> awaiting M req s"
    using assms by (simp add: run_state_def awaiting_def)
  obtain n where "f_done (shared (system_run M sch s n)) req"
    using flush_run.reaches_goal [OF start assms(6), of 0] by blast
  then show ?thesis by (intro exI [of _ n]) simp
qed

text \<open>A flush request behind a queued span, before the worker has looked at it; and a shutdown that overtakes
  it.\<close>

definition flush_up_to_wait :: "action list" where
  "flush_up_to_wait =
     [Call_forceFlush 10, Run_flusher (F_start 10), Run_flusher (F_enter 10),
      Run_flusher (F_check_shutdown 10), Run_flusher (F_check_stopped 10), Run_flusher (F_request 10),
      Run_flusher (F_enqueue 0), Run_flusher (F_leave (Next_wake 0)), Run_flusher (F_leave_check (Next_wake 0)),
      Run_flusher (F_continue (Next_wake 0)), Run_flusher (F_wake_release 0)]"

lemma sample_requests_live: "queue_live (m_requests sample_processor)"
  by (simp add: sample_processor_def BatchSpanProcessor_new_def queue_live_def list_queue_def)

lemma run_flush_up_to_wait:
  "\<exists>s. run_actions sample_processor (produce sampled_span @ flush_up_to_wait) (System_init [] [] []) = Some s \<and>
     F_wait 0 \<in># flushers s \<and> filter_mset reserved (producers s) = {#}"
  by (simp add: produce_def flush_up_to_wait_def run_simps Let_def numeral_eq_Suc)

lemma run_flush_then_stop:
  "\<exists>s. run_actions sample_processor (flush_up_to_wait @ close_up_to_join @ replicate 30 Run_worker)
      (System_init [] [] []) = Some s \<and> F_wait 0 \<in># flushers s \<and> worker_pc s = W_stopped"
  by (simp add: close_up_to_join_def flush_up_to_wait_def run_simps Let_def numeral_eq_Suc)

theorem batch_flush_answered_witness:
  "\<exists>s n. reachable sample_processor [] [] [] s \<and> F_wait 0 \<in># flushers s \<and>
     f_done (shared (system_run sample_processor sample_schedule s n)) 0"
proof -
  obtain s where s: "reachable sample_processor [] [] [] s" "filter_mset reserved (producers s) = {#}"
    "F_wait 0 \<in># flushers s"
    using run_flush_up_to_wait run_actions_reachable by metis
  have "fair_run sample_processor sample_schedule s"
    by (rule sample_schedule_quiet) (simp add: quiet_def s(2))
  from batch_flush_answered [OF s(1) sample_empty_queues sample_live sample_requests_live s(3) this] s(1,3)
  show ?thesis by metis
qed

theorem batch_flush_not_stranded_witness:
  "\<exists>s. reachable sample_processor [] [] [] s \<and> worker_pc s = W_stopped \<and> F_wait 0 \<in># flushers s \<and> f_done (shared s) 0"
proof -
  obtain s where s: "reachable sample_processor [] [] [] s" "worker_pc s = W_stopped" "F_wait 0 \<in># flushers s"
    using run_flush_then_stop run_actions_reachable by metis
  from batch_flush_not_stranded [OF s(1) sample_empty_queues sample_requests_live s(2,3)] s show ?thesis by blast
qed

end
