(* ===== verification/Batch_Success.thy ===== *)
theory Batch_Success
  imports Batch_Flush
begin

text \<open>
  When a flush succeeds: with an exporter whose operations succeed, \<^verbatim>\<open>forceFlush\<close> returns false through the
  worker only after its deadline, in every interleaving; and in every fair run a waiting flush is answered,
  with true if the answer comes by its deadline.

  The flag \<^verbatim>\<open>ok\<close> of a request is followed from the worker's loop to the caller: it is true unless the
  deadline of the request has passed, and this is stable because time only grows.
\<close>

section \<open>The flag of a request\<close>

definition exporter_succeeds :: "('q, 'r, 'e) Processor \<Rightarrow> bool" where
  "exporter_succeeds M \<longleftrightarrow>
     (\<forall>x. m_exporter M = Some x \<longrightarrow>
        (\<forall>spans e. fst (exportSpans x spans e) = Export_kSuccess) \<and> (\<forall>n e. fst (forceFlush x n e)))"

lemma exporter_succeedsD:
  assumes "exporter_succeeds M"
  shows "exportBatch M spans b = (ok, b') \<Longrightarrow> ok" "exporterFlush M n b = (ok, b') \<Longrightarrow> ok"
  using assms
  by (auto simp: exporter_succeeds_def exportBatch_def exporterFlush_def Let_def
      split: option.splits if_splits prod.splits) (metis fst_conv)+

definition late :: "('q, 'r, 'e) Batch \<Rightarrow> nat \<Rightarrow> bool" where
  "late b r \<longleftrightarrow> f_deadline b r < clock b"

fun drain_flag :: "(nat \<Rightarrow> bool) \<Rightarrow> drain_site \<Rightarrow> bool \<Rightarrow> bool" where
  "drain_flag L (Drain_flush r _) ok = (ok \<or> L r)"
| "drain_flag L _ ok = True"

fun worker_flag :: "(nat \<Rightarrow> bool) \<Rightarrow> (nat \<Rightarrow> bool) \<Rightarrow> worker \<Rightarrow> bool" where
  "worker_flag L G (W_clock site ok) = drain_flag L site ok"
| "worker_flag L G (W_size site ok _) = drain_flag L site ok"
| "worker_flag L G (W_take site ok _) = drain_flag L site ok"
| "worker_flag L G (W_sub site ok _) = drain_flag L site ok"
| "worker_flag L G (W_export site ok _) = drain_flag L site ok"
| "worker_flag L G (W_empty site ok _) = drain_flag L site ok"
| "worker_flag L G (W_idle site ok) = drain_flag L site ok"
| "worker_flag L G (W_idle_clear site ok) = drain_flag L site ok"
| "worker_flag L G (W_drained site ok) = drain_flag L site ok"
| "worker_flag L G (W_flush_exporter r _ ok) = (ok \<or> L r)"
| "worker_flag L G (W_flush_ok r _ ok) = (ok \<or> L r)"
| "worker_flag L G (W_flush_release r _) = (G r \<or> L r)"
| "worker_flag L G _ = True"

text \<open>A caller that gives up at its deadline returns false without looking at the flag.\<close>

fun flusher_flag :: "(nat \<Rightarrow> bool) \<Rightarrow> (nat \<Rightarrow> bool) \<Rightarrow> flusher \<Rightarrow> bool" where
  "flusher_flag D G (F_result r) = (G r \<or> D r)"
| "flusher_flag D G (F_return (Some r) ok) = (ok \<or> D r)"
| "flusher_flag D G _ = True"

definition due :: "('q, 'r, 'e) Batch \<Rightarrow> nat \<Rightarrow> bool" where
  "due b r \<longleftrightarrow> f_deadline b r \<le> clock b"

definition on_time :: "('q, 'r, 'e) System \<Rightarrow> bool" where
  "on_time s \<longleftrightarrow>
     worker_flag (late (shared s)) (f_ok (shared s)) (worker_pc s) \<and>
     (\<forall>r. f_done (shared s) r \<longrightarrow> f_ok (shared s) r \<or> late (shared s) r) \<and>
     (\<forall>f \<in># flushers s. flusher_flag (due (shared s)) (f_ok (shared s)) f)"

lemma late_due: "late b r \<Longrightarrow> due b r"
  by (simp add: late_def due_def)

lemma drain_flag_mono: "drain_flag L site ok \<Longrightarrow> (\<And>r. L r \<Longrightarrow> L' r) \<Longrightarrow> drain_flag L' site ok"
  by (cases site) auto

lemma worker_flag_mono:
  assumes "worker_flag L G w" and "\<And>r. L r \<Longrightarrow> L' r" and "\<And>r. G r \<Longrightarrow> G' r \<or> L' r"
  shows "worker_flag L' G' w"
  using assms by (cases w) (auto elim: drain_flag_mono)

lemma flusher_flag_mono:
  assumes "flusher_flag D G f" and "\<And>r. D r \<Longrightarrow> D' r" and "\<And>r. G r \<Longrightarrow> G' r \<or> D' r"
  shows "flusher_flag D' G' f"
  using assms by (cases "(D, G, f)" rule: flusher_flag.cases) auto

lemma on_time_cong:
  assumes "clock b = clock (shared s)" and "f_deadline b = f_deadline (shared s)"
    and "f_ok b = f_ok (shared s)" and "f_done b = f_done (shared s)"
    and "on_time s"
  shows "on_time (s\<lparr>shared := b, producers := P, closers := C\<rparr>)"
proof -
  have "late b = late (shared s)" "due b = due (shared s)"
    using assms(1,2) by (simp_all add: late_def due_def fun_eq_iff)
  then show ?thesis using assms(3-5) by (simp add: on_time_def)
qed

section \<open>Every step keeps the flags\<close>

lemma worker_clock_frame:
  assumes "worker_step M pick timeout w b = (w', b')"
  shows "clock b' = clock b" "f_deadline b' = f_deadline b"
  using assms
  by (cases w; auto simp: Let_def dest!: exporter_frames split: prod.splits if_splits list.splits drain_site.splits)+

lemma worker_flag_idle [simp]: "worker_flag L G (after_flushes site c)"
  by (cases site) simp_all

lemma worker_keeps_flag:
  assumes "exporter_succeeds M" and "worker_step M pick timeout w b = (w', b')"
    and "worker_flag (late b) (f_ok b) w"
  shows "worker_flag (late b) (f_ok b') w'"
    and "f_ok b r \<Longrightarrow> f_ok b' r \<or> late b r"
    and "f_done b' r \<Longrightarrow> f_done b r \<or> f_ok b r \<or> late b r"
proof -
  let ?goal = "worker_flag (late b) (f_ok b') w' \<and> (f_ok b r \<longrightarrow> f_ok b' r \<or> late b r)
    \<and> (f_done b' r \<longrightarrow> f_done b r \<or> f_ok b r \<or> late b r)"
  have ?goal
  proof (cases w)
    case (W_export site ok batch)
    obtain success b1 where x: "exportBatch M batch b = (success, b1)" by fastforce
    then show ?thesis
      using assms(2,3) W_export exporter_succeedsD(1) [OF assms(1) x] exportBatch_frame [OF x]
      by (cases site) (auto simp: Let_def)
  next
    case (W_flush_exporter req site ok)
    obtain success b1 where x: "exporterFlush M (remainingTimeout (clock b) (f_deadline b req)) b = (success, b1)"
      by fastforce
    then show ?thesis
      using assms(2,3) W_flush_exporter exporter_succeedsD(2) [OF assms(1) x] exporterFlush_frame [OF x] by auto
  next
    case (W_final_exporter ok)
    obtain success b1 where x: "exporterFlush M 0 b = (success, b1)" by fastforce
    then show ?thesis using assms(2,3) W_final_exporter exporterFlush_frame [OF x] by auto
  next
    case (W_drained site ok)
    then show ?thesis
      using assms(2,3) by (cases site) (auto simp: Let_def late_def drain_in_time_def)
  qed (use assms(2,3) in \<open>auto simp: Let_def late_def split: prod.splits if_splits list.splits drain_site.splits\<close>)
  then show "worker_flag (late b) (f_ok b') w'"
    and "f_ok b r \<Longrightarrow> f_ok b' r \<or> late b r"
    and "f_done b' r \<Longrightarrow> f_done b r \<or> f_ok b r \<or> late b r"
    by blast+
qed

lemma worker_flag_cong:
  assumes "\<And>r. worker_request w = Some r \<Longrightarrow> L' r = L r \<and> G' r = G r"
  shows "worker_flag L' G' w = worker_flag L G w"
proof -
  have "drain_flag L' site ok = drain_flag L site ok" if "\<And>r. drain_request site = Some r \<Longrightarrow> L' r = L r" for site ok
    using that by (cases site) auto
  then show ?thesis using assms by (cases w) auto
qed

lemma flusher_flag_cong:
  assumes "\<And>r. flusher_request f = Some r \<Longrightarrow> D' r = D r \<and> G' r = G r"
  shows "flusher_flag D' G' f = flusher_flag D G f"
  using assms by (cases "(D, G, f)" rule: flusher_flag.cases) auto

text \<open>A new request concerns neither the worker nor another caller yet.\<close>

lemma on_time_request:
  assumes "flushers s = add_mset (F_request timeout) F" and "requests_known M s" and "on_time s"
    and "flusher_step M pick (F_request timeout) (shared s) = Some (f', b)"
  shows "on_time (s\<lparr>shared := b, flushers := add_mset f' F\<rparr>)"
proof -
  let ?r = "f_next (shared s)"
  have other: "r \<noteq> ?r \<Longrightarrow> late b r = late (shared s) r \<and> due b r = due (shared s) r \<and> f_ok b r = f_ok (shared s) r
      \<and> f_done b r = f_done (shared s) r" for r
    using assms(4) by (auto simp: late_def due_def Let_def)
  have f': "f' = F_enqueue ?r" and "\<not> f_done b ?r"
    using assms(4) by (auto simp: Let_def)
  have "worker_flag (late b) (f_ok b) (worker_pc s) = worker_flag (late (shared s)) (f_ok (shared s)) (worker_pc s)"
    using assms(2) other by (intro worker_flag_cong) (auto simp: requests_known_def)
  moreover have "flusher_flag (due b) (f_ok b) f = flusher_flag (due (shared s)) (f_ok (shared s)) f" if "f \<in># F" for f
    using assms(1,2) other that by (intro flusher_flag_cong) (auto simp: requests_known_def)
  ultimately show ?thesis
    using assms(1,3) other f' \<open>\<not> f_done b ?r\<close> by (simp add: on_time_def) metis
qed

lemma flusher_flag_frame:
  assumes "flusher_step M pick f b = Some (f', b')" and "\<And>timeout. f \<noteq> F_request timeout"
  shows "clock b' = clock b" "f_deadline b' = f_deadline b" "f_ok b' = f_ok b" "f_done b' r \<Longrightarrow> f_done b r"
  using assms
  by (cases "(M, pick, f, b)" rule: flusher_step.cases; auto simp: Let_def split: prod.splits if_splits)+

lemma flusher_keeps_flag:
  assumes "flusher_step M pick f b = Some (f', b')"
    and "flusher_flag (due b) (f_ok b) f" and "\<And>r. f_done b r \<Longrightarrow> f_ok b r \<or> late b r"
  shows "flusher_flag (due b) (f_ok b) f'"
proof (cases f)
  case (F_wait r)
  have "f_done b r \<Longrightarrow> f_ok b r \<or> due b r" using assms(3) late_due by blast
  then show ?thesis using assms(1) F_wait by (auto simp: due_def split: if_splits)
next
  case (F_continue k)
  then show ?thesis using assms(1) by (cases k) auto
qed (use assms(1,2) in \<open>auto simp: Let_def split: prod.splits if_splits\<close>)

lemma on_time_flusher:
  assumes "flushers s = add_mset f F" and "flusher_step M pick f (shared s) = Some (f', b)"
    and "requests_known M s" and "on_time s"
  shows "on_time (s\<lparr>shared := b, flushers := add_mset f' F\<rparr>)"
proof (cases "\<exists>timeout. f = F_request timeout")
  case True
  then show ?thesis using on_time_request assms by blast
next
  case False
  then have keep: "clock b = clock (shared s)" "f_deadline b = f_deadline (shared s)" "f_ok b = f_ok (shared s)"
    and "\<And>r. f_done b r \<Longrightarrow> f_done (shared s) r"
    using flusher_flag_frame [OF assms(2)] by blast+
  moreover have "late b = late (shared s)" "due b = due (shared s)"
    using keep by (simp_all add: late_def due_def fun_eq_iff)
  moreover have "flusher_flag (due (shared s)) (f_ok (shared s)) f'"
    using flusher_keeps_flag [OF assms(2)] assms(1,4) by (simp add: on_time_def)
  ultimately show ?thesis using assms(1,4) by (simp add: on_time_def)
qed

lemma on_time_worker:
  assumes "exporter_succeeds M" and "worker_step M pick timeout (worker_pc s) (shared s) = (w, b)" and "on_time s"
  shows "on_time (s\<lparr>shared := b, worker_pc := w\<rparr>)"
proof -
  have L: "late b = late (shared s)" and D: "due b = due (shared s)"
    using worker_clock_frame [OF assms(2)] by (simp_all add: late_def due_def fun_eq_iff)
  have flag: "worker_flag (late (shared s)) (f_ok (shared s)) (worker_pc s)"
    using assms(3) by (simp add: on_time_def)
  note keep = worker_keeps_flag [OF assms(1,2) flag]
  have "flusher_flag (due (shared s)) (f_ok b) f" if "f \<in># flushers s" for f
  proof (rule flusher_flag_mono)
    show "flusher_flag (due (shared s)) (f_ok (shared s)) f" using assms(3) that by (simp add: on_time_def)
  qed (use keep(2) late_due in blast)+
  moreover have "f_ok b r \<or> late (shared s) r" if "f_done b r" for r
    using keep(2,3) that assms(3) by (auto simp: on_time_def)
  ultimately show ?thesis using keep(1) L D by (simp add: on_time_def)
qed

lemma on_time_tick:
  assumes "clock (shared s) \<le> now" and "on_time s"
  shows "on_time (s\<lparr>shared := (shared s)\<lparr>clock := now\<rparr>\<rparr>)"
proof -
  let ?b = "(shared s)\<lparr>clock := now\<rparr>"
  have late: "late (shared s) r \<Longrightarrow> late ?b r" and due: "due (shared s) r \<Longrightarrow> due ?b r" for r
    using assms(1) by (auto simp: late_def due_def)
  have "worker_flag (late ?b) (f_ok (shared s)) (worker_pc s)"
    using assms(2) late by (auto simp: on_time_def elim: worker_flag_mono)
  moreover have "flusher_flag (due ?b) (f_ok (shared s)) f" if "f \<in># flushers s" for f
  proof (rule flusher_flag_mono)
    show "flusher_flag (due (shared s)) (f_ok (shared s)) f" using assms(2) that by (simp add: on_time_def)
  qed (use due in blast)+
  ultimately show ?thesis using assms(2) late by (auto simp: on_time_def)
qed

lemma producer_time_frame:
  assumes "producer_step M pick p b = (p', b')"
  shows "clock b' = clock b" "f_deadline b' = f_deadline b" "f_ok b' = f_ok b" "f_done b' = f_done b"
  using assms by (cases p; auto simp: Let_def split: prod.splits if_splits)+

lemma closer_time_frame:
  assumes "closer_step M d c b = Some (c', b')"
  shows "clock b' = clock b" "f_deadline b' = f_deadline b" "f_ok b' = f_ok b" "f_done b' = f_done b"
  using assms by (cases c; auto simp: Let_def split: prod.splits if_splits option.splits)+

lemma on_time_step:
  assumes "batch_step M s s'" and "exporter_succeeds M" and "requests_known M s" and "on_time s"
  shows "on_time s'"
  using assms(1)
proof (cases rule: batch_step.cases)
  case (producer p P pick p' b)
  then show ?thesis
    using on_time_cong [OF producer_time_frame [OF producer(3)] assms(4), where C = "closers s"] by simp
next
  case (closer c C c' b)
  then show ?thesis
    using on_time_cong [OF closer_time_frame [OF closer(3)] assms(4), where P = "producers s"] by simp
next
  case (flusher f F pick f' b)
  then show ?thesis using on_time_flusher assms(3,4) by blast
next
  case (worker pick timeout w b)
  then show ?thesis using on_time_worker assms(2,4) by blast
next
  case (tick now)
  then show ?thesis using on_time_tick assms(4) by blast
qed (use assms(4) in \<open>simp_all add: on_time_def\<close>)

lemma reachable_on_time:
  assumes "reachable M q r e s" and "empty_queues M q r" and "exporter_succeeds M"
  shows "on_time s"
  using assms(1)[unfolded reachable_def]
proof (induction rule: rtranclp_induct)
  case base
  show ?case by (simp add: on_time_def System_init_def Batch_init_def)
next
  case (step s s')
  have "requests_known M s"
    using reachable_inv [OF _ assms(2), of e s] step(1) by (simp add: reachable_def batch_inv_def)
  then show ?case using on_time_step [OF step(2) assms(3)] step(3) by simp
qed

lemma worker_snapshot_frame: "worker_step M pick timeout w b = (w', b') \<Longrightarrow> g_snapshot b' = g_snapshot b"
  by (cases w)
    (auto simp: Let_def dest!: exporter_frames split: prod.splits if_splits list.splits drain_site.splits)

lemma take_turn_frame:
  "f_deadline (shared (take_turn M t s)) = f_deadline (shared s)"
  "g_snapshot (shared (take_turn M t s)) = g_snapshot (shared s)"
proof -
  have "f_deadline (shared (onEnd_turn M p pick s)) = f_deadline (shared s)
      \<and> g_snapshot (shared (onEnd_turn M p pick s)) = g_snapshot (shared s)" for p pick
    by (cases p) (auto simp: onEnd_turn_def Let_def split: prod.split)
  then show "f_deadline (shared (take_turn M t s)) = f_deadline (shared s)"
    "g_snapshot (shared (take_turn M t s)) = g_snapshot (shared s)"
    using worker_clock_frame [of M] worker_snapshot_frame [of M]
    by (cases t; auto simp: worker_turn_def split: prod.splits)+
qed

lemma system_run_frame:
  "f_deadline (shared (system_run M sch s n)) = f_deadline (shared s)"
  "g_snapshot (shared (system_run M sch s n)) = g_snapshot (shared s)"
  by (induction n) (simp_all add: take_turn_frame)

section \<open>Properties\<close>

text \<open>C22: a flush fails for lack of time only: with an exporter whose operations succeed, a flush call that made its
  request returns false only when its deadline has come, in every interleaving.\<close>

theorem batch_flush_fails_late:
  assumes "reachable M q r e s" and "empty_queues M q r" and "exporter_succeeds M"
    and "F_return (Some req) False \<in># flushers s"
  shows "f_deadline (shared s) req \<le> clock (shared s)"
  using reachable_on_time [OF assms(1-3)] assms(4) by (auto simp: on_time_def due_def)

text \<open>C11: a flush in time succeeds: with an exporter whose operations succeed, every fair run of the worker thread
  and the \<^verbatim>\<open>onEnd\<close> calls under way, however long each step takes, comes to a first point where a waiting
  flush call is answered; if that is not after the deadline of the call, the call returns true, and every
  span accepted before the request has been handed to the exporter.\<close>

theorem batch_flush_succeeds:
  assumes "reachable M q r e s" and "empty_queues M q r" and "live_processor M" and "queue_live (m_requests M)"
    and "exporter_succeeds M" and "F_wait req \<in># flushers s" and "fair_run M sch s"
  shows "\<exists>n b. (\<forall>k<n. \<not> f_done (shared (system_run M sch s k)) req)
    \<and> flusher_step M pick (F_wait req) (shared (system_run M sch s n)) = Some (F_result req, b)
    \<and> (clock (shared (system_run M sch s n)) \<le> f_deadline (shared s) req \<longrightarrow>
        flusher_step M pick (F_result req) b = Some (F_return (Some req) True, b)
        \<and> g_snapshot (shared s) req \<subseteq># g_handed b)"
proof -
  have start: "run_state M q r e s \<and> awaiting M req s"
    using assms by (simp add: run_state_def awaiting_def)
  let ?done = "\<lambda>n. f_done (shared (system_run M sch s n)) req"
  define n where "n = (LEAST n. ?done n)"
  have n: "?done n"
    using flush_run.reaches_goal [OF start assms(7), of 0] LeastI [of ?done] unfolding n_def by blast
  have first: "\<forall>k<n. \<not> ?done k" unfolding n_def using not_less_Least by blast
  let ?s = "system_run M sch s n"
  have reach: "reachable M q r e ?s"
    using flush_run.run_inv [OF start, of sch n] by (simp add: run_state_def)
  have ok: "f_ok (shared ?s) req" if "clock (shared ?s) \<le> f_deadline (shared s) req"
    using reachable_on_time [OF reach assms(2,5)] n that system_run_frame(1) [of M sch s n]
    by (auto simp: on_time_def late_def)
  have "g_snapshot (shared s) req \<subseteq># g_handed (shared ?s)" if "f_ok (shared ?s) req"
    using reachable_inv [OF reach assms(2)] that system_run_frame(2) [of M sch s n]
    by (simp add: batch_inv_def flush_sound_def)
  with ok n first show ?thesis by (intro exI [of _ n]) simp
qed

lemma sample_exporter_succeeds: "exporter_succeeds sample_processor"
  by (simp add: exporter_succeeds_def sample_processor_def BatchSpanProcessor_new_def list_exporter_def
      SpanExporter_forceFlush_def)

lemma run_flush_before_deadline:
  "\<exists>s. run_actions sample_processor (produce sampled_span @ flush_up_to_wait) (System_init [] [] []) = Some s \<and>
     F_wait 0 \<in># flushers s \<and> filter_mset reserved (producers s) = {#} \<and>
     g_snapshot (shared s) 0 = {#sampled_span#} \<and>
     clock (shared s) = 0 \<and> f_deadline (shared s) 0 = 10000000"
  by (simp add: produce_def flush_up_to_wait_def run_simps Let_def numeral_eq_Suc)

text \<open>The sample run takes at most a millisecond.\<close>

lemma sample_schedule_clock:
  "clock (shared (system_run M sample_schedule s n)) \<le> clock (shared s) + 1000 * int (min n 1000)"
proof (induction n)
  case (Suc n)
  have "clock (shared (onEnd_turn M p pick x)) = clock (shared x)" for p pick x
    by (cases p) (auto simp: onEnd_turn_def Let_def split: prod.split)
  then have "clock (shared (take_turn M (sample_schedule n) x)) \<le> clock (shared x) + (if n < 1000 then 1000 else 0)" for x
    using worker_clock_frame(1) [of M] by (auto simp: sample_schedule_def worker_turn_def split: prod.split)
  from this [of "system_run M sample_schedule s n"] Suc show ?case by (auto split: if_splits)
qed simp

theorem batch_flush_succeeds_witness:
  "\<exists>s n b. reachable sample_processor [] [] [] s \<and>
     flusher_step sample_processor 0 (F_wait 0) (shared (system_run sample_processor sample_schedule s n)) =
       Some (F_result 0, b) \<and> flusher_step sample_processor 0 (F_result 0) b = Some (F_return (Some 0) True, b) \<and>
     {#sampled_span#} \<subseteq># g_handed b"
proof -
  obtain s where s: "reachable sample_processor [] [] [] s" "filter_mset reserved (producers s) = {#}"
    "F_wait 0 \<in># flushers s" "g_snapshot (shared s) 0 = {#sampled_span#}"
    "clock (shared s) = 0" "f_deadline (shared s) 0 = 10000000"
    using run_flush_before_deadline run_actions_reachable by metis
  have "clock (shared (system_run sample_processor sample_schedule s n)) \<le> f_deadline (shared s) 0" for n
    using sample_schedule_clock [of sample_processor s n] s(5,6) by simp
  moreover have "fair_run sample_processor sample_schedule s"
    by (rule sample_schedule_quiet) (simp add: quiet_def s(2))
  ultimately show ?thesis
    using batch_flush_succeeds [OF s(1) sample_empty_queues sample_live sample_requests_live sample_exporter_succeeds
        s(3), of sample_schedule 0] s(1,4) by metis
qed

text \<open>A flush with no time at all.\<close>

lemma run_flush_no_time:
  "\<exists>s. run_actions sample_processor
      [Call_forceFlush 0, Run_flusher (F_start 0), Run_flusher (F_enter 0), Run_flusher (F_check_shutdown 0),
       Run_flusher (F_check_stopped 0), Run_flusher (F_request 0), Run_flusher (F_enqueue 0),
       Run_flusher (F_leave (Next_wake 0)), Run_flusher (F_leave_check (Next_wake 0)),
       Run_flusher (F_continue (Next_wake 0)), Run_flusher (F_wake_release 0), Run_flusher (F_wait 0)]
      (System_init [] [] []) = Some s \<and> F_return (Some 0) False \<in># flushers s"
  by (simp add: run_simps Let_def)

theorem batch_flush_fails_late_witness:
  "\<exists>s. reachable sample_processor [] [] [] s \<and> F_return (Some 0) False \<in># flushers s \<and>
     f_deadline (shared s) 0 \<le> clock (shared s)"
proof -
  obtain s where s: "reachable sample_processor [] [] [] s" "F_return (Some 0) False \<in># flushers s"
    using run_flush_no_time run_actions_reachable by metis
  from batch_flush_fails_late [OF s(1) sample_empty_queues sample_exporter_succeeds s(2)] s show ?thesis by blast
qed

end
