(* ===== verification/Batch_Record.thy ===== *)
theory Batch_Record
  imports Batch_Runs
begin

text \<open>
  What the batch processor needs of an exporter to say which spans have been exported. The locale
  \<open>recording_exporter\<close> is an exporter whose state says which batches it was given; \<open>storing_exporter\<close>
  extends it by what is safely stored, which grows with every operation and after a successful flush is
  everything given before. The file exporter and the OTLP exporter are interpretations.
\<close>

section \<open>Exporters that keep what they are given\<close>

text \<open>A batch that the worker hands over has at most \<^verbatim>\<open>max_batch_size\<close> spans.\<close>

definition batch_fits :: "('q, 'r, 'e) Processor \<Rightarrow> worker \<Rightarrow> bool" where
  "batch_fits M w \<longleftrightarrow> length (worker_batch w) \<le> max_batch_size (m_config M)"

lemma batch_fits_worker:
  assumes "queue_ok (m_queue M)" and "worker_step M pick timeout w b = (w', b')" and "batch_fits M w"
  shows "batch_fits M w'"
proof (cases w)
  case (W_take site ok exportedAny)
  then show ?thesis
    using assms(2) dequeue_contents [OF assms(1)]
    by (fastforce simp: batch_fits_def Let_def split: prod.splits drain_site.splits if_splits)
qed (use assms(2,3) in \<open>auto simp: batch_fits_def Let_def split: prod.splits if_splits list.splits drain_site.splits\<close>)

lemma batch_fits_step:
  assumes "batch_step M s s'" and "queue_ok (m_queue M)" and "batch_fits M (worker_pc s)"
  shows "batch_fits M (worker_pc s')"
  using assms(1)
proof cases
  case (worker pick timeout w b)
  then show ?thesis using batch_fits_worker assms(2,3) by simp
qed (use assms(3) in simp_all)

text \<open>\<open>sound e\<close> says that the exporter has not failed, \<open>kept old e\<close> relates the state before the run
  to the batches kept since then.\<close>

locale recording_exporter =
  fixes x :: "'e SpanExporter"
    and sound :: "'e \<Rightarrow> bool"
    and kept :: "'e \<Rightarrow> 'e \<Rightarrow> Span list list \<Rightarrow> bool"
  assumes kept_refl: "kept e e []"
    and export_sound: "exportSpans x spans e = (result, e') \<Longrightarrow> sound e' \<Longrightarrow> sound e"
    and export_kept: "exportSpans x spans e = (result, e') \<Longrightarrow> spans \<noteq> [] \<Longrightarrow> sound e' \<Longrightarrow> kept old e bs \<Longrightarrow>
      kept old e' (bs @ [spans])"
    and flush_kept: "forceFlush x n e = (done, e') \<Longrightarrow> sound e' \<Longrightarrow> sound e \<and> (kept old e bs \<longrightarrow> kept old e' bs)"
    and shutdown_kept: "shutdown x n e = (done, e') \<Longrightarrow> sound e' \<Longrightarrow>
      sound e \<and> (kept old e bs \<longrightarrow> kept old e' bs)"
begin

text \<open>While the exporter has not failed, it has kept the spans handed to it, in batches of one to \<open>cap\<close> spans.\<close>

definition keeps_handed :: "nat \<Rightarrow> 'e \<Rightarrow> ('q, 'r, 'e) Batch \<Rightarrow> bool" where
  "keeps_handed cap old b \<longleftrightarrow>
     (sound (m_exporter_state b) \<longrightarrow>
       (\<exists>bs. kept old (m_exporter_state b) bs \<and> mset (concat bs) = g_handed b \<and>
          list_all (\<lambda>spans. spans \<noteq> [] \<and> length spans \<le> cap) bs))"

lemma keeps_handed_flush:
  assumes "exporterFlush M n b = (done, b')" and "m_exporter M = Some x" and "keeps_handed cap old b"
  shows "keeps_handed cap old b'"
  using assms flush_kept unfolding keeps_handed_def exporterFlush_def
  by (fastforce simp: Let_def split: prod.splits)

lemma keeps_handed_export:
  assumes "exportBatch M spans b = (done, b')" and "m_exporter M = Some x" and "length spans \<le> cap"
    and "keeps_handed cap old b"
  shows "keeps_handed cap old (b'\<lparr>g_handed := g_handed b' + mset spans\<rparr>)"
proof (cases "spans = []")
  case True
  then show ?thesis using assms by (simp add: exportBatch_def keeps_handed_def)
next
  case False
  obtain result e where e: "exportSpans x spans (m_exporter_state b) = (result, e)"
    by (cases "exportSpans x spans (m_exporter_state b)")
  then have b': "b' = b\<lparr>m_exporter_state := e\<rparr>"
    using assms(1,2) False by (simp add: exportBatch_def)
  have "\<exists>bs. kept old e bs \<and> mset (concat bs) = g_handed b + mset spans \<and>
      list_all (\<lambda>spans. spans \<noteq> [] \<and> length spans \<le> cap) bs" if sound: "sound e"
  proof -
    obtain bs where "kept old (m_exporter_state b) bs" "mset (concat bs) = g_handed b"
      "list_all (\<lambda>spans. spans \<noteq> [] \<and> length spans \<le> cap) bs"
      using assms(4) export_sound [OF e sound] by (auto simp: keeps_handed_def)
    then show ?thesis
      using export_kept [OF e False sound] False assms(3) by (intro exI [of _ "bs @ [spans]"]) simp
  qed
  then show ?thesis by (simp add: keeps_handed_def b')
qed

lemma keeps_handed_producer:
  assumes "producer_step M pick p b = (p', b')" and "keeps_handed cap old b"
  shows "keeps_handed cap old b'"
  using assms by (cases p) (auto simp: keeps_handed_def Let_def split: prod.splits if_splits)

lemma keeps_handed_flusher:
  assumes "flusher_step M pick f b = Some (f', b')" and "keeps_handed cap old b"
  shows "keeps_handed cap old b'"
proof (cases f)
  case (F_continue k)
  then show ?thesis using assms by (cases k) (auto simp: keeps_handed_def)
qed (use assms in \<open>auto simp: keeps_handed_def Let_def split: prod.splits if_splits\<close>)

lemma keeps_handed_closer:
  assumes "closer_step M d c b = Some (c', b')" and "m_exporter M = Some x" and "keeps_handed cap old b"
  shows "keeps_handed cap old b'"
proof (cases c)
  case (S_exporter timeout deadline ok)
  then show ?thesis
    using assms shutdown_kept [of timeout "m_exporter_state b"]
    by (auto simp: keeps_handed_def Let_def split: prod.splits) metis
qed (use assms in \<open>auto simp: keeps_handed_def Let_def split: prod.splits if_splits option.splits\<close>)

lemma keeps_handed_worker:
  assumes "worker_step M pick timeout w b = (w', b')" and "m_exporter M = Some x"
    and "length (worker_batch w) \<le> cap" and "keeps_handed cap old b"
  shows "keeps_handed cap old b'"
proof (cases w)
  case (W_export site ok batch)
  then show ?thesis
    using assms keeps_handed_export [OF _ assms(2) _ assms(4), of batch]
    by (auto simp: Let_def split: prod.splits)
next
  case (W_flush_exporter r site ok)
  then show ?thesis
    using assms by (auto simp: Let_def intro: keeps_handed_flush split: prod.splits)
next
  case (W_final_exporter ok)
  then show ?thesis
    using assms by (auto simp: Let_def intro: keeps_handed_flush split: prod.splits)
qed (use assms in \<open>auto simp: keeps_handed_def Let_def split: prod.splits if_splits list.splits drain_site.splits\<close>)

lemma keeps_handed_step:
  assumes "batch_step M s s'" and "m_exporter M = Some x" and "keeps_handed cap old (shared s)"
    and "length (worker_batch (worker_pc s)) \<le> cap"
  shows "keeps_handed cap old (shared s')"
  using assms(1)
proof cases
  case (worker pick timeout w b)
  then show ?thesis using keeps_handed_worker [OF _ assms(2,4,3)] by simp
next
  case (closer c C c' b)
  then show ?thesis using keeps_handed_closer [OF _ assms(2,3)] by simp
next
  case (flusher f F pick f' b)
  then show ?thesis using keeps_handed_flusher [OF _ assms(3)] by simp
next
  case (producer p P pick p' b)
  then show ?thesis using keeps_handed_producer [OF _ assms(3)] by simp
qed (use assms(3) in \<open>simp_all add: keeps_handed_def\<close>)

lemma keeps_handed_reachable:
  assumes "reachable M q r e s" and "empty_queues M q r" and "m_exporter M = Some x"
  shows "keeps_handed (max_batch_size (m_config M)) e (shared s)"
proof -
  have "keeps_handed (max_batch_size (m_config M)) e (shared s) \<and> batch_fits M (worker_pc s)"
    using assms(1) unfolding reachable_def
  proof (induction rule: rtranclp_induct)
    case base
    show ?case
      using kept_refl [of e]
      by (auto simp: keeps_handed_def batch_fits_def System_init_def Batch_init_def intro!: exI [of _ "[]"])
  next
    case (step s s')
    then show ?case
      using keeps_handed_step [OF step(2) assms(3)] batch_fits_step [OF step(2)] assms(2)
      by (simp add: empty_queues_def batch_fits_def)
  qed
  then show ?thesis by blast
qed

end

section \<open>Exporters that store what they keep when they are flushed\<close>

text \<open>Shutdown callers whose result is still true after they read the result of the final drain.\<close>

fun past_drain :: "closer \<Rightarrow> bool" where
  "past_drain (S_claim_exporter _ _ ok) = ok"
| "past_drain (S_exporter _ _ ok) = ok"
| "past_drain (S_deadline _ ok) = ok"
| "past_drain (S_return ok) = ok"
| "past_drain _ = False"

lemma closer_past_drain:
  assumes "closer_step M d c b = Some (c', b')"
  shows "past_drain c' \<Longrightarrow> past_drain c \<or> closer_ok c \<and> c_shutdownDrainOk b" "past_drain c \<Longrightarrow> closer_ok c"
    "c_shutdownDrainOk b' = c_shutdownDrainOk b" "g_handed b' = g_handed b" "g_snapshot b' = g_snapshot b"
    "f_ok b' = f_ok b"
  using assms by (cases c; auto simp: Let_def split: prod.splits if_splits option.splits)+

text \<open>\<open>st\<close> says of spans that they are stored: those before an answered flush and, after the final flush,
  all.\<close>

fun worker_stored :: "(Span multiset \<Rightarrow> bool) \<Rightarrow> ('q, 'r, 'e) Batch \<Rightarrow> worker \<Rightarrow> bool" where
  "worker_stored st b (W_flush_ok r _ ok) = (ok \<longrightarrow> st (g_snapshot b r))"
| "worker_stored st b (W_final_store ok) = (ok \<longrightarrow> st (g_handed b))"
| "worker_stored st b W_stop = (c_shutdownDrainOk b \<longrightarrow> st (g_handed b))"
| "worker_stored st b W_stopped = (c_shutdownDrainOk b \<longrightarrow> st (g_handed b))"
| "worker_stored st b _ = True"

definition answers_stored :: "(Span multiset \<Rightarrow> bool) \<Rightarrow> ('q, 'r, 'e) System \<Rightarrow> bool" where
  "answers_stored st s \<longleftrightarrow>
     (\<forall>r. f_ok (shared s) r \<longrightarrow> st (g_snapshot (shared s) r)) \<and>
     (\<forall>r. F_return (Some r) True \<in># flushers s \<longrightarrow> st (g_snapshot (shared s) r)) \<and>
     worker_stored st (shared s) (worker_pc s) \<and>
     (\<forall>c \<in># closers s. past_drain c \<longrightarrow> c_shutdownDrainOk (shared s) \<and> worker_pc s = W_stopped)"

lemma worker_stored_mono:
  "worker_stored st b w \<Longrightarrow> (\<And>X. st X \<Longrightarrow> st' X) \<Longrightarrow> g_snapshot b' = g_snapshot b \<Longrightarrow>
   g_handed b' = g_handed b \<Longrightarrow> c_shutdownDrainOk b' = c_shutdownDrainOk b \<Longrightarrow> worker_stored st' b' w"
  by (cases w) auto

lemma answers_stored_producer:
  assumes "producer_step M pick p (shared s) = (p', b)" and "answers_stored st s"
  shows "answers_stored st (s\<lparr>shared := b, producers := P\<rparr>)"
proof -
  have frame: "g_snapshot b = g_snapshot (shared s)" "g_handed b = g_handed (shared s)" "f_ok b = f_ok (shared s)"
    "c_shutdownDrainOk b = c_shutdownDrainOk (shared s)"
    using assms(1) by (cases p; auto simp: Let_def split: prod.splits if_splits)+
  then show ?thesis
    using assms(2) worker_stored_mono [of st "shared s" "worker_pc s" st b] by (simp add: answers_stored_def)
qed

lemma answers_stored_flusher:
  assumes "flushers s = add_mset f F" and "flusher_step M pick f (shared s) = Some (f', b)"
    and "requests_known M s" and "answers_stored st s"
  shows "answers_stored st (s\<lparr>shared := b, flushers := add_mset f' F\<rparr>)"
proof -
  have drain: "c_shutdownDrainOk b = c_shutdownDrainOk (shared s)"
  proof (cases f)
    case (F_continue k)
    then show ?thesis using assms(2) by (cases k) auto
  qed (use assms(2) in \<open>auto simp: Let_def split: prod.splits if_splits\<close>)
  note frame = flusher_step_frame [OF assms(2)]
  show ?thesis
  proof (cases "\<exists>timeout. f = F_request timeout")
    case False
    have "worker_stored st b (worker_pc s)"
      using assms(4) worker_stored_mono [of st "shared s" "worker_pc s" st b] frame drain False
      by (simp add: answers_stored_def)
    then show ?thesis using assms(1,4) frame drain False by (auto simp: answers_stored_def)
  next
    case True
    then obtain timeout where f: "f = F_request timeout" by blast
    let ?r = "f_next (shared s)"
    have known: "worker_request (worker_pc s) \<noteq> Some ?r" "F_return (Some ?r) True \<notin># F"
      using assms(1,3) by (auto simp: requests_known_def)
    then have "worker_stored st b (worker_pc s)"
      using assms(2,4) f by (cases "worker_pc s") (auto simp: answers_stored_def Let_def)
    then show ?thesis using assms(1,2,4) f known by (auto simp: answers_stored_def Let_def)
  qed
qed

locale storing_exporter = recording_exporter x sound kept
  for x :: "'e SpanExporter" and sound :: "'e \<Rightarrow> bool" and kept :: "'e \<Rightarrow> 'e \<Rightarrow> Span list list \<Rightarrow> bool" +
  fixes stored :: "'e \<Rightarrow> 'e \<Rightarrow> Span list list \<Rightarrow> bool"
  assumes export_stored: "exportSpans x spans e = (result, e') \<Longrightarrow> stored old e bs \<Longrightarrow> stored old e' bs"
    and flush_stored: "forceFlush x n e = (done, e') \<Longrightarrow> stored old e bs \<Longrightarrow> stored old e' bs"
    and shutdown_stored: "shutdown x n e = (done, e') \<Longrightarrow> stored old e bs \<Longrightarrow> stored old e' bs"
    and flush_stores: "forceFlush x n e = (True, e') \<Longrightarrow> sound e \<and> (kept old e bs \<longrightarrow> stored old e' bs)"
begin

definition has_stored :: "'e \<Rightarrow> 'e \<Rightarrow> Span multiset \<Rightarrow> bool" where
  "has_stored old e X \<longleftrightarrow> (\<exists>bs. stored old e bs \<and> X \<subseteq># mset (concat bs))"

lemma has_stored_subset: "has_stored old e X \<Longrightarrow> Y \<subseteq># X \<Longrightarrow> has_stored old e Y"
  unfolding has_stored_def by (meson subset_mset.order_trans)

lemma export_has_stored:
  assumes "exportBatch M spans b = (done, b')" and "m_exporter M = Some x"
    and "has_stored old (m_exporter_state b) X"
  shows "has_stored old (m_exporter_state b') X"
  using assms export_stored unfolding has_stored_def
  by (fastforce simp: exportBatch_def Let_def split: prod.splits if_splits)

lemma flush_has_stored:
  assumes "exporterFlush M n b = (done, b')" and "m_exporter M = Some x"
  shows "has_stored old (m_exporter_state b) X \<Longrightarrow> has_stored old (m_exporter_state b') X"
    and "done \<Longrightarrow> keeps_handed cap old b \<Longrightarrow> has_stored old (m_exporter_state b') (g_handed b)"
proof -
  obtain e' where e': "forceFlush x n (m_exporter_state b) = (done, e')" "b' = b\<lparr>m_exporter_state := e'\<rparr>"
    using assms by (auto simp: exporterFlush_def Let_def split: prod.splits)
  show "has_stored old (m_exporter_state b) X \<Longrightarrow> has_stored old (m_exporter_state b') X"
    using flush_stored [OF e'(1)] e'(2) by (auto simp: has_stored_def)
  assume "done" and keeps: "keeps_handed cap old b"
  then have f: "forceFlush x n (m_exporter_state b) = (True, e')" using e'(1) by simp
  obtain bs where "kept old (m_exporter_state b) bs" "mset (concat bs) = g_handed b"
    using keeps flush_stores [OF f] by (auto simp: keeps_handed_def)
  then show "has_stored old (m_exporter_state b') (g_handed b)"
    using flush_stores [OF f] e'(2) unfolding has_stored_def by (metis Batch.select_convs(17) Batch.surjective Batch.update_convs(17) subset_mset.order_refl)
qed

abbreviation safe :: "'e \<Rightarrow> ('q, 'r, 'e) System \<Rightarrow> bool" where
  "safe old s \<equiv> answers_stored (has_stored old (m_exporter_state (shared s))) s"

lemma safe_closer:
  assumes "closers s = add_mset c C" and "closer_step M (worker_pc s = W_stopped) c (shared s) = Some (c', b)"
    and "m_exporter M = Some x" and "closing M s" and "safe old s"
  shows "safe old (s\<lparr>shared := b, closers := add_mset c' C\<rparr>)"
proof -
  have mono: "has_stored old (m_exporter_state b) X" if "has_stored old (m_exporter_state (shared s)) X" for X
  proof (cases c)
    case (S_exporter timeout deadline ok)
    then show ?thesis
      using assms(2,3) that shutdown_stored by (fastforce simp: has_stored_def split: prod.splits)
  qed (use assms(2) that in \<open>auto simp: Let_def split: prod.splits if_splits option.splits\<close>)
  note frame = closer_past_drain [OF assms(2)]
  have "worker_stored (has_stored old (m_exporter_state b)) b (worker_pc s)"
    by (rule worker_stored_mono [of "has_stored old (m_exporter_state (shared s))" "shared s"])
      (use assms(5) mono frame(3-5) in \<open>simp_all add: answers_stored_def\<close>)
  moreover have "past_drain c' \<Longrightarrow> c_shutdownDrainOk b \<and> worker_pc s = W_stopped"
    using frame(1,3) assms(1,4,5) by (auto simp: answers_stored_def closing_def)
  ultimately show ?thesis
    using assms(1,5) mono frame(3-6) by (auto simp: answers_stored_def)
qed

lemma safe_worker:
  assumes "worker_step M pick timeout (worker_pc s) (shared s) = (w, b)" and "m_exporter M = Some x"
    and "flush_sound s" and "keeps_handed cap old (shared s)" and "safe old s"
  shows "safe old (s\<lparr>shared := b, worker_pc := w\<rparr>)"
proof (cases "worker_pc s")
  case (W_export site ok batch)
  obtain success b1 where x: "exportBatch M batch (shared s) = (success, b1)" by fastforce
  note st = export_has_stored [OF x assms(2)]
  show ?thesis
    using assms(1,5) W_export x exporter_frames(1) [OF x] st
    by (auto simp: answers_stored_def Let_def split: drain_site.splits)
next
  case (W_flush_exporter req site ok)
  obtain success b1 where x: "exporterFlush M (remainingTimeout (clock (shared s)) (f_deadline (shared s) req)) (shared s) = (success, b1)"
    by fastforce
  note st = flush_has_stored [OF x assms(2)]
  have "has_stored old (m_exporter_state b1) (g_snapshot (shared s) req)" if "success \<and> ok"
    using st(2) [OF _ assms(4)] that assms(3) W_flush_exporter has_stored_subset by (auto simp: flush_sound_def)
  then show ?thesis
    using assms(1,5) W_flush_exporter x exporter_frames(2) [OF x] st(1)
    by (auto simp: answers_stored_def)
next
  case (W_final_exporter ok)
  obtain success b1 where x: "exporterFlush M 0 (shared s) = (success, b1)" by fastforce
  note st = flush_has_stored [OF x assms(2)]
  show ?thesis
    using assms(1,5) W_final_exporter x exporter_frames(2) [OF x] st(1) st(2) [OF _ assms(4)]
    by (auto simp: answers_stored_def)
next
  case (W_flush site completedAny)
  then show ?thesis
    using assms(1,5) by (cases site) (auto simp: answers_stored_def Let_def split: prod.splits list.splits)
qed (use assms(1,5) in \<open>auto simp: answers_stored_def Let_def split: prod.splits if_splits drain_site.splits\<close>)

lemma safe_step:
  assumes "batch_step M s s'" and "m_exporter M = Some x" and "batch_inv M s"
    and "keeps_handed cap old (shared s)" and "safe old s"
  shows "safe old s'"
  using assms(1)
proof cases
  case (worker pick timeout w b)
  then show ?thesis using safe_worker [OF _ assms(2) _ assms(4,5)] assms(3) by (simp add: batch_inv_def)
next
  case (closer c C c' b)
  then show ?thesis using safe_closer [OF _ _ assms(2) _ assms(5)] assms(3) by (simp add: batch_inv_def)
next
  case (flusher f F pick f' b)
  have "m_exporter_state b = m_exporter_state (shared s)"
  proof (cases f)
    case (F_continue k)
    then show ?thesis using flusher(3) by (cases k) auto
  qed (use flusher(3) in \<open>auto simp: Let_def split: prod.splits if_splits\<close>)
  then show ?thesis
    using answers_stored_flusher [OF flusher(2,3) _ assms(5)] assms(3) flusher(1) by (simp add: batch_inv_def)
next
  case (producer p P pick p' b)
  have "m_exporter_state b = m_exporter_state (shared s)"
    using producer(3) by (cases p) (auto simp: Let_def split: prod.splits if_splits)
  then show ?thesis
    using answers_stored_producer [OF producer(3) assms(5)] producer(1) by simp
next
  case (tick now)
  then show ?thesis using assms(5) by (cases "worker_pc s") (simp_all add: answers_stored_def)
qed (use assms(5) in \<open>auto simp: answers_stored_def\<close>)

lemma safe_reachable:
  assumes "reachable M q r e s" and "empty_queues M q r" and "m_exporter M = Some x"
  shows "safe e s"
  using assms(1) unfolding reachable_def
proof (induction rule: rtranclp_induct)
  case base
  show ?case by (simp add: answers_stored_def System_init_def Batch_init_def)
next
  case (step s s')
  have "reachable M q r e s" using step(1) by (simp add: reachable_def)
  then show ?case
    using safe_step [OF step(2) assms(3) reachable_inv [OF _ assms(2)] keeps_handed_reachable [OF _ assms(2,3)] step(3)]
    by blast
qed

text \<open>A flush that returns true has stored what was accepted before it; a shutdown that returns true has
  stored everything that was ever accepted.\<close>

lemma flush_stored_snapshot:
  assumes "reachable M q r e s" and "empty_queues M q r" and "m_exporter M = Some x"
    and "F_return (Some req) True \<in># flushers s"
  shows "\<exists>bs. stored e (m_exporter_state (shared s)) bs \<and> g_snapshot (shared s) req \<subseteq># mset (concat bs)"
  using safe_reachable [OF assms(1-3)] assms(4) by (simp add: answers_stored_def has_stored_def)

lemma shutdown_stored_all:
  assumes "reachable M q r e s" and "empty_queues M q r" and "m_exporter M = Some x"
    and "S_return True \<in># closers s"
  shows "\<exists>bs. stored e (m_exporter_state (shared s)) bs \<and> g_accepted (shared s) \<subseteq># mset (concat bs)"
proof -
  have "past_drain (S_return True)" by simp
  then have "c_shutdownDrainOk (shared s) \<and> worker_pc s = W_stopped"
    using safe_reachable [OF assms(1-3)] assms(4) unfolding answers_stored_def by blast
  then have "has_stored e (m_exporter_state (shared s)) (g_handed (shared s))"
    using safe_reachable [OF assms(1-3)] by (simp add: answers_stored_def)
  then show ?thesis
    using reachable_drained [OF assms(1,2)] assms(4) by (simp add: has_stored_def)
qed

end

end
