(* ===== verification/Batch_File.thy ===== *)
theory Batch_File
  imports Batch_Record
begin

text \<open>
  The batch processor with the file exporter: what the file holds while spans are queued, flushed and
  drained by any number of threads. The stream has a buffer, so a line is in the file for certain only
  after a flush; the file exporter is an interpretation of \<open>storing_exporter\<close>, where what is stored is
  what the file holds without the buffer.
\<close>

section \<open>The file exporter\<close>

abbreviation lines_of :: "Span list \<Rightarrow> string" where
  "lines_of spans \<equiv> concat (map file_line spans)"

text \<open>With the buffer, and in the file.\<close>

definition file_kept :: "FileSpanExporter \<Rightarrow> FileSpanExporter \<Rightarrow> Span list list \<Rightarrow> bool" where
  "file_kept old e bs \<longleftrightarrow>
     (stream_ok (m_out old) \<longrightarrow>
        stream_ok (m_out e) \<and> stream_text (m_out e) = stream_text (m_out old) @ lines_of (concat bs))"

definition file_stored :: "FileSpanExporter \<Rightarrow> FileSpanExporter \<Rightarrow> Span list list \<Rightarrow> bool" where
  "file_stored old e bs \<longleftrightarrow>
     (stream_ok (m_out old) \<longrightarrow>
        (\<exists>rest. os_content (m_out e) = stream_text (m_out old) @ lines_of (concat bs) @ rest))"

lemma file_stored_grows:
  "\<exists>t. os_content (m_out e') = os_content (m_out e) @ t \<Longrightarrow> file_stored old e bs \<Longrightarrow> file_stored old e' bs"
  by (auto simp: file_stored_def)

lemma file_shutdown_stream:
  "os_good (ofstream_close dev (ofstream_flush dev out)) \<Longrightarrow>
     os_good out \<and> stream_text (ofstream_close dev (ofstream_flush dev out)) = stream_text out"
  "stream_ok out \<Longrightarrow> stream_ok (ofstream_close dev (ofstream_flush dev out))"
  "\<exists>t. os_content (ofstream_close dev (ofstream_flush dev out)) = os_content out @ t"
  using ofstream_close_result(1) [of dev "ofstream_flush dev out"] ofstream_flush_result(1,2) [of dev out]
    apply simp
   apply (simp add: ofstream_close_result(3) ofstream_flush_result(4))
  apply (metis ofstream_close_result(2) ofstream_flush_result(3) append.assoc)
  done

lemma file_export_step:
  assumes "exportSpans (file_exporter dev) spans e = (result, e')"
  shows "os_good (m_out e') \<Longrightarrow> os_good (m_out e)"
    "os_good (m_out e') \<Longrightarrow> stream_text (m_out e') = stream_text (m_out e) @ lines_of spans"
    "stream_ok (m_out e) \<Longrightarrow> stream_ok (m_out e')" "\<exists>t. os_content (m_out e') = os_content (m_out e) @ t"
proof -
  have e': "e' = (if os_good (m_out e) then e\<lparr>m_out := fold (write_span dev) spans (m_out e)\<rparr> else e)"
    using assms by (auto simp: file_exporter_def FileSpanExporter_exportSpans_def Let_def split: if_splits)
  show "os_good (m_out e') \<Longrightarrow> os_good (m_out e)"
    "os_good (m_out e') \<Longrightarrow> stream_text (m_out e') = stream_text (m_out e) @ lines_of spans"
    using write_spans_good [of dev spans "m_out e"] by (simp_all add: e' split: if_splits)
  show "stream_ok (m_out e) \<Longrightarrow> stream_ok (m_out e')" by (simp add: e' write_spans_ok)
  show "\<exists>t. os_content (m_out e') = os_content (m_out e) @ t" by (simp add: e' write_spans_prefix)
qed

lemma file_flush_step:
  assumes "forceFlush (file_exporter dev) n e = (res, e')"
  shows "m_out e' = ofstream_flush dev (m_out e)" "res = os_good (m_out e')"
  using assms by (auto simp: file_exporter_def FileSpanExporter_forceFlush_def Let_def)

lemma file_shutdown_step:
  assumes "shutdown (file_exporter dev) n e = (res, e')"
  shows "m_out e' = ofstream_close dev (ofstream_flush dev (m_out e))"
  using assms by (auto simp: file_exporter_def FileSpanExporter_shutdown_def)

interpretation file_record: storing_exporter "file_exporter dev" "\<lambda>e. os_good (m_out e)" file_kept file_stored for dev
proof unfold_locales
  show "file_kept e e []" for e by (simp add: file_kept_def)
next
  fix spans e result e' old bs
  assume export: "exportSpans (file_exporter dev) spans e = (result, e')"
  note step = file_export_step [OF export]
  show "file_stored old e bs \<Longrightarrow> file_stored old e' bs" by (rule file_stored_grows [OF step(4)])
  show "os_good (m_out e') \<Longrightarrow> os_good (m_out e)" by (rule step(1))
  show "os_good (m_out e') \<Longrightarrow> file_kept old e bs \<Longrightarrow> file_kept old e' (bs @ [spans])"
    using step(2,3) by (simp add: file_kept_def)
next
  fix n e res e' old bs
  assume flush: "forceFlush (file_exporter dev) n e = (res, e')"
  note step = file_flush_step [OF flush]
  show "file_stored old e bs \<Longrightarrow> file_stored old e' bs"
    by (rule file_stored_grows) (simp_all add: step(1) ofstream_flush_result(3))
  show "os_good (m_out e') \<Longrightarrow> os_good (m_out e) \<and> (file_kept old e bs \<longrightarrow> file_kept old e' bs)"
    using ofstream_flush_result(1) [of dev "m_out e"]
    by (simp add: step(1) file_kept_def ofstream_flush_result(2,4))
next
  fix n e res e' old bs
  assume shut: "shutdown (file_exporter dev) n e = (res, e')"
  note step = file_shutdown_step [OF shut]
  show "file_stored old e bs \<Longrightarrow> file_stored old e' bs"
    by (rule file_stored_grows) (simp_all add: step file_shutdown_stream(3))
  show "os_good (m_out e') \<Longrightarrow> os_good (m_out e) \<and> (file_kept old e bs \<longrightarrow> file_kept old e' bs)"
    using file_shutdown_stream(1) [of dev "m_out e"]
    by (simp add: step file_kept_def file_shutdown_stream(2))
next
  fix n e e' old bs
  assume flush: "forceFlush (file_exporter dev) n e = (True, e')"
  note step = file_flush_step [OF flush]
  have good: "os_good (ofstream_flush dev (m_out e))" using step by simp
  then have "os_good (m_out e)" by (rule ofstream_flush_result(1))
  moreover have "file_stored old e' bs" if "file_kept old e bs"
    using that ofstream_flush_result(2) [of dev "m_out e"] ofstream_flush_result(5) [OF _ good]
    by (auto simp: file_stored_def file_kept_def step(1) stream_text_def)
  ultimately show "os_good (m_out e) \<and> (file_kept old e bs \<longrightarrow> file_stored old e' bs)" by blast
qed

section \<open>Properties\<close>

lemma lines_of_length: "length (lines_of xs) = (\<Sum>x\<in>#mset xs. length (file_line x))"
  by (induction xs) simp_all

text \<open>C19: with the file exporter on a stream that starts with an empty buffer, whatever the stream keeps in its buffer
  and whatever the device does: as long as the stream has no error, the file and the buffer together hold
  what the file held at the start followed by one line for every span handed over so far; when a flush through
  the worker has returned true, the file itself, without the buffer, begins with lines that include every span
  accepted before the flush; and when a shutdown has returned true, the file itself begins with lines for every
  span the queue ever accepted, and holds nothing else if the stream has no error.\<close>

theorem batch_file_complete:
  assumes "reachable M q r e s" and "empty_queues M q r" and "m_exporter M = Some (file_exporter dev)"
    and "os_buffer (m_out e) = []"
  defines "out \<equiv> m_out (m_exporter_state (shared s))" and "old \<equiv> os_content (m_out e)"
  shows "(os_good out \<longrightarrow> (\<exists>xs. os_content out @ os_buffer out = old @ lines_of xs \<and> mset xs = g_handed (shared s))) \<and>
    (F_return (Some req) True \<in># flushers s \<longrightarrow>
      (\<exists>xs rest. os_content out = old @ lines_of xs @ rest \<and> g_snapshot (shared s) req \<subseteq># mset xs)) \<and>
    (S_return True \<in># closers s \<longrightarrow>
      (\<exists>xs rest. os_content out = old @ lines_of xs @ rest \<and> g_accepted (shared s) \<subseteq># mset xs \<and>
        (os_good out \<longrightarrow> rest = [] \<and> mset xs = g_accepted (shared s))))"
proof -
  have old: "stream_ok (m_out e)" "stream_text (m_out e) = old"
    using assms(4) by (simp_all add: stream_ok_def stream_text_def old_def)
  have kept: "\<exists>xs. os_content out @ os_buffer out = old @ lines_of xs \<and> mset xs = g_handed (shared s)" if "os_good out"
    using file_record.keeps_handed_reachable [OF assms(1-3)] that old
    by (auto simp: file_record.keeps_handed_def file_kept_def stream_text_def out_def)
  have "\<exists>xs rest. os_content out = old @ lines_of xs @ rest \<and> g_snapshot (shared s) req \<subseteq># mset xs"
    if "F_return (Some req) True \<in># flushers s"
    using file_record.flush_stored_snapshot [OF assms(1-3) that] old by (auto simp: file_stored_def out_def)
  moreover have "\<exists>xs rest. os_content out = old @ lines_of xs @ rest \<and> g_accepted (shared s) \<subseteq># mset xs \<and>
      (os_good out \<longrightarrow> rest = [] \<and> mset xs = g_accepted (shared s))" if closed: "S_return True \<in># closers s"
  proof -
    obtain xs rest where xs: "os_content out = old @ lines_of xs @ rest" "g_accepted (shared s) \<subseteq># mset xs"
      using file_record.shutdown_stored_all [OF assms(1-3) closed] old by (auto simp: file_stored_def out_def)
    have "rest = [] \<and> mset xs = g_accepted (shared s)" if good: "os_good out"
    proof -
      obtain ys where ys: "os_content out @ os_buffer out = old @ lines_of ys" "mset ys = g_handed (shared s)"
        using kept [OF good] by blast
      have acc: "mset ys \<subseteq># mset xs" using xs(2) ys(2) reachable_drained [OF assms(1,2)] closed by simp
      have eq: "lines_of ys = lines_of xs @ rest @ os_buffer out" using xs(1) ys(1) by simp
      obtain Z where Z: "mset xs = mset ys + Z" using acc by (metis subset_mset.less_eqE)
      have "length (lines_of ys) = length (lines_of xs) + length (rest @ os_buffer out)" using eq by simp
      then have "(\<Sum>x\<in>#Z. length (file_line x)) = 0" "rest = []"
        unfolding lines_of_length Z by simp_all
      then have "Z = {#}" by (cases Z) (auto simp: file_line_def)
      then show ?thesis using Z ys(2) reachable_drained [OF assms(1,2)] closed \<open>rest = []\<close> by simp
    qed
    then show ?thesis using xs by blast
  qed
  ultimately show ?thesis using kept by blast
qed

text \<open>Runs of the processor with an exporter to a file, for the witness; the device takes every byte and the
  stream passes on none before it is flushed.\<close>

definition file_processor :: "(Span list, nat list, FileSpanExporter) Processor" where
  "file_processor =
     BatchSpanProcessor_new (Some (file_exporter \<lparr>dev_spill = (\<lambda>content buffer. 0), dev_take = (\<lambda>content s. length s)\<rparr>))
       BatchSpanProcessorConfig_default list_queue list_queue"

lemma file_processor_exporter:
  "m_exporter file_processor = Some (file_exporter \<lparr>dev_spill = (\<lambda>content buffer. 0), dev_take = (\<lambda>content s. length s)\<rparr>)"
  by (simp add: file_processor_def BatchSpanProcessor_new_def)

lemma file_empty_queues: "empty_queues file_processor [] []"
  by (simp add: empty_queues_def file_processor_def BatchSpanProcessor_new_def list_queue_ok)
    (simp add: list_queue_def)

lemma run_file_shutdown:
  "\<exists>s. run_actions file_processor (produce sampled_span @ close_up_to_join @ replicate 20 Run_worker @ join_and_return)
        (System_init [] [] (FileSpanExporter_new (Some []))) = Some s \<and>
     S_return True \<in># closers s \<and> g_accepted (shared s) = {#sampled_span#} \<and>
     os_good (m_out (m_exporter_state (shared s)))"
  by (simp add: produce_def close_up_to_join_def join_and_return_def run_simps file_processor_def
      file_exporter_def FileSpanExporter_new_def FileSpanExporter_exportSpans_def
      FileSpanExporter_forceFlush_def FileSpanExporter_shutdown_def ofstream_write_def ofstream_pass_def
      ofstream_flush_def ofstream_close_def Let_def numeral_eq_Suc)

theorem batch_file_complete_witness:
  "\<exists>s. reachable file_processor [] [] (FileSpanExporter_new (Some [])) s \<and> S_return True \<in># closers s \<and>
     os_content (m_out (m_exporter_state (shared s))) = file_line sampled_span"
proof -
  obtain s where s: "reachable file_processor [] [] (FileSpanExporter_new (Some [])) s"
    "S_return True \<in># closers s" "g_accepted (shared s) = {#sampled_span#}"
    "os_good (m_out (m_exporter_state (shared s)))"
    using run_file_shutdown run_actions_reachable by metis
  have "os_buffer (m_out (FileSpanExporter_new (Some []))) = []" by (simp add: FileSpanExporter_new_def)
  from batch_file_complete [OF s(1) file_empty_queues file_processor_exporter this] s(2-4)
  obtain xs where "os_content (m_out (m_exporter_state (shared s))) =
      os_content (m_out (FileSpanExporter_new (Some []))) @ lines_of xs" "mset xs = {#sampled_span#}"
    by auto
  then have "os_content (m_out (m_exporter_state (shared s))) = file_line sampled_span"
    by (simp add: FileSpanExporter_new_def)
  then show ?thesis using s by blast
qed

end
