(* ===== verification/Batch_Otlp.thy ===== *)
theory Batch_Otlp
  imports Batch_Record Otlp_Exporter
begin

text \<open>
  The batch processor with the OTLP exporter: which requests leave the process while spans are
  queued, flushed and drained by any number of threads. The transport is arbitrary; it is wrapped
  so that the requests given to it are recorded beside its own state. The exporter is another
  interpretation of the locale \<open>recording_exporter\<close> of \<open>Batch_Record\<close>.
\<close>

section \<open>Recording the requests\<close>

definition recorded :: "'w OtlpHttpTransport \<Rightarrow> ('w \<times> OtlpHttpRequest list) OtlpHttpTransport" where
  "recorded transport request w =
     (let (answer, w') = transport request (fst w) in (answer, w', snd w @ [request]))"

text \<open>The request that the exporter makes of a batch.\<close>

definition batch_request :: "(double \<Rightarrow> string) \<Rightarrow> OtlpHttpExporterConfig \<Rightarrow> Span list \<Rightarrow> OtlpHttpRequest" where
  "batch_request fmt config spans =
     \<lparr>rq_method = ''POST'', rq_endpoint = oc_endpoint config, rq_timeout = oc_timeout config,
      rq_headers = makeHeaders config, rq_body = buildOtlpJsonBody fmt spans config\<rparr>"

abbreviation recorded_exporter ::
  "(double \<Rightarrow> string) \<Rightarrow> OtlpHttpExporterConfig \<Rightarrow> 'w OtlpHttpTransport \<Rightarrow> ('w \<times> OtlpHttpRequest list) SpanExporter" where
  "recorded_exporter fmt config transport \<equiv>
     otlp_exporter fmt (OtlpHttpExporter_new config (Some (recorded transport)))"

lemma otlp_export_recorded:
  assumes "exportSpans (recorded_exporter fmt config transport) spans w = (result, w')"
  shows "snd w' = snd w @ (if spans = [] then [] else [batch_request fmt config spans])"
  using assms
  by (auto simp: otlp_exporter_def OtlpHttpExporter_exportSpans_def OtlpHttpExporter_new_def
      makeDefaultTransport_def recorded_def batch_request_def Let_def split: prod.splits sum.splits if_splits)

definition otlp_kept ::
  "(double \<Rightarrow> string) \<Rightarrow> OtlpHttpExporterConfig \<Rightarrow> 'w \<times> OtlpHttpRequest list \<Rightarrow> 'w \<times> OtlpHttpRequest list \<Rightarrow>
   Span list list \<Rightarrow> bool" where
  "otlp_kept fmt config old w batches \<longleftrightarrow> snd w = snd old @ map (batch_request fmt config) batches"

interpretation otlp_record: recording_exporter "recorded_exporter fmt config transport" "\<lambda>_. True"
  "otlp_kept fmt config"
proof unfold_locales
  fix spans w result w' old batches
  assume "exportSpans (recorded_exporter fmt config transport) spans w = (result, w')" "spans \<noteq> []"
    and "otlp_kept fmt config old w batches"
  then show "otlp_kept fmt config old w' (batches @ [spans])"
    using otlp_export_recorded [of fmt config transport spans w result w'] by (simp add: otlp_kept_def)
qed (auto simp: otlp_kept_def otlp_exporter_def OtlpHttpExporter_forceFlush_def OtlpHttpExporter_shutdown_def)

section \<open>Properties\<close>

text \<open>C20: with the OTLP exporter, the requests that leave the process are exactly one POST for each batch
  the worker took, with the body of that batch, never an empty one and never with more spans than
  \<^verbatim>\<open>max_batch_size\<close>; together the batches are the
  spans handed over, each in one request only, and once the worker has stopped or a shutdown has
  returned true they are all the spans the queue ever accepted. A failed request is not repeated.\<close>

theorem batch_otlp_requests:
  assumes "reachable M q r (w, []) s" and "empty_queues M q r"
    and "m_exporter M = Some (recorded_exporter fmt config transport)"
  shows "\<exists>batches. snd (m_exporter_state (shared s)) = map (batch_request fmt config) batches \<and>
            list_all (\<lambda>b. b \<noteq> [] \<and> length b \<le> max_batch_size (m_config M)) batches \<and>
            mset (concat batches) = g_handed (shared s) \<and>
            (c_workerStopped (shared s) \<or> S_return True \<in># closers s \<longrightarrow>
               mset (concat batches) = g_accepted (shared s))"
proof -
  obtain batches where "otlp_kept fmt config (w, []) (m_exporter_state (shared s)) batches"
    "mset (concat batches) = g_handed (shared s)"
    "list_all (\<lambda>b. b \<noteq> [] \<and> length b \<le> max_batch_size (m_config M)) batches"
    using otlp_record.keeps_handed_reachable [OF assms] by (auto simp: otlp_record.keeps_handed_def)
  then show ?thesis
    using reachable_drained [OF assms(1,2)] by (auto simp: otlp_kept_def)
qed

text \<open>A run with a transport that answers every request with 200, for the witness.\<close>

definition otlp_processor :: "(Span list, nat list, nat \<times> OtlpHttpRequest list) Processor" where
  "otlp_processor =
     BatchSpanProcessor_new
       (Some (recorded_exporter sample_fmt OtlpHttpExporterConfig_default
          (\<lambda>request n. (Inr \<lparr>rs_status_code = 200, rs_body = [], rs_error = []\<rparr>, Suc n))))
       BatchSpanProcessorConfig_default list_queue list_queue"

lemma otlp_empty_queues: "empty_queues otlp_processor [] []"
  by (simp add: empty_queues_def otlp_processor_def BatchSpanProcessor_new_def list_queue_ok)
    (simp add: list_queue_def)

lemma run_otlp_shutdown:
  "\<exists>s. run_actions otlp_processor (produce sampled_span @ close_up_to_join @ replicate 20 Run_worker @ join_and_return)
        (System_init [] [] (0, [])) = Some s \<and>
     S_return True \<in># closers s \<and> g_accepted (shared s) = {#sampled_span#}"
  by (simp add: produce_def close_up_to_join_def join_and_return_def run_simps otlp_processor_def
      otlp_exporter_def OtlpHttpExporter_new_def OtlpHttpExporter_exportSpans_def makeDefaultTransport_def
      OtlpHttpExporter_forceFlush_def OtlpHttpExporter_shutdown_def recorded_def Let_def numeral_eq_Suc)

theorem batch_otlp_requests_witness:
  "\<exists>s batches. reachable otlp_processor [] [] (0, []) s \<and> S_return True \<in># closers s \<and>
     snd (m_exporter_state (shared s)) = map (batch_request sample_fmt OtlpHttpExporterConfig_default) batches \<and>
     mset (concat batches) = {#sampled_span#}"
proof -
  obtain s where s: "reachable otlp_processor [] [] (0, []) s" "S_return True \<in># closers s"
    "g_accepted (shared s) = {#sampled_span#}"
    using run_otlp_shutdown run_actions_reachable by metis
  have "m_exporter otlp_processor = Some (recorded_exporter sample_fmt OtlpHttpExporterConfig_default
      (\<lambda>request n. (Inr \<lparr>rs_status_code = 200, rs_body = [], rs_error = []\<rparr>, Suc n)))"
    by (simp add: otlp_processor_def BatchSpanProcessor_new_def)
  from batch_otlp_requests [OF s(1) otlp_empty_queues this] obtain batches
    where "snd (m_exporter_state (shared s)) = map (batch_request sample_fmt OtlpHttpExporterConfig_default) batches"
      "mset (concat batches) = {#sampled_span#}"
    using s(2,3) by auto
  then show ?thesis using s by blast
qed

end
