(* ===== verification/Log_Record.thy ===== *)
theory Log_Record
  imports Trace_Context Double64 Json
begin

text \<open>
  Model of \<^verbatim>\<open>galay-tracing/log/log_level.h\<close>, \<^verbatim>\<open>log_record.h\<close>, \<^verbatim>\<open>console_sink.cc\<close>,
  \<^verbatim>\<open>common/source_location.h\<close> and \<^verbatim>\<open>adapters/spdlog_sink.cc\<close>, and of the conversion of structured
  records to plain ones in \<^verbatim>\<open>logger.cc\<close>.

  The tagged union \<^verbatim>\<open>LogFieldValue\<close> is a datatype. \<^verbatim>\<open>std::to_string\<close> on \<^verbatim>\<open>double\<close> is the parameter \<open>fmt\<close>. A time stamp is an
  integer, the reading of the system clock when the record is made.
\<close>

section \<open>Levels, locations, fields and records\<close>

datatype LogLevel = Log_kTrace | Log_kDebug | Log_kInfo | Log_kWarn | Log_kError | Log_kOff

fun LogLevel_int :: "LogLevel \<Rightarrow> int" where
  "LogLevel_int Log_kTrace = 0"
| "LogLevel_int Log_kDebug = 1"
| "LogLevel_int Log_kInfo = 2"
| "LogLevel_int Log_kWarn = 3"
| "LogLevel_int Log_kError = 4"
| "LogLevel_int Log_kOff = 5"

text \<open>The order of the levels is that of the underlying integers.\<close>

lemma LogLevel_int_inj [simp]: "LogLevel_int v = LogLevel_int v' \<longleftrightarrow> v = v'"
  by (cases v; cases v') simp_all

instantiation LogLevel :: linorder
begin

definition less_eq_LogLevel :: "LogLevel \<Rightarrow> LogLevel \<Rightarrow> bool" where
  "v \<le> v' \<longleftrightarrow> LogLevel_int v \<le> LogLevel_int v'"

definition less_LogLevel :: "LogLevel \<Rightarrow> LogLevel \<Rightarrow> bool" where
  "v < v' \<longleftrightarrow> LogLevel_int v < LogLevel_int v'"

instance
  by standard (auto simp: less_eq_LogLevel_def less_LogLevel_def dest: antisym)

end

fun logLevelName :: "LogLevel \<Rightarrow> string" where
  "logLevelName Log_kTrace = ''TRACE''"
| "logLevelName Log_kDebug = ''DEBUG''"
| "logLevelName Log_kInfo = ''INFO''"
| "logLevelName Log_kWarn = ''WARN''"
| "logLevelName Log_kError = ''ERROR''"
| "logLevelName Log_kOff = ''OFF''"

record SourceLocation =
  src_file :: string
  src_line :: nat
  src_function :: string

text \<open>\<^verbatim>\<open>SourceLocation::current()\<close> takes the place where the call is written.\<close>

definition SourceLocation_current :: "string \<Rightarrow> nat \<Rightarrow> string \<Rightarrow> SourceLocation" where
  "SourceLocation_current file line function = \<lparr>src_file = file, src_line = line, src_function = function\<rparr>"

datatype LogFieldType = Field_kInt64 | Field_kUInt64 | Field_kDouble | Field_kBool | Field_kString

datatype LogFieldValue =
    LF_int64 i64
  | LF_uint64 u64
  | LF_double double
  | LF_bool bool
  | LF_string string

definition LogFieldValue_default :: LogFieldValue where
  "LogFieldValue_default = LF_string []"

fun LogFieldValue_type :: "LogFieldValue \<Rightarrow> LogFieldType" where
  "LogFieldValue_type (LF_int64 _) = Field_kInt64"
| "LogFieldValue_type (LF_uint64 _) = Field_kUInt64"
| "LogFieldValue_type (LF_double _) = Field_kDouble"
| "LogFieldValue_type (LF_bool _) = Field_kBool"
| "LogFieldValue_type (LF_string _) = Field_kString"

definition LogFieldValue_fromInt64 :: "i64 \<Rightarrow> LogFieldValue" where
  "LogFieldValue_fromInt64 value = LF_int64 value"

definition LogFieldValue_fromUInt64 :: "u64 \<Rightarrow> LogFieldValue" where
  "LogFieldValue_fromUInt64 value = LF_uint64 value"

definition LogFieldValue_fromDouble :: "double \<Rightarrow> LogFieldValue" where
  "LogFieldValue_fromDouble value = LF_double value"

definition LogFieldValue_fromBool :: "bool \<Rightarrow> LogFieldValue" where
  "LogFieldValue_fromBool value = LF_bool value"

definition LogFieldValue_fromString :: "string \<Rightarrow> LogFieldValue" where
  "LogFieldValue_fromString value = LF_string value"

text \<open>The accessors read a member of the union; reading one that was not stored is undefined
  behaviour, here \<^term>\<open>None\<close>.\<close>

fun LogFieldValue_asInt64 :: "LogFieldValue \<Rightarrow> i64 option" where
  "LogFieldValue_asInt64 (LF_int64 v) = Some v"
| "LogFieldValue_asInt64 _ = None"

fun LogFieldValue_asUInt64 :: "LogFieldValue \<Rightarrow> u64 option" where
  "LogFieldValue_asUInt64 (LF_uint64 v) = Some v"
| "LogFieldValue_asUInt64 _ = None"

fun LogFieldValue_asDouble :: "LogFieldValue \<Rightarrow> double option" where
  "LogFieldValue_asDouble (LF_double v) = Some v"
| "LogFieldValue_asDouble _ = None"

fun LogFieldValue_asBool :: "LogFieldValue \<Rightarrow> bool option" where
  "LogFieldValue_asBool (LF_bool v) = Some v"
| "LogFieldValue_asBool _ = None"

fun LogFieldValue_asString :: "LogFieldValue \<Rightarrow> string option" where
  "LogFieldValue_asString (LF_string v) = Some v"
| "LogFieldValue_asString _ = None"

record LogField =
  lf_name :: string
  lf_value :: LogFieldValue

definition field_int64 :: "string \<Rightarrow> i64 \<Rightarrow> LogField" where
  "field_int64 name value = \<lparr>lf_name = name, lf_value = LogFieldValue_fromInt64 value\<rparr>"

definition field_int :: "string \<Rightarrow> 32 word \<Rightarrow> LogField" where
  "field_int name value = field_int64 name (scast value)"

definition field_uint64 :: "string \<Rightarrow> u64 \<Rightarrow> LogField" where
  "field_uint64 name value = \<lparr>lf_name = name, lf_value = LogFieldValue_fromUInt64 value\<rparr>"

definition field_double :: "string \<Rightarrow> double \<Rightarrow> LogField" where
  "field_double name value = \<lparr>lf_name = name, lf_value = LogFieldValue_fromDouble value\<rparr>"

definition field_bool :: "string \<Rightarrow> bool \<Rightarrow> LogField" where
  "field_bool name value = \<lparr>lf_name = name, lf_value = LogFieldValue_fromBool value\<rparr>"

definition field_string :: "string \<Rightarrow> string \<Rightarrow> LogField" where
  "field_string name value = \<lparr>lf_name = name, lf_value = LogFieldValue_fromString value\<rparr>"

definition field_cstr :: "string \<Rightarrow> string option \<Rightarrow> LogField" where
  "field_cstr name value = field_string name (case value of None \<Rightarrow> [] | Some s \<Rightarrow> s)"

record LogRecord =
  lr_level :: LogLevel
  lr_message :: string
  lr_source :: SourceLocation
  lr_context :: "LogContext option"
  lr_timestamp :: int

record StructuredLogRecord =
  sr_level :: LogLevel
  sr_name :: string
  sr_fields :: "LogField list"
  sr_source :: SourceLocation
  sr_context :: "LogContext option"

section \<open>From structured to plain records\<close>

definition appendFieldValue :: "(double \<Rightarrow> string) \<Rightarrow> string \<Rightarrow> LogFieldValue \<Rightarrow> string" where
  "appendFieldValue fmt message value =
     (case value of
        LF_int64 i \<Rightarrow> (let t = dec_of_int (sint i) in if length t \<le> 32 then message @ t else message)
      | LF_uint64 u \<Rightarrow> (let t = dec_of_nat (unat u) in if length t \<le> 32 then message @ t else message)
      | LF_double d \<Rightarrow> message @ fmt d
      | LF_bool b \<Rightarrow> message @ (if b then ''true'' else ''false'')
      | LF_string s \<Rightarrow> message @ s)"

definition makeLogRecord :: "(double \<Rightarrow> string) \<Rightarrow> int \<Rightarrow> StructuredLogRecord \<Rightarrow> LogRecord" where
  "makeLogRecord fmt now record =
     (let message = fold (\<lambda>field message.
            appendFieldValue fmt (message @ '' '' @ lf_name field @ ''='') (lf_value field))
          (sr_fields record) (sr_name record)
      in \<lparr>lr_level = sr_level record, lr_message = message, lr_source = sr_source record,
          lr_context = sr_context record, lr_timestamp = now\<rparr>)"

section \<open>Sinks\<close>

definition ConsoleSink_write :: "LogRecord \<Rightarrow> string \<Rightarrow> string" where
  "ConsoleSink_write record out =
     (let out = out @ ''level='' @ logLevelName (lr_level record);
          out = (case lr_context record of
                   Some c \<Rightarrow> out @ '' trace_id='' @ TraceId_toHex (lc_traceId c) @
                               '' span_id='' @ SpanId_toHex (lc_spanId c)
                 | None \<Rightarrow> out)
      in out @ '' file='' @ src_file (lr_source record) @ '':'' @ dec_of_nat (src_line (lr_source record)) @
         '' msg=\"'' @ lr_message record @ ''\"'' @ [CHR 0x0A])"

datatype spdlog_level = Spd_trace | Spd_debug | Spd_info | Spd_warn | Spd_err | Spd_off

fun toSpdlogLevel :: "LogLevel \<Rightarrow> spdlog_level" where
  "toSpdlogLevel Log_kTrace = Spd_trace"
| "toSpdlogLevel Log_kDebug = Spd_debug"
| "toSpdlogLevel Log_kInfo = Spd_info"
| "toSpdlogLevel Log_kWarn = Spd_warn"
| "toSpdlogLevel Log_kError = Spd_err"
| "toSpdlogLevel Log_kOff = Spd_off"

definition renderRecord :: "LogRecord \<Rightarrow> string" where
  "renderRecord record =
     (let line = ''level='' @ logLevelName (lr_level record);
          line = (case lr_context record of
                   Some c \<Rightarrow> line @ '' trace_id='' @ TraceId_toHex (lc_traceId c) @
                               '' span_id='' @ SpanId_toHex (lc_spanId c)
                 | None \<Rightarrow> line)
      in line @ '' file='' @ src_file (lr_source record) @ '':'' @ dec_of_nat (src_line (lr_source record)) @
         '' msg=\"'' @ lr_message record @ ''\"'')"

text \<open>The spdlog logger is the function that receives the level and the text.\<close>

definition SpdlogSink_write ::
  "(spdlog_level \<Rightarrow> string \<Rightarrow> 's \<Rightarrow> 's) option \<Rightarrow> LogRecord \<Rightarrow> 's \<Rightarrow> 's" where
  "SpdlogSink_write logger record s =
     (case logger of
        None \<Rightarrow> s
      | Some emit \<Rightarrow> emit (toSpdlogLevel (lr_level record)) (renderRecord record) s)"

section \<open>Properties\<close>

text \<open>The text of a field value.\<close>

fun field_text :: "(double \<Rightarrow> string) \<Rightarrow> LogFieldValue \<Rightarrow> string" where
  "field_text fmt (LF_int64 i) = dec_of_int (sint i)"
| "field_text fmt (LF_uint64 u) = dec_of_nat (unat u)"
| "field_text fmt (LF_double d) = fmt d"
| "field_text fmt (LF_bool b) = (if b then ''true'' else ''false'')"
| "field_text fmt (LF_string s) = s"

lemma appendFieldValue_eq: "appendFieldValue fmt m v = m @ field_text fmt v"
  by (cases v) (simp_all add: appendFieldValue_def Let_def dec_word_length)

text \<open>A switch over the tag that reads the matching accessor never reads a member that was not stored.\<close>

lemma LogFieldValue_accessors:
  "LogFieldValue_type v = Field_kInt64 \<longleftrightarrow> LogFieldValue_asInt64 v \<noteq> None"
  "LogFieldValue_type v = Field_kUInt64 \<longleftrightarrow> LogFieldValue_asUInt64 v \<noteq> None"
  "LogFieldValue_type v = Field_kDouble \<longleftrightarrow> LogFieldValue_asDouble v \<noteq> None"
  "LogFieldValue_type v = Field_kBool \<longleftrightarrow> LogFieldValue_asBool v \<noteq> None"
  "LogFieldValue_type v = Field_kString \<longleftrightarrow> LogFieldValue_asString v \<noteq> None"
  by (cases v; simp)+

text \<open>A structured record turned into a plain one keeps level, source and trace context; its message
  is the event name followed by every field in order as \<^verbatim>\<open>name=value\<close>, with integers written so
  that they read back as the same number.\<close>

theorem makeLogRecord_message:
  "lr_message (makeLogRecord fmt now r) =
     sr_name r @ concat (map (\<lambda>f. '' '' @ lf_name f @ ''='' @ field_text fmt (lf_value f)) (sr_fields r)) \<and>
   lr_level (makeLogRecord fmt now r) = sr_level r \<and> lr_source (makeLogRecord fmt now r) = sr_source r \<and>
   lr_context (makeLogRecord fmt now r) = sr_context r \<and>
   int_of_dec (field_text fmt (LF_int64 i)) = sint i \<and> nat_of_dec (field_text fmt (LF_uint64 u)) = unat u"
proof -
  have "fold (\<lambda>field message. appendFieldValue fmt (message @ '' '' @ lf_name field @ ''='') (lf_value field)) fs m =
      m @ concat (map (\<lambda>f. '' '' @ lf_name f @ ''='' @ field_text fmt (lf_value f)) fs)" for fs m
    by (induction fs arbitrary: m) (simp_all add: appendFieldValue_eq)
  then show ?thesis by (simp add: makeLogRecord_def Let_def int_of_dec_of_int nat_of_dec_of_nat)
qed

text \<open>The console sink and the spdlog sink write the same line for a record, the console sink with a
  line break at its end; the spdlog sink without a logger writes nothing; and the mapping of levels
  to those of spdlog is one to one.\<close>

theorem sinks_agree:
  "ConsoleSink_write r out = out @ renderRecord r @ [CHR 0x0A] \<and>
   SpdlogSink_write None r s = s \<and>
   SpdlogSink_write (Some (\<lambda>l line ls. ls @ [(l, line)])) r ls = ls @ [(toSpdlogLevel (lr_level r), renderRecord r)] \<and>
   inj toSpdlogLevel"
proof -
  have "inj toSpdlogLevel"
  proof (rule injI)
    fix x y assume "toSpdlogLevel x = toSpdlogLevel y"
    then show "x = y" by (cases x; cases y) simp_all
  qed
  then show ?thesis
    by (simp add: ConsoleSink_write_def renderRecord_def SpdlogSink_write_def Let_def split: option.splits)
qed

end
