(* ===== verification/Logger.thy ===== *)
theory Logger
  imports Log_Record Context_Storage
begin

text \<open>
  Model of \<^verbatim>\<open>galay-tracing/log/logger.h\<close>, \<^verbatim>\<open>logger.cc\<close> and \<^verbatim>\<open>log_sink.h\<close>: the logger with its history
  of sink snapshots, type-erased and borrowed writers, the registry of the default writer, context
  loggers and the logging functions and macros.

  A logger lives at an address of the record \<open>LogWorld\<close>, which also collects what the sinks receive,
  as pairs of a sink and a record. A snapshot is identified by its position in the history that owns
  it, so a pointer to a snapshot is an index. A writer class is the record \<open>Writer\<close> of the functions
  it has, where a missing overload is \<^term>\<open>None\<close>; a pointer to a writer that may be null is an
  option. The text that \<^verbatim>\<open>std::format\<close> makes of the format string and its arguments is the
  argument \<open>message\<close>. The reading of the system clock, the time stamp of a record that is made
  now, is a part of the state: \<open>lw_now\<close> of \<open>LogWorld\<close>, and the function \<open>clock\<close> for a writer of an
  unknown state.

  The locale \<open>log_writer\<close> is what the logging functions rely on in a writer, and it is interpreted
  for the logger, its erased form, the default writer and the borrowed writer.
\<close>

section \<open>The logger\<close>

type_synonym sink = nat

record Logger =
  lg_level :: LogLevel
  lg_sinkSnapshots :: "sink list list"
  lg_sinkSnapshot :: "nat option"

definition Logger_new :: "LogLevel \<Rightarrow> Logger" where
  "Logger_new level = \<lparr>lg_level = level, lg_sinkSnapshots = [[]], lg_sinkSnapshot = Some 0\<rparr>"

definition Logger_setLevel :: "LogLevel \<Rightarrow> Logger \<Rightarrow> Logger" where
  "Logger_setLevel level l = l\<lparr>lg_level := level\<rparr>"

definition Logger_level :: "Logger \<Rightarrow> LogLevel" where
  "Logger_level l = lg_level l"

declare Logger_level_def [simp]

definition Logger_isEnabled :: "LogLevel \<Rightarrow> Logger \<Rightarrow> bool" where
  "Logger_isEnabled recordLevel l =
     (let threshold = Logger_level l
      in threshold \<noteq> Log_kOff \<and> LogLevel_int recordLevel \<ge> LogLevel_int threshold)"

definition Logger_addSink :: "sink option \<Rightarrow> Logger \<Rightarrow> Logger" where
  "Logger_addSink sink l =
     (case sink of
        None \<Rightarrow> l
      | Some s \<Rightarrow>
          let next = (case lg_sinkSnapshot l of Some i \<Rightarrow> lg_sinkSnapshots l ! i | None \<Rightarrow> []);
              next = next @ [s]
          in l\<lparr>lg_sinkSnapshots := lg_sinkSnapshots l @ [next],
               lg_sinkSnapshot := Some (length (lg_sinkSnapshots l))\<rparr>)"

definition Logger_clearSinks :: "Logger \<Rightarrow> Logger" where
  "Logger_clearSinks l =
     l\<lparr>lg_sinkSnapshots := lg_sinkSnapshots l @ [[]], lg_sinkSnapshot := Some (length (lg_sinkSnapshots l))\<rparr>"

record LogWorld =
  lw_loggers :: "nat \<Rightarrow> Logger"
  lw_now :: int
  lw_out :: "(sink \<times> LogRecord) list"

definition Logger_publish :: "nat \<Rightarrow> LogRecord \<Rightarrow> LogWorld \<Rightarrow> LogWorld" where
  "Logger_publish this record w =
     (case lg_sinkSnapshot (lw_loggers w this) of
        None \<Rightarrow> w
      | Some i \<Rightarrow>
          fold (\<lambda>sink w. w\<lparr>lw_out := lw_out w @ [(sink, record)]\<rparr>)
            (lg_sinkSnapshots (lw_loggers w this) ! i) w)"

definition Logger_write :: "nat \<Rightarrow> LogRecord \<Rightarrow> LogWorld \<Rightarrow> LogWorld" where
  "Logger_write this record w = Logger_publish this record w"

definition Logger_write_structured ::
  "(double \<Rightarrow> string) \<Rightarrow> nat \<Rightarrow> StructuredLogRecord \<Rightarrow> LogWorld \<Rightarrow> LogWorld" where
  "Logger_write_structured fmt this record w =
     Logger_publish this (makeLogRecord fmt (lw_now w) record) w"

definition Logger_log ::
  "nat \<Rightarrow> LogLevel \<Rightarrow> SourceLocation \<Rightarrow> string \<Rightarrow> CurrentContextState \<Rightarrow> LogWorld \<Rightarrow> LogWorld" where
  "Logger_log this level source message slot w =
     (if \<not> Logger_isEnabled level (lw_loggers w this) then w
      else Logger_publish this
        \<lparr>lr_level = level, lr_message = message, lr_source = source,
         lr_context = makeLogContext (currentContext slot), lr_timestamp = lw_now w\<rparr> w)"

definition Logger_logWithContext ::
  "nat \<Rightarrow> LogLevel \<Rightarrow> SourceLocation \<Rightarrow> TraceContext option \<Rightarrow> string \<Rightarrow> LogWorld \<Rightarrow> LogWorld" where
  "Logger_logWithContext this level source ctx message w =
     (if \<not> Logger_isEnabled level (lw_loggers w this) then w
      else Logger_publish this
        \<lparr>lr_level = level, lr_message = message, lr_source = source,
         lr_context = makeLogContext ctx, lr_timestamp = lw_now w\<rparr> w)"

section \<open>Writers\<close>

record 'w Writer =
  wr_isEnabled :: "LogLevel \<Rightarrow> 'w \<Rightarrow> bool"
  wr_write :: "(LogRecord \<Rightarrow> 'w \<Rightarrow> 'w) option"
  wr_write_structured :: "(StructuredLogRecord \<Rightarrow> 'w \<Rightarrow> 'w) option"

record 'w ErasedLogWriter =
  ew_object :: bool
  ew_isEnabledFn :: "(LogLevel \<Rightarrow> 'w \<Rightarrow> bool) option"
  ew_writeFn :: "(LogRecord \<Rightarrow> 'w \<Rightarrow> 'w) option"
  ew_writeStructuredFn :: "(StructuredLogRecord \<Rightarrow> 'w \<Rightarrow> 'w) option"

definition ErasedLogWriter_null :: "'w ErasedLogWriter" where
  "ErasedLogWriter_null =
     \<lparr>ew_object = False, ew_isEnabledFn = None, ew_writeFn = None, ew_writeStructuredFn = None\<rparr>"

definition ErasedLogWriter_isEnabled :: "'w ErasedLogWriter \<Rightarrow> LogLevel \<Rightarrow> 'w \<Rightarrow> bool" where
  "ErasedLogWriter_isEnabled e level w =
     (ew_object e \<and> (case ew_isEnabledFn e of None \<Rightarrow> False | Some f \<Rightarrow> f level w))"

definition ErasedLogWriter_write :: "'w ErasedLogWriter \<Rightarrow> LogRecord \<Rightarrow> 'w \<Rightarrow> 'w" where
  "ErasedLogWriter_write e record w =
     (if \<not> ew_object e then w
      else
        case ew_writeFn e of
          Some f \<Rightarrow> f record w
        | None \<Rightarrow>
            (case ew_writeStructuredFn e of
               Some f \<Rightarrow> f \<lparr>sr_level = lr_level record, sr_name = lr_message record, sr_fields = [],
                            sr_source = lr_source record, sr_context = lr_context record\<rparr> w
             | None \<Rightarrow> w))"

definition writeStructuredFallback ::
  "(double \<Rightarrow> string) \<Rightarrow> ('w \<Rightarrow> int) \<Rightarrow> 'w ErasedLogWriter \<Rightarrow> StructuredLogRecord \<Rightarrow> 'w \<Rightarrow> 'w" where
  "writeStructuredFallback fmt clock e record w =
     (case ew_writeFn e of Some f \<Rightarrow> f (makeLogRecord fmt (clock w) record) w | None \<Rightarrow> w)"

definition ErasedLogWriter_write_structured ::
  "(double \<Rightarrow> string) \<Rightarrow> ('w \<Rightarrow> int) \<Rightarrow> 'w ErasedLogWriter \<Rightarrow> StructuredLogRecord \<Rightarrow> 'w \<Rightarrow> 'w" where
  "ErasedLogWriter_write_structured fmt clock e record w =
     (if \<not> ew_object e then w
      else
        case ew_writeStructuredFn e of
          Some f \<Rightarrow> f record w
        | None \<Rightarrow> writeStructuredFallback fmt clock e record w)"

type_synonym 'w DefaultLogWriter = "'w ErasedLogWriter option"

definition DefaultLogWriter_isEnabled :: "'w DefaultLogWriter \<Rightarrow> LogLevel \<Rightarrow> 'w \<Rightarrow> bool" where
  "DefaultLogWriter_isEnabled d level w =
     (case d of None \<Rightarrow> False | Some e \<Rightarrow> ErasedLogWriter_isEnabled e level w)"

definition DefaultLogWriter_write :: "'w DefaultLogWriter \<Rightarrow> LogRecord \<Rightarrow> 'w \<Rightarrow> 'w" where
  "DefaultLogWriter_write d record w =
     (case d of None \<Rightarrow> w | Some e \<Rightarrow> ErasedLogWriter_write e record w)"

definition DefaultLogWriter_write_structured ::
  "(double \<Rightarrow> string) \<Rightarrow> ('w \<Rightarrow> int) \<Rightarrow> 'w DefaultLogWriter \<Rightarrow> StructuredLogRecord \<Rightarrow> 'w \<Rightarrow> 'w" where
  "DefaultLogWriter_write_structured fmt clock d record w =
     (case d of None \<Rightarrow> w | Some e \<Rightarrow> ErasedLogWriter_write_structured fmt clock e record w)"

type_synonym 'w BorrowedLogWriter = "'w Writer option"

definition BorrowedLogWriter_new :: "'w Writer \<Rightarrow> 'w BorrowedLogWriter" where
  "BorrowedLogWriter_new writer = Some writer"

definition BorrowedLogWriter_isEnabled :: "'w BorrowedLogWriter \<Rightarrow> LogLevel \<Rightarrow> 'w \<Rightarrow> bool" where
  "BorrowedLogWriter_isEnabled b level w = (case b of None \<Rightarrow> False | Some x \<Rightarrow> wr_isEnabled x level w)"

text \<open>The two overloads exist only where the writer has the corresponding one.\<close>

definition BorrowedLogWriter_write :: "'w BorrowedLogWriter \<Rightarrow> LogRecord \<Rightarrow> 'w \<Rightarrow> 'w" where
  "BorrowedLogWriter_write b record w =
     (case b of None \<Rightarrow> w | Some x \<Rightarrow> (case wr_write x of Some f \<Rightarrow> f record w | None \<Rightarrow> w))"

definition BorrowedLogWriter_write_structured ::
  "'w BorrowedLogWriter \<Rightarrow> StructuredLogRecord \<Rightarrow> 'w \<Rightarrow> 'w" where
  "BorrowedLogWriter_write_structured b record w =
     (case b of None \<Rightarrow> w | Some x \<Rightarrow> (case wr_write_structured x of Some f \<Rightarrow> f record w | None \<Rightarrow> w))"

definition logWriteFn :: "'w Writer \<Rightarrow> (LogRecord \<Rightarrow> 'w \<Rightarrow> 'w) option" where
  "logWriteFn writer = (case wr_write writer of Some f \<Rightarrow> Some (\<lambda>record. f record) | None \<Rightarrow> None)"

definition structuredLogWriteFn :: "'w Writer \<Rightarrow> (StructuredLogRecord \<Rightarrow> 'w \<Rightarrow> 'w) option" where
  "structuredLogWriteFn writer =
     (case wr_write_structured writer of Some f \<Rightarrow> Some (\<lambda>record. f record) | None \<Rightarrow> None)"

text \<open>The writer objects as values of one type, for the templates over writers.\<close>

definition default_as_writer :: "(double \<Rightarrow> string) \<Rightarrow> ('w \<Rightarrow> int) \<Rightarrow> 'w DefaultLogWriter \<Rightarrow> 'w Writer" where
  "default_as_writer fmt clock d =
     \<lparr>wr_isEnabled = DefaultLogWriter_isEnabled d, wr_write = Some (DefaultLogWriter_write d),
      wr_write_structured = Some (DefaultLogWriter_write_structured fmt clock d)\<rparr>"

definition borrowed_as_writer :: "'w BorrowedLogWriter \<Rightarrow> 'w Writer" where
  "borrowed_as_writer b =
     \<lparr>wr_isEnabled = BorrowedLogWriter_isEnabled b, wr_write = Some (BorrowedLogWriter_write b),
      wr_write_structured = Some (BorrowedLogWriter_write_structured b)\<rparr>"

definition logger_as_writer :: "(double \<Rightarrow> string) \<Rightarrow> nat \<Rightarrow> LogWorld Writer" where
  "logger_as_writer fmt this =
     \<lparr>wr_isEnabled = (\<lambda>level w. Logger_isEnabled level (lw_loggers w this)),
      wr_write = Some (Logger_write this),
      wr_write_structured = Some (Logger_write_structured fmt this)\<rparr>"

definition loggerWriterRef :: "(double \<Rightarrow> string) \<Rightarrow> nat \<Rightarrow> LogWorld ErasedLogWriter" where
  "loggerWriterRef fmt logger =
     \<lparr>ew_object = True,
      ew_isEnabledFn = Some (\<lambda>level w. Logger_isEnabled level (lw_loggers w logger)),
      ew_writeFn = Some (\<lambda>record w. Logger_write logger record w),
      ew_writeStructuredFn = Some (\<lambda>record w. Logger_write_structured fmt logger record w)\<rparr>"

section \<open>The default writer\<close>

record 'w Registry =
  g_defaultLogger :: "nat option"
  g_defaultWriterSnapshots :: "'w ErasedLogWriter list"
  g_defaultLogWriterPtr :: "nat option"

definition Registry_init :: "'w Registry" where
  "Registry_init = \<lparr>g_defaultLogger = None, g_defaultWriterSnapshots = [], g_defaultLogWriterPtr = None\<rparr>"

text \<open>The built-in logger, at the address 0, with the console sink 0.\<close>

definition builtInDefaultLogger :: Logger where
  "builtInDefaultLogger = Logger_addSink (Some 0) (Logger_new Log_kTrace)"

definition builtInDefaultLogWriterPtr :: "(double \<Rightarrow> string) \<Rightarrow> LogWorld ErasedLogWriter" where
  "builtInDefaultLogWriterPtr fmt = loggerWriterRef fmt 0"

definition setDefaultLogWriterRef :: "'w ErasedLogWriter \<Rightarrow> 'w Registry \<Rightarrow> 'w Registry" where
  "setDefaultLogWriterRef writer g =
     (if \<not> ew_object writer then g\<lparr>g_defaultLogWriterPtr := None\<rparr>
      else g\<lparr>g_defaultWriterSnapshots := g_defaultWriterSnapshots g @ [writer],
             g_defaultLogWriterPtr := Some (length (g_defaultWriterSnapshots g))\<rparr>)"

text \<open>\<open>builtin\<close> is the result of \<^verbatim>\<open>builtInDefaultLogWriterPtr\<close>.\<close>

definition defaultLogWriterPtr :: "'w ErasedLogWriter \<Rightarrow> 'w Registry \<Rightarrow> 'w ErasedLogWriter" where
  "defaultLogWriterPtr builtin g =
     (case g_defaultLogWriterPtr g of Some i \<Rightarrow> g_defaultWriterSnapshots g ! i | None \<Rightarrow> builtin)"

definition defaultLogWriterRef :: "'w ErasedLogWriter \<Rightarrow> 'w Registry \<Rightarrow> 'w ErasedLogWriter" where
  "defaultLogWriterRef builtin g = defaultLogWriterPtr builtin g"

definition defaultLogWriter :: "'w ErasedLogWriter \<Rightarrow> 'w Registry \<Rightarrow> 'w DefaultLogWriter" where
  "defaultLogWriter builtin g = Some (defaultLogWriterPtr builtin g)"

definition setDefaultLogWriter :: "'w Writer option \<Rightarrow> 'w Registry \<Rightarrow> 'w Registry" where
  "setDefaultLogWriter writer g =
     (case writer of
        None \<Rightarrow> setDefaultLogWriterRef ErasedLogWriter_null g
      | Some x \<Rightarrow> setDefaultLogWriterRef
          \<lparr>ew_object = True, ew_isEnabledFn = Some (wr_isEnabled x), ew_writeFn = logWriteFn x,
           ew_writeStructuredFn = structuredLogWriteFn x\<rparr> g)"

definition setDefaultLogWriter_null :: "'w Registry \<Rightarrow> 'w Registry" where
  "setDefaultLogWriter_null g = setDefaultLogWriterRef ErasedLogWriter_null g"

definition setDefaultLogger ::
  "(double \<Rightarrow> string) \<Rightarrow> nat option \<Rightarrow> LogWorld Registry \<Rightarrow> LogWorld Registry" where
  "setDefaultLogger fmt logger g =
     setDefaultLogWriter (map_option (logger_as_writer fmt) logger) (g\<lparr>g_defaultLogger := logger\<rparr>)"

text \<open>The address of the default logger.\<close>

definition defaultLogger :: "'w Registry \<Rightarrow> nat" where
  "defaultLogger g = (case g_defaultLogger g of Some logger \<Rightarrow> logger | None \<Rightarrow> 0)"

section \<open>The configuration of a logger\<close>

text \<open>The sinks a record is given to now, and the effect of a sequence of configuration calls.\<close>

definition Logger_sinks :: "Logger \<Rightarrow> sink list" where
  "Logger_sinks l = (case lg_sinkSnapshot l of None \<Rightarrow> [] | Some i \<Rightarrow> lg_sinkSnapshots l ! i)"

definition Logger_wf :: "Logger \<Rightarrow> bool" where
  "Logger_wf l \<longleftrightarrow> (case lg_sinkSnapshot l of None \<Rightarrow> False | Some i \<Rightarrow> i < length (lg_sinkSnapshots l))"

datatype config_call = Add_sink "sink option" | Clear_sinks | Set_level LogLevel

fun run_config :: "config_call \<Rightarrow> Logger \<Rightarrow> Logger" where
  "run_config (Add_sink s) l = Logger_addSink s l"
| "run_config Clear_sinks l = Logger_clearSinks l"
| "run_config (Set_level v) l = Logger_setLevel v l"

text \<open>The specification: a level and a list of sinks.\<close>

fun config_spec :: "config_call \<Rightarrow> LogLevel \<times> sink list \<Rightarrow> LogLevel \<times> sink list" where
  "config_spec (Add_sink (Some s)) (v, ss) = (v, ss @ [s])"
| "config_spec (Add_sink None) (v, ss) = (v, ss)"
| "config_spec Clear_sinks (v, ss) = (v, [])"
| "config_spec (Set_level v') (v, ss) = (v', ss)"

definition Logger_abs :: "Logger \<Rightarrow> LogLevel \<times> sink list" where
  "Logger_abs l = (lg_level l, Logger_sinks l)"

lemmas logger_config_defs =
  Logger_addSink_def Logger_clearSinks_def Logger_setLevel_def Logger_sinks_def Logger_abs_def

lemma Logger_wf_new [simp]: "Logger_wf (Logger_new v)"
  by (simp add: Logger_wf_def Logger_new_def)

lemma Logger_abs_new [simp]: "Logger_abs (Logger_new v) = (v, [])"
  by (simp add: Logger_abs_def Logger_sinks_def Logger_new_def)

lemma Logger_wf_run_config [simp]: "Logger_wf l \<Longrightarrow> Logger_wf (run_config c l)"
  by (cases c) (auto simp: Logger_wf_def logger_config_defs Let_def split: option.splits)

lemma Logger_abs_run_config [simp]: "Logger_abs (run_config c l) = config_spec c (Logger_abs l)"
  by (cases c) (auto simp: logger_config_defs Let_def nth_append split: option.splits)

lemma run_config_snapshots:
  "\<exists>new. lg_sinkSnapshots (run_config c l) = lg_sinkSnapshots l @ new"
  by (cases c) (auto simp: logger_config_defs Let_def split: option.splits)

lemma run_configs_abs: "Logger_abs (fold run_config cs l) = fold config_spec cs (Logger_abs l)"
  by (induction cs arbitrary: l) simp_all

lemma run_configs_wf: "Logger_wf l \<Longrightarrow> Logger_wf (fold run_config cs l)"
  by (induction cs arbitrary: l) simp_all

lemma run_configs_snapshots:
  "\<exists>new. lg_sinkSnapshots (fold run_config cs l) = lg_sinkSnapshots l @ new"
proof (induction cs arbitrary: l)
  case (Cons c cs)
  obtain a where a: "lg_sinkSnapshots (run_config c l) = lg_sinkSnapshots l @ a"
    using run_config_snapshots by blast
  obtain b where "lg_sinkSnapshots (fold run_config cs (run_config c l)) =
      lg_sinkSnapshots (run_config c l) @ b"
    using Cons.IH by blast
  with a show ?case by simp
qed simp

text \<open>A logger that was configured by any sequence of \<^verbatim>\<open>addSink\<close>, \<^verbatim>\<open>clearSinks\<close> and
  \<^verbatim>\<open>setLevel\<close> calls has the level that was set last and the sinks that were added since the last
  \<^verbatim>\<open>clearSinks\<close>, in that order and without the null ones, and its snapshot pointer points into
  the history it owns.\<close>

theorem logger_config_refines:
  "Logger_abs (fold run_config calls (Logger_new level)) = fold config_spec calls (level, [])
   \<and> Logger_wf (fold run_config calls (Logger_new level))"
  by (simp add: run_configs_abs run_configs_wf)

text \<open>A reader that has loaded a snapshot pointer keeps a valid snapshot with the sinks it had,
  whatever configuration calls other threads make afterwards.\<close>

theorem logger_snapshots_stable:
  assumes "i < length (lg_sinkSnapshots l)"
  shows "i < length (lg_sinkSnapshots (fold run_config calls l))
    \<and> lg_sinkSnapshots (fold run_config calls l) ! i = lg_sinkSnapshots l ! i"
proof -
  obtain new where "lg_sinkSnapshots (fold run_config calls l) = lg_sinkSnapshots l @ new"
    using run_configs_snapshots by blast
  with assms show ?thesis by (simp add: nth_append)
qed

theorem logger_snapshots_stable_witness:
  "lg_sinkSnapshots (fold run_config [Clear_sinks, Add_sink (Some 7)] builtInDefaultLogger) ! 1 = [0]"
proof -
  have len: "1 < length (lg_sinkSnapshots builtInDefaultLogger)"
    and val: "lg_sinkSnapshots builtInDefaultLogger ! 1 = [0]"
    by (simp_all add: builtInDefaultLogger_def Logger_new_def Logger_addSink_def)
  show ?thesis using logger_snapshots_stable [OF len, of "[Clear_sinks, Add_sink (Some 7)]"] val by simp
qed

text \<open>A level is on when it is at least the threshold; \<^verbatim>\<open>kOff\<close> as the threshold turns everything off.\<close>

lemma Logger_isEnabled_iff: "Logger_isEnabled v l \<longleftrightarrow> lg_level l \<noteq> Log_kOff \<and> lg_level l \<le> v"
  by (simp add: Logger_isEnabled_def less_eq_LogLevel_def Let_def)

lemma Logger_isEnabled_mono: "Logger_isEnabled v l \<Longrightarrow> v \<le> v' \<Longrightarrow> Logger_isEnabled v' l"
  by (auto simp: Logger_isEnabled_iff)

section \<open>The contract of a writer\<close>

text \<open>Writing gives the record to the outputs the writer has now and changes neither these outputs
  nor the levels; \<open>tick\<close> lets time pass.\<close>

locale log_writer =
  fixes enabled :: "LogLevel \<Rightarrow> 'w \<Rightarrow> bool"
    and put :: "LogRecord \<Rightarrow> 'w \<Rightarrow> 'w"
    and out :: "'w \<Rightarrow> 'o list"
    and emitted :: "LogRecord \<Rightarrow> 'w \<Rightarrow> 'o list"
    and clock :: "'w \<Rightarrow> int"
    and tick :: "int \<Rightarrow> 'w \<Rightarrow> 'w"
  assumes put_out: "out (put r w) = out w @ emitted r w"
    and put_enabled: "enabled v (put r w) = enabled v w"
    and put_emitted: "emitted r' (put r w) = emitted r' w"
    and tick_out: "out (tick t w) = out w"
    and tick_enabled: "enabled v (tick t w) = enabled v w"
    and tick_emitted: "emitted r (tick t w) = emitted r w"
    and tick_clock: "clock (tick t w) = t"
begin

text \<open>One guarded call, at the time of its record.\<close>

definition guarded :: "LogRecord \<Rightarrow> 'w \<Rightarrow> 'w" where
  "guarded r w =
     (let w = tick (lr_timestamp r) w in if enabled (lr_level r) w then put r w else w)"

lemma guarded_enabled [simp]: "enabled v (guarded r w) = enabled v w"
  by (simp add: guarded_def Let_def put_enabled tick_enabled)

lemma guarded_emitted [simp]: "emitted r' (guarded r w) = emitted r' w"
  by (simp add: guarded_def Let_def put_emitted tick_emitted)

lemma guarded_out: "out (guarded r w) = out w @ (if enabled (lr_level r) w then emitted r w else [])"
  by (simp add: guarded_def Let_def put_out tick_out tick_enabled tick_emitted)

lemma guarded_calls_out:
  "out (fold guarded rs w) =
     out w @ concat (map (\<lambda>r. emitted r w) (filter (\<lambda>r. enabled (lr_level r) w) rs))"
  by (induction rs arbitrary: w) (simp_all add: guarded_out)

end

text \<open>The logger keeps the contract; what it emits is one copy of the record for each of its sinks.\<close>

definition Logger_emitted :: "nat \<Rightarrow> LogRecord \<Rightarrow> LogWorld \<Rightarrow> (sink \<times> LogRecord) list" where
  "Logger_emitted this record w = map (\<lambda>s. (s, record)) (Logger_sinks (lw_loggers w this))"

definition advance_clock :: "int \<Rightarrow> LogWorld \<Rightarrow> LogWorld" where
  "advance_clock t w = w\<lparr>lw_now := t\<rparr>"

lemma fold_out:
  "fold (\<lambda>s w. w\<lparr>lw_out := lw_out w @ [(s, r)]\<rparr>) ss w = w\<lparr>lw_out := lw_out w @ map (\<lambda>s. (s, r)) ss\<rparr>"
  by (induction ss arbitrary: w) simp_all

lemma Logger_publish_world:
  "Logger_publish this record w = w\<lparr>lw_out := lw_out w @ Logger_emitted this record w\<rparr>"
  by (simp add: Logger_publish_def Logger_emitted_def Logger_sinks_def fold_out split: option.split)

lemma Logger_emitted_out [simp]: "Logger_emitted this r (w\<lparr>lw_out := xs\<rparr>) = Logger_emitted this r w"
  by (simp add: Logger_emitted_def)

lemma Logger_emitted_now [simp]: "Logger_emitted this r (w\<lparr>lw_now := t\<rparr>) = Logger_emitted this r w"
  by (simp add: Logger_emitted_def)

interpretation logger_writer: log_writer
  "\<lambda>level w. Logger_isEnabled level (lw_loggers w this)" "Logger_write this" lw_out
  "Logger_emitted this" lw_now advance_clock
  by unfold_locales (simp_all add: Logger_write_def Logger_publish_world advance_clock_def)

text \<open>So do the erased logger, the default writer that points to it and a borrowed logger.\<close>

lemma loggerWriterRef_simps [simp]:
  "ErasedLogWriter_isEnabled (loggerWriterRef fmt this) = (\<lambda>level w. Logger_isEnabled level (lw_loggers w this))"
  "ErasedLogWriter_write (loggerWriterRef fmt this) = Logger_write this"
  "ErasedLogWriter_write_structured fmt' clock (loggerWriterRef fmt this) = Logger_write_structured fmt this"
  by (simp_all add: fun_eq_iff ErasedLogWriter_isEnabled_def ErasedLogWriter_write_def
      ErasedLogWriter_write_structured_def loggerWriterRef_def)

lemma DefaultLogWriter_Some [simp]:
  "DefaultLogWriter_isEnabled (Some e) = ErasedLogWriter_isEnabled e"
  "DefaultLogWriter_write (Some e) = ErasedLogWriter_write e"
  "DefaultLogWriter_write_structured fmt clock (Some e) = ErasedLogWriter_write_structured fmt clock e"
  by (simp_all add: fun_eq_iff DefaultLogWriter_isEnabled_def DefaultLogWriter_write_def
      DefaultLogWriter_write_structured_def)

lemma BorrowedLogWriter_logger [simp]:
  "BorrowedLogWriter_isEnabled (BorrowedLogWriter_new (logger_as_writer fmt this)) =
     (\<lambda>level w. Logger_isEnabled level (lw_loggers w this))"
  "BorrowedLogWriter_write (BorrowedLogWriter_new (logger_as_writer fmt this)) = Logger_write this"
  "BorrowedLogWriter_write_structured (BorrowedLogWriter_new (logger_as_writer fmt this)) =
     Logger_write_structured fmt this"
  by (simp_all add: fun_eq_iff BorrowedLogWriter_isEnabled_def BorrowedLogWriter_write_def
      BorrowedLogWriter_write_structured_def BorrowedLogWriter_new_def logger_as_writer_def)

interpretation default_writer: log_writer
  "DefaultLogWriter_isEnabled (Some (loggerWriterRef fmt this))"
  "DefaultLogWriter_write (Some (loggerWriterRef fmt this))" lw_out "Logger_emitted this" lw_now advance_clock
  by (simp add: logger_writer.log_writer_axioms)

interpretation borrowed_writer: log_writer
  "BorrowedLogWriter_isEnabled (BorrowedLogWriter_new (logger_as_writer fmt this))"
  "BorrowedLogWriter_write (BorrowedLogWriter_new (logger_as_writer fmt this))"
  lw_out "Logger_emitted this" lw_now advance_clock
  by (simp add: logger_writer.log_writer_axioms)

text \<open>Registering a logger as a writer and erasing it by hand give the same reference.\<close>

lemma setDefaultLogger_ref [simp]:
  "defaultLogWriterPtr builtin (setDefaultLogger fmt (Some this) g) = loggerWriterRef fmt this"
  by (simp add: setDefaultLogger_def setDefaultLogWriter_def setDefaultLogWriterRef_def
      defaultLogWriterPtr_def loggerWriterRef_def logger_as_writer_def logWriteFn_def
      structuredLogWriteFn_def)

lemma setDefaultLogger_null [simp]:
  "defaultLogWriterPtr builtin (setDefaultLogger fmt None g) = builtin"
  by (simp add: setDefaultLogger_def setDefaultLogWriter_def setDefaultLogWriterRef_def
      defaultLogWriterPtr_def ErasedLogWriter_null_def)

end
