(* ===== verification/Log_Api.thy ===== *)
theory Log_Api
  imports Logger
begin

text \<open>
  The front end of \<^verbatim>\<open>galay-tracing/log/logger.h\<close>: the context-bound proxies \<^verbatim>\<open>ContextLogger\<close> and
  \<^verbatim>\<open>ContextEventLogger\<close> with the factories \<^verbatim>\<open>log\<close> and \<^verbatim>\<open>event\<close>, the functions that log through
  the default writer, and the event macros.

  A template argument for the level is an ordinary argument, \<open>message\<close> is the text that
  \<^verbatim>\<open>std::format\<close> makes. The arguments of the macros are expressions: they are functions of the state
  that return their value and the new state, so that the model says whether they are evaluated.
  \<open>loc\<close> is the source location of the place where a macro is used.
\<close>

section \<open>Writing through a writer\<close>

text \<open>The two overloads of \<^verbatim>\<open>write\<close>; the concepts \<^verbatim>\<open>LogWriter\<close> and \<^verbatim>\<open>StructuredLogWriter\<close> make sure
  that the one that is called exists.\<close>

definition writer_write :: "'w Writer \<Rightarrow> LogRecord \<Rightarrow> 'w \<Rightarrow> 'w" where
  "writer_write x record w = (case wr_write x of Some f \<Rightarrow> f record w | None \<Rightarrow> w)"

definition writer_write_structured :: "'w Writer \<Rightarrow> StructuredLogRecord \<Rightarrow> 'w \<Rightarrow> 'w" where
  "writer_write_structured x record w = (case wr_write_structured x of Some f \<Rightarrow> f record w | None \<Rightarrow> w)"

definition erased_as_writer :: "(double \<Rightarrow> string) \<Rightarrow> ('w \<Rightarrow> int) \<Rightarrow> 'w ErasedLogWriter \<Rightarrow> 'w Writer" where
  "erased_as_writer fmt clock e =
     \<lparr>wr_isEnabled = ErasedLogWriter_isEnabled e, wr_write = Some (ErasedLogWriter_write e),
      wr_write_structured = Some (ErasedLogWriter_write_structured fmt clock e)\<rparr>"

definition writeEventUnchecked ::
  "LogLevel \<Rightarrow> 'w Writer \<Rightarrow> TraceContext option \<Rightarrow> SourceLocation \<Rightarrow> string \<Rightarrow> LogField list \<Rightarrow> 'w \<Rightarrow> 'w" where
  "writeEventUnchecked kLevel writer ctx source name fieldArray w =
     writer_write_structured writer
       \<lparr>sr_level = kLevel, sr_name = name, sr_fields = fieldArray, sr_source = source,
        sr_context = makeLogContext ctx\<rparr> w"

section \<open>ContextLogger and ContextEventLogger\<close>

record 'w ContextLogger =
  cl_context :: "LogContext option"
  cl_writer :: "'w Writer"
  cl_source :: SourceLocation

definition ContextLogger_new ::
  "TraceContext option \<Rightarrow> 'w Writer \<Rightarrow> SourceLocation \<Rightarrow> 'w ContextLogger" where
  "ContextLogger_new ctx writer source =
     \<lparr>cl_context = makeLogContext ctx, cl_writer = writer, cl_source = source\<rparr>"

definition ContextLogger_write ::
  "('w \<Rightarrow> int) \<Rightarrow> LogLevel \<Rightarrow> 'w ContextLogger \<Rightarrow> string \<Rightarrow> 'w \<Rightarrow> 'w" where
  "ContextLogger_write clock kLevel c message w =
     (if \<not> wr_isEnabled (cl_writer c) kLevel w then w
      else writer_write (cl_writer c)
        \<lparr>lr_level = kLevel, lr_message = message, lr_source = cl_source c,
         lr_context = cl_context c, lr_timestamp = clock w\<rparr> w)"

definition ContextLogger_trace :: "('w \<Rightarrow> int) \<Rightarrow> 'w ContextLogger \<Rightarrow> string \<Rightarrow> 'w \<Rightarrow> 'w" where
  "ContextLogger_trace clock = ContextLogger_write clock Log_kTrace"

definition ContextLogger_debug :: "('w \<Rightarrow> int) \<Rightarrow> 'w ContextLogger \<Rightarrow> string \<Rightarrow> 'w \<Rightarrow> 'w" where
  "ContextLogger_debug clock = ContextLogger_write clock Log_kDebug"

definition ContextLogger_info :: "('w \<Rightarrow> int) \<Rightarrow> 'w ContextLogger \<Rightarrow> string \<Rightarrow> 'w \<Rightarrow> 'w" where
  "ContextLogger_info clock = ContextLogger_write clock Log_kInfo"

definition ContextLogger_warn :: "('w \<Rightarrow> int) \<Rightarrow> 'w ContextLogger \<Rightarrow> string \<Rightarrow> 'w \<Rightarrow> 'w" where
  "ContextLogger_warn clock = ContextLogger_write clock Log_kWarn"

definition ContextLogger_error :: "('w \<Rightarrow> int) \<Rightarrow> 'w ContextLogger \<Rightarrow> string \<Rightarrow> 'w \<Rightarrow> 'w" where
  "ContextLogger_error clock = ContextLogger_write clock Log_kError"

record 'w ContextEventLogger =
  ce_context :: "LogContext option"
  ce_writer :: "'w Writer"
  ce_source :: SourceLocation

definition ContextEventLogger_new ::
  "TraceContext option \<Rightarrow> 'w Writer \<Rightarrow> SourceLocation \<Rightarrow> 'w ContextEventLogger" where
  "ContextEventLogger_new ctx writer source =
     \<lparr>ce_context = makeLogContext ctx, ce_writer = writer, ce_source = source\<rparr>"

definition ContextEventLogger_write ::
  "LogLevel \<Rightarrow> 'w ContextEventLogger \<Rightarrow> string \<Rightarrow> LogField list \<Rightarrow> 'w \<Rightarrow> 'w" where
  "ContextEventLogger_write kLevel c name fieldArray w =
     (if \<not> wr_isEnabled (ce_writer c) kLevel w then w
      else writer_write_structured (ce_writer c)
        \<lparr>sr_level = kLevel, sr_name = name, sr_fields = fieldArray, sr_source = ce_source c,
         sr_context = ce_context c\<rparr> w)"

definition ContextEventLogger_trace :: "'w ContextEventLogger \<Rightarrow> string \<Rightarrow> LogField list \<Rightarrow> 'w \<Rightarrow> 'w" where
  "ContextEventLogger_trace = ContextEventLogger_write Log_kTrace"

definition ContextEventLogger_debug :: "'w ContextEventLogger \<Rightarrow> string \<Rightarrow> LogField list \<Rightarrow> 'w \<Rightarrow> 'w" where
  "ContextEventLogger_debug = ContextEventLogger_write Log_kDebug"

definition ContextEventLogger_info :: "'w ContextEventLogger \<Rightarrow> string \<Rightarrow> LogField list \<Rightarrow> 'w \<Rightarrow> 'w" where
  "ContextEventLogger_info = ContextEventLogger_write Log_kInfo"

definition ContextEventLogger_warn :: "'w ContextEventLogger \<Rightarrow> string \<Rightarrow> LogField list \<Rightarrow> 'w \<Rightarrow> 'w" where
  "ContextEventLogger_warn = ContextEventLogger_write Log_kWarn"

definition ContextEventLogger_error :: "'w ContextEventLogger \<Rightarrow> string \<Rightarrow> LogField list \<Rightarrow> 'w \<Rightarrow> 'w" where
  "ContextEventLogger_error = ContextEventLogger_write Log_kError"

text \<open>\<^verbatim>\<open>log\<close> and \<^verbatim>\<open>event\<close>, with the default writer and with an explicit one.\<close>

definition log_default ::
  "(double \<Rightarrow> string) \<Rightarrow> ('w \<Rightarrow> int) \<Rightarrow> 'w ErasedLogWriter \<Rightarrow> 'w Registry
    \<Rightarrow> TraceContext option \<Rightarrow> SourceLocation \<Rightarrow> 'w ContextLogger" where
  "log_default fmt clock builtin g ctx source =
     ContextLogger_new ctx (default_as_writer fmt clock (defaultLogWriter builtin g)) source"

definition log_writer_of :: "TraceContext option \<Rightarrow> 'w Writer \<Rightarrow> SourceLocation \<Rightarrow> 'w ContextLogger" where
  "log_writer_of ctx writer source =
     ContextLogger_new ctx (borrowed_as_writer (BorrowedLogWriter_new writer)) source"

definition event_default ::
  "(double \<Rightarrow> string) \<Rightarrow> ('w \<Rightarrow> int) \<Rightarrow> 'w ErasedLogWriter \<Rightarrow> 'w Registry
    \<Rightarrow> TraceContext option \<Rightarrow> SourceLocation \<Rightarrow> 'w ContextEventLogger" where
  "event_default fmt clock builtin g ctx source =
     ContextEventLogger_new ctx (default_as_writer fmt clock (defaultLogWriter builtin g)) source"

definition event_writer_of ::
  "TraceContext option \<Rightarrow> 'w Writer \<Rightarrow> SourceLocation \<Rightarrow> 'w ContextEventLogger" where
  "event_writer_of ctx writer source =
     ContextEventLogger_new ctx (borrowed_as_writer (BorrowedLogWriter_new writer)) source"

section \<open>Logging through the default writer\<close>

definition logAt ::
  "('w \<Rightarrow> int) \<Rightarrow> 'w ErasedLogWriter \<Rightarrow> 'w Registry \<Rightarrow> LogLevel \<Rightarrow> CurrentContextState
    \<Rightarrow> SourceLocation \<Rightarrow> string \<Rightarrow> 'w \<Rightarrow> 'w" where
  "logAt clock builtin g kLevel slot source message w =
     (let writer = defaultLogWriter builtin g
      in if \<not> DefaultLogWriter_isEnabled writer kLevel w then w
         else DefaultLogWriter_write writer
           \<lparr>lr_level = kLevel, lr_message = message, lr_source = source,
            lr_context = makeLogContext (currentContext slot), lr_timestamp = clock w\<rparr> w)"

definition logWithContextAt ::
  "('w \<Rightarrow> int) \<Rightarrow> 'w ErasedLogWriter \<Rightarrow> 'w Registry \<Rightarrow> LogLevel
    \<Rightarrow> SourceLocation \<Rightarrow> TraceContext option \<Rightarrow> string \<Rightarrow> 'w \<Rightarrow> 'w" where
  "logWithContextAt clock builtin g kLevel source ctx message w =
     (let writer = defaultLogWriter builtin g
      in if \<not> DefaultLogWriter_isEnabled writer kLevel w then w
         else DefaultLogWriter_write writer
           \<lparr>lr_level = kLevel, lr_message = message, lr_source = source,
            lr_context = makeLogContext ctx, lr_timestamp = clock w\<rparr> w)"

text \<open>The functions \<^verbatim>\<open>logTraceAt\<close>, \<^verbatim>\<open>logTraceWithContextAt\<close> and so on fix the level.\<close>

definition logTraceAt where "logTraceAt clock builtin g = logAt clock builtin g Log_kTrace"
definition logTraceWithContextAt where "logTraceWithContextAt clock builtin g = logWithContextAt clock builtin g Log_kTrace"
definition logDebugAt where "logDebugAt clock builtin g = logAt clock builtin g Log_kDebug"
definition logDebugWithContextAt where "logDebugWithContextAt clock builtin g = logWithContextAt clock builtin g Log_kDebug"
definition logInfoAt where "logInfoAt clock builtin g = logAt clock builtin g Log_kInfo"
definition logInfoWithContextAt where "logInfoWithContextAt clock builtin g = logWithContextAt clock builtin g Log_kInfo"
definition logWarnAt where "logWarnAt clock builtin g = logAt clock builtin g Log_kWarn"
definition logWarnWithContextAt where "logWarnWithContextAt clock builtin g = logWithContextAt clock builtin g Log_kWarn"
definition logErrorAt where "logErrorAt clock builtin g = logAt clock builtin g Log_kError"
definition logErrorWithContextAt where "logErrorWithContextAt clock builtin g = logWithContextAt clock builtin g Log_kError"

text \<open>The functions without a location take \<^verbatim>\<open>SourceLocation::current()\<close> in their own body, so the
  place is the line of \<^verbatim>\<open>logger.h\<close>. The name the compiler gives the header and the name it gives the
  instance of the template are the arguments \<open>header\<close> and \<open>function\<close>.\<close>

definition logTrace where
  "logTrace header function clock builtin g slot =
     logTraceAt clock builtin g slot (SourceLocation_current header 886 function)"
definition logDebug where
  "logDebug header function clock builtin g slot =
     logDebugAt clock builtin g slot (SourceLocation_current header 894 function)"
definition logInfo where
  "logInfo header function clock builtin g slot =
     logInfoAt clock builtin g slot (SourceLocation_current header 902 function)"
definition logWarn where
  "logWarn header function clock builtin g slot =
     logWarnAt clock builtin g slot (SourceLocation_current header 910 function)"
definition logError where
  "logError header function clock builtin g slot =
     logErrorAt clock builtin g slot (SourceLocation_current header 918 function)"

section \<open>The event macros\<close>

text \<open>C++ leaves the order of the arguments of a call open; the model takes them from left to right.
  No lemma depends on the order.\<close>

definition GALAY_EVENT_AT ::
  "LogLevel \<Rightarrow> ('w \<Rightarrow> 'w Writer \<times> 'w) \<Rightarrow> ('w \<Rightarrow> TraceContext option \<times> 'w) \<Rightarrow> ('w \<Rightarrow> string \<times> 'w)
    \<Rightarrow> ('w \<Rightarrow> LogField list \<times> 'w) \<Rightarrow> SourceLocation \<Rightarrow> 'w \<Rightarrow> 'w" where
  "GALAY_EVENT_AT level writer ctx name fieldArray loc w =
     (let (galayTracingWriter, w) = writer w
      in if wr_isEnabled galayTracingWriter level w then
           let (c, w) = ctx w; (n, w) = name w; (fs, w) = fieldArray w
           in writeEventUnchecked level galayTracingWriter c loc n fs w
         else w)"

definition GALAY_EVENT_DEFAULT_AT ::
  "(double \<Rightarrow> string) \<Rightarrow> ('w \<Rightarrow> int) \<Rightarrow> 'w ErasedLogWriter \<Rightarrow> 'w Registry \<Rightarrow> LogLevel
    \<Rightarrow> ('w \<Rightarrow> TraceContext option \<times> 'w) \<Rightarrow> ('w \<Rightarrow> string \<times> 'w) \<Rightarrow> ('w \<Rightarrow> LogField list \<times> 'w)
    \<Rightarrow> SourceLocation \<Rightarrow> 'w \<Rightarrow> 'w" where
  "GALAY_EVENT_DEFAULT_AT fmt clock builtin g level ctx name fieldArray loc w =
     (let galayTracingWriter = defaultLogWriterPtr builtin g
      in if ErasedLogWriter_isEnabled galayTracingWriter level w then
           let (c, w) = ctx w; (n, w) = name w; (fs, w) = fieldArray w
           in writeEventUnchecked level (erased_as_writer fmt clock galayTracingWriter) c loc n fs w
         else w)"

section \<open>The logging macros\<close>

text \<open>They take the location \<^verbatim>\<open>{__FILE__, __LINE__, __func__}\<close> of the place where they are used.\<close>

definition GALAY_LOG_TRACE where
  "GALAY_LOG_TRACE file line function clock builtin g slot message =
     logTraceAt clock builtin g slot \<lparr>src_file = file, src_line = line, src_function = function\<rparr> message"

definition GALAY_LOG_TRACE_CTX where
  "GALAY_LOG_TRACE_CTX file line function clock builtin g ctx message =
     logTraceWithContextAt clock builtin g \<lparr>src_file = file, src_line = line, src_function = function\<rparr> ctx message"

definition GALAY_LOG_DEBUG where
  "GALAY_LOG_DEBUG file line function clock builtin g slot message =
     logDebugAt clock builtin g slot \<lparr>src_file = file, src_line = line, src_function = function\<rparr> message"

definition GALAY_LOG_DEBUG_CTX where
  "GALAY_LOG_DEBUG_CTX file line function clock builtin g ctx message =
     logDebugWithContextAt clock builtin g \<lparr>src_file = file, src_line = line, src_function = function\<rparr> ctx message"

definition GALAY_LOG_INFO where
  "GALAY_LOG_INFO file line function clock builtin g slot message =
     logInfoAt clock builtin g slot \<lparr>src_file = file, src_line = line, src_function = function\<rparr> message"

definition GALAY_LOG_INFO_CTX where
  "GALAY_LOG_INFO_CTX file line function clock builtin g ctx message =
     logInfoWithContextAt clock builtin g \<lparr>src_file = file, src_line = line, src_function = function\<rparr> ctx message"

definition GALAY_LOG_WARN where
  "GALAY_LOG_WARN file line function clock builtin g slot message =
     logWarnAt clock builtin g slot \<lparr>src_file = file, src_line = line, src_function = function\<rparr> message"

definition GALAY_LOG_WARN_CTX where
  "GALAY_LOG_WARN_CTX file line function clock builtin g ctx message =
     logWarnWithContextAt clock builtin g \<lparr>src_file = file, src_line = line, src_function = function\<rparr> ctx message"

definition GALAY_LOG_ERROR where
  "GALAY_LOG_ERROR file line function clock builtin g slot message =
     logErrorAt clock builtin g slot \<lparr>src_file = file, src_line = line, src_function = function\<rparr> message"

definition GALAY_LOG_ERROR_CTX where
  "GALAY_LOG_ERROR_CTX file line function clock builtin g ctx message =
     logErrorWithContextAt clock builtin g \<lparr>src_file = file, src_line = line, src_function = function\<rparr> ctx message"

definition GALAY_EVENT_TRACE where
  "GALAY_EVENT_TRACE writer ctx name fieldArray loc = GALAY_EVENT_AT Log_kTrace writer ctx name fieldArray loc"

definition GALAY_EVENT_TRACE_DEFAULT where
  "GALAY_EVENT_TRACE_DEFAULT fmt clock builtin g ctx name fieldArray loc =
     GALAY_EVENT_DEFAULT_AT fmt clock builtin g Log_kTrace ctx name fieldArray loc"

definition GALAY_EVENT_DEBUG where
  "GALAY_EVENT_DEBUG writer ctx name fieldArray loc = GALAY_EVENT_AT Log_kDebug writer ctx name fieldArray loc"

definition GALAY_EVENT_DEBUG_DEFAULT where
  "GALAY_EVENT_DEBUG_DEFAULT fmt clock builtin g ctx name fieldArray loc =
     GALAY_EVENT_DEFAULT_AT fmt clock builtin g Log_kDebug ctx name fieldArray loc"

definition GALAY_EVENT_INFO where
  "GALAY_EVENT_INFO writer ctx name fieldArray loc = GALAY_EVENT_AT Log_kInfo writer ctx name fieldArray loc"

definition GALAY_EVENT_INFO_DEFAULT where
  "GALAY_EVENT_INFO_DEFAULT fmt clock builtin g ctx name fieldArray loc =
     GALAY_EVENT_DEFAULT_AT fmt clock builtin g Log_kInfo ctx name fieldArray loc"

definition GALAY_EVENT_WARN where
  "GALAY_EVENT_WARN writer ctx name fieldArray loc = GALAY_EVENT_AT Log_kWarn writer ctx name fieldArray loc"

definition GALAY_EVENT_WARN_DEFAULT where
  "GALAY_EVENT_WARN_DEFAULT fmt clock builtin g ctx name fieldArray loc =
     GALAY_EVENT_DEFAULT_AT fmt clock builtin g Log_kWarn ctx name fieldArray loc"

definition GALAY_EVENT_ERROR where
  "GALAY_EVENT_ERROR writer ctx name fieldArray loc = GALAY_EVENT_AT Log_kError writer ctx name fieldArray loc"

definition GALAY_EVENT_ERROR_DEFAULT where
  "GALAY_EVENT_ERROR_DEFAULT fmt clock builtin g ctx name fieldArray loc =
     GALAY_EVENT_DEFAULT_AT fmt clock builtin g Log_kError ctx name fieldArray loc"

section \<open>What reaches the sinks\<close>

text \<open>Calls of the front end that go through the default writer, each with the time it happens at;
  \<open>Log_at\<close> takes the context from the slot of the calling thread.\<close>

datatype log_call =
    Log_at int LogLevel CurrentContextState SourceLocation string
  | Log_ctx int LogLevel "TraceContext option" SourceLocation string
  | Log_proxy int LogLevel "TraceContext option" SourceLocation string
  | Log_event int LogLevel "TraceContext option" SourceLocation string "LogField list"
  | Log_event_proxy int LogLevel "TraceContext option" SourceLocation string "LogField list"

fun run_log_call ::
  "(double \<Rightarrow> string) \<Rightarrow> LogWorld ErasedLogWriter \<Rightarrow> LogWorld Registry \<Rightarrow> log_call \<Rightarrow> LogWorld \<Rightarrow> LogWorld" where
  "run_log_call fmt b g (Log_at t v slot loc m) w = logAt lw_now b g v slot loc m (advance_clock t w)"
| "run_log_call fmt b g (Log_ctx t v c loc m) w = logWithContextAt lw_now b g v loc c m (advance_clock t w)"
| "run_log_call fmt b g (Log_proxy t v c loc m) w =
     ContextLogger_write lw_now v (log_default fmt lw_now b g c loc) m (advance_clock t w)"
| "run_log_call fmt b g (Log_event t v c loc n fs) w =
     GALAY_EVENT_DEFAULT_AT fmt lw_now b g v (Pair c) (Pair n) (Pair fs) loc (advance_clock t w)"
| "run_log_call fmt b g (Log_event_proxy t v c loc n fs) w =
     ContextEventLogger_write v (event_default fmt lw_now b g c loc) n fs (advance_clock t w)"

text \<open>The record such a call is about.\<close>

fun call_record :: "(double \<Rightarrow> string) \<Rightarrow> log_call \<Rightarrow> LogRecord" where
  "call_record fmt (Log_at t v slot loc m) =
     \<lparr>lr_level = v, lr_message = m, lr_source = loc,
      lr_context = map_option LogContext_of (currentContext slot), lr_timestamp = t\<rparr>"
| "call_record fmt (Log_ctx t v c loc m) =
     \<lparr>lr_level = v, lr_message = m, lr_source = loc, lr_context = map_option LogContext_of c, lr_timestamp = t\<rparr>"
| "call_record fmt (Log_proxy t v c loc m) =
     \<lparr>lr_level = v, lr_message = m, lr_source = loc, lr_context = map_option LogContext_of c, lr_timestamp = t\<rparr>"
| "call_record fmt (Log_event t v c loc n fs) =
     makeLogRecord fmt t \<lparr>sr_level = v, sr_name = n, sr_fields = fs, sr_source = loc,
                          sr_context = map_option LogContext_of c\<rparr>"
| "call_record fmt (Log_event_proxy t v c loc n fs) =
     makeLogRecord fmt t \<lparr>sr_level = v, sr_name = n, sr_fields = fs, sr_source = loc,
                          sr_context = map_option LogContext_of c\<rparr>"

lemma makeLogContext_map [simp]: "makeLogContext c = map_option LogContext_of c"
  by (simp add: makeLogContext_def split: option.split)

lemma makeLogRecord_level_time [simp]:
  "lr_level (makeLogRecord fmt t r) = sr_level r" "lr_timestamp (makeLogRecord fmt t r) = t"
  by (simp_all add: makeLogRecord_def)

lemma as_writer_simps [simp]:
  "wr_isEnabled (default_as_writer fmt clock d) = DefaultLogWriter_isEnabled d"
  "writer_write (default_as_writer fmt clock d) = DefaultLogWriter_write d"
  "writer_write_structured (default_as_writer fmt clock d) = DefaultLogWriter_write_structured fmt clock d"
  "writer_write_structured (erased_as_writer fmt clock e) = ErasedLogWriter_write_structured fmt clock e"
  by (simp_all add: fun_eq_iff default_as_writer_def erased_as_writer_def writer_write_def
      writer_write_structured_def)

lemmas log_api_defs =
  logAt_def logWithContextAt_def log_default_def event_default_def ContextLogger_new_def
  ContextLogger_write_def ContextEventLogger_new_def ContextEventLogger_write_def
  GALAY_EVENT_DEFAULT_AT_def writeEventUnchecked_def defaultLogWriter_def

text \<open>The default logger: the one that was set, or else the built-in one.\<close>

lemma default_logger_ref:
  "defaultLogWriterPtr (builtInDefaultLogWriterPtr fmt) (setDefaultLogger fmt logger g) =
     loggerWriterRef fmt (defaultLogger (setDefaultLogger fmt logger g))"
  by (cases logger)
    (simp_all add: builtInDefaultLogWriterPtr_def defaultLogger_def setDefaultLogger_def
      setDefaultLogWriter_def setDefaultLogWriterRef_def ErasedLogWriter_null_def
      defaultLogWriterPtr_def loggerWriterRef_def logger_as_writer_def logWriteFn_def
      structuredLogWriteFn_def)

lemma advance_clock_simps [simp]:
  "lw_loggers (advance_clock t w) = lw_loggers w" "lw_now (advance_clock t w) = t"
  "lw_out (advance_clock t w) = lw_out w"
  by (simp_all add: advance_clock_def)

lemma run_log_call_guarded:
  assumes "defaultLogWriterPtr b g = loggerWriterRef fmt this"
  shows "run_log_call fmt b g call =
    log_writer.guarded (\<lambda>v w. Logger_isEnabled v (lw_loggers w this)) (Logger_write this) advance_clock
      (call_record fmt call)"
  by (cases call)
    (simp_all add: fun_eq_iff logger_writer.guarded_def log_api_defs assms Logger_write_structured_def
      Logger_write_def)

text \<open>C4: whatever mixture of plain calls, context calls, events and bound proxies is logged through
  the default logger, its sinks receive exactly the records whose level is at least the threshold,
  and none when the threshold is \<^verbatim>\<open>kOff\<close>, in the order of the calls, each once per sink in the order
  of the sinks, with the context, location and time stamp of its own call. The default logger is the one set last, or the built-in one after a reset.\<close>

theorem default_logger_delivers:
  fixes fmt logger g
  defines "g' \<equiv> setDefaultLogger fmt logger g"
  defines "l \<equiv> \<lambda>w. lw_loggers w (defaultLogger g')"
  shows "lw_out (fold (run_log_call fmt (builtInDefaultLogWriterPtr fmt) g') calls w) =
    lw_out w @ concat (map (\<lambda>r. map (\<lambda>s. (s, r)) (Logger_sinks (l w)))
      (filter (\<lambda>r. lg_level (l w) \<noteq> Log_kOff \<and> lg_level (l w) \<le> lr_level r) (map (call_record fmt) calls)))"
proof -
  have "fold (run_log_call fmt (builtInDefaultLogWriterPtr fmt) g') calls w =
      fold (log_writer.guarded (\<lambda>v w. Logger_isEnabled v (l w)) (Logger_write (defaultLogger g'))
        advance_clock) (map (call_record fmt) calls) w"
    unfolding g'_def l_def fold_map comp_def run_log_call_guarded [OF default_logger_ref] ..
  then show ?thesis
    by (simp add: logger_writer.guarded_calls_out l_def Logger_emitted_def) (simp add: Logger_isEnabled_iff)
qed

text \<open>A writer class with only one of the two \<^verbatim>\<open>write\<close> overloads can be the default writer: a
  plain record reaches a structured writer as an event without fields, and an event reaches a plain
  writer as the record \<^verbatim>\<open>makeLogRecord\<close> makes of it; otherwise each goes to its own overload, and
  nothing is written at a level that is off.\<close>

theorem default_writer_dispatch:
  fixes x :: "'w Writer"
  defines "g' \<equiv> \<lambda>g. setDefaultLogWriter (Some x) g"
  shows "logWithContextAt clock b (g' g) v loc c m w =
      (if \<not> wr_isEnabled x v w then w
       else case (wr_write x, wr_write_structured x) of
              (Some f, _) \<Rightarrow> f \<lparr>lr_level = v, lr_message = m, lr_source = loc,
                               lr_context = map_option LogContext_of c, lr_timestamp = clock w\<rparr> w
            | (None, Some f) \<Rightarrow> f \<lparr>sr_level = v, sr_name = m, sr_fields = [], sr_source = loc,
                                  sr_context = map_option LogContext_of c\<rparr> w
            | (None, None) \<Rightarrow> w)
    \<and> GALAY_EVENT_DEFAULT_AT fmt clock b (g' g) v (Pair c) (Pair n) (Pair fs) loc w =
      (if \<not> wr_isEnabled x v w then w
       else let event = \<lparr>sr_level = v, sr_name = n, sr_fields = fs, sr_source = loc,
                         sr_context = map_option LogContext_of c\<rparr>
            in case (wr_write_structured x, wr_write x) of
                 (Some f, _) \<Rightarrow> f event w
               | (None, Some f) \<Rightarrow> f (makeLogRecord fmt (clock w) event) w
               | (None, None) \<Rightarrow> w)"
  by (simp add: g'_def setDefaultLogWriter_def setDefaultLogWriterRef_def defaultLogWriterPtr_def
      log_api_defs ErasedLogWriter_isEnabled_def ErasedLogWriter_write_def logWriteFn_def
      structuredLogWriteFn_def ErasedLogWriter_write_structured_def writeStructuredFallback_def
      Let_def split: option.split)

text \<open>An event macro at a level that is off leaves the state as the writer expression left it:
  none of the expressions for the context, the name and the fields is evaluated, whatever effects
  they would have. At a level that is on, their effects happen before the one record is written.\<close>

lemma event_arguments_lazy:
  assumes "writer w = (x, w')"
  shows "GALAY_EVENT_AT v writer ctx name fieldArray loc w =
    (if \<not> wr_isEnabled x v w' then w'
     else case ctx w' of (c, w1) \<Rightarrow> case name w1 of (n, w2) \<Rightarrow> case fieldArray w2 of (fs, w3) \<Rightarrow>
       writer_write_structured x \<lparr>sr_level = v, sr_name = n, sr_fields = fs, sr_source = loc,
                                  sr_context = map_option LogContext_of c\<rparr> w3)"
  using assms by (simp add: GALAY_EVENT_AT_def writeEventUnchecked_def split: prod.split)

text \<open>The macros report the place where they are used; the functions without a location report a
  line of \<^verbatim>\<open>logger.h\<close>, the same for every caller, and not the place of the call.\<close>

theorem log_functions_report_header:
  fixes fmt this g
  defines "g' \<equiv> setDefaultLogger fmt (Some this) g"
  defines "sent \<equiv> \<lambda>v line header function slot m w.
    lw_out w @ (if Logger_isEnabled v (lw_loggers w this) then
      map (\<lambda>s. (s, \<lparr>lr_level = v, lr_message = m,
        lr_source = \<lparr>src_file = header, src_line = line, src_function = function\<rparr>,
        lr_context = map_option LogContext_of (currentContext slot), lr_timestamp = lw_now w\<rparr>))
        (Logger_sinks (lw_loggers w this)) else [])"
  shows "lw_out (GALAY_LOG_TRACE file line fn lw_now b g' slot m w) = sent Log_kTrace line file fn slot m w
    \<and> lw_out (GALAY_LOG_DEBUG file line fn lw_now b g' slot m w) = sent Log_kDebug line file fn slot m w
    \<and> lw_out (GALAY_LOG_INFO file line fn lw_now b g' slot m w) = sent Log_kInfo line file fn slot m w
    \<and> lw_out (GALAY_LOG_WARN file line fn lw_now b g' slot m w) = sent Log_kWarn line file fn slot m w
    \<and> lw_out (GALAY_LOG_ERROR file line fn lw_now b g' slot m w) = sent Log_kError line file fn slot m w
    \<and> lw_out (logTrace header function lw_now b g' slot m w) = sent Log_kTrace 886 header function slot m w
    \<and> lw_out (logDebug header function lw_now b g' slot m w) = sent Log_kDebug 894 header function slot m w
    \<and> lw_out (logInfo header function lw_now b g' slot m w) = sent Log_kInfo 902 header function slot m w
    \<and> lw_out (logWarn header function lw_now b g' slot m w) = sent Log_kWarn 910 header function slot m w
    \<and> lw_out (logError header function lw_now b g' slot m w) = sent Log_kError 918 header function slot m w"
  by (simp add: g'_def sent_def GALAY_LOG_TRACE_def GALAY_LOG_DEBUG_def GALAY_LOG_INFO_def
      GALAY_LOG_WARN_def GALAY_LOG_ERROR_def logTrace_def logDebug_def logInfo_def logWarn_def logError_def logTraceAt_def
      logDebugAt_def logInfoAt_def logWarnAt_def logErrorAt_def log_api_defs SourceLocation_current_def
      Logger_write_def Logger_publish_world Logger_emitted_def)

end
