(* ===== verification/Log_Threads.thy ===== *)
theory Log_Threads
  imports Logger
begin

text \<open>
  The logger and the registry of the default writer under threads: \<^verbatim>\<open>addSink\<close>, \<^verbatim>\<open>clearSinks\<close>,
  \<^verbatim>\<open>setLevel\<close>, \<^verbatim>\<open>log\<close> and \<^verbatim>\<open>write\<close> of \<^verbatim>\<open>log/logger.h\<close> and \<^verbatim>\<open>logger.cc\<close> as sequences of atomic accesses,
  with the configuration mutex and the lock-free readers of the current snapshot.

  A thread is a program counter in a function from thread numbers; the relation \<open>logger_step\<close> lets any
  thread make its next access. The fields that start with \<open>h_\<close> record history for the statements and
  are not read by the steps: the configuration calls in the order of their effects, each with its
  thread, and the calls every thread has made.

  The last section does the same for \<^verbatim>\<open>setDefaultLogger\<close>, whose two stores are not one atomic action.
\<close>

section \<open>Threads of a logger\<close>

text \<open>\<open>C_lock\<close> to \<open>C_unlock\<close> carry the sink to add, or nothing for \<^verbatim>\<open>clearSinks\<close>.\<close>

datatype config_pc =
    C_idle
  | C_start config_call
  | C_lock "sink option"
  | C_load "sink option"
  | C_push "sink option" "sink list"
  | C_store "sink option" nat
  | C_unlock

text \<open>The last arguments of a writing thread are history: how many configuration calls had taken effect
  when the call began, when it passed the check of its level (for \<^verbatim>\<open>write\<close>, which has none, nothing), and
  when it loaded the snapshot.\<close>

datatype writer_pc =
    L_idle
  | L_check LogRecord nat
  | L_load LogRecord nat "nat option"
  | L_write LogRecord nat nat nat "nat option" nat
  | L_done LogRecord nat "nat option" nat

record LogThreads =
  lt_logger :: Logger
  lt_mutex :: "nat option"
  lt_configs :: "nat \<Rightarrow> config_pc"
  lt_writers :: "nat \<Rightarrow> writer_pc"
  lt_out :: "(nat \<times> sink \<times> LogRecord) list"
  h_ops :: "(nat \<times> config_call) list"
  h_called :: "nat \<Rightarrow> config_call list"

definition LogThreads_init :: "LogLevel \<Rightarrow> LogThreads" where
  "LogThreads_init level =
     \<lparr>lt_logger = Logger_new level, lt_mutex = None, lt_configs = (\<lambda>_. C_idle), lt_writers = (\<lambda>_. L_idle),
      lt_out = [], h_ops = [], h_called = (\<lambda>_. [])\<rparr>"

text \<open>The call that a lock section performs.\<close>

definition config_of :: "sink option \<Rightarrow> config_call" where
  "config_of k = (case k of None \<Rightarrow> Clear_sinks | Some s \<Rightarrow> Add_sink (Some s))"

definition note_op :: "nat \<Rightarrow> config_call \<Rightarrow> LogThreads \<Rightarrow> LogThreads" where
  "note_op t c s = s\<lparr>h_ops := h_ops s @ [(t, c)]\<rparr>"

text \<open>One access of a configuring thread; \<^term>\<open>None\<close> while the mutex is taken.\<close>

fun config_step :: "nat \<Rightarrow> config_pc \<Rightarrow> LogThreads \<Rightarrow> (config_pc \<times> LogThreads) option" where
  "config_step t C_idle s = None"
| "config_step t (C_start (Add_sink None)) s = Some (C_idle, note_op t (Add_sink None) s)"
| "config_step t (C_start (Add_sink (Some x))) s = Some (C_lock (Some x), s)"
| "config_step t (C_start Clear_sinks) s = Some (C_lock None, s)"
| "config_step t (C_start (Set_level v)) s =
     Some (C_idle, note_op t (Set_level v) (s\<lparr>lt_logger := Logger_setLevel v (lt_logger s)\<rparr>))"
| "config_step t (C_lock k) s =
     (if lt_mutex s = None then Some (C_load k, s\<lparr>lt_mutex := Some t\<rparr>) else None)"
| "config_step t (C_load k) s =
     (let current = lg_sinkSnapshot (lt_logger s)
      in Some (C_push k
           (case k of
              None \<Rightarrow> []
            | Some x \<Rightarrow> (case current of Some i \<Rightarrow> lg_sinkSnapshots (lt_logger s) ! i | None \<Rightarrow> []) @ [x]), s))"
| "config_step t (C_push k next) s =
     (let l = lt_logger s
      in Some (C_store k (length (lg_sinkSnapshots l)),
           s\<lparr>lt_logger := l\<lparr>lg_sinkSnapshots := lg_sinkSnapshots l @ [next]\<rparr>\<rparr>))"
| "config_step t (C_store k i) s =
     Some (C_unlock, note_op t (config_of k) (s\<lparr>lt_logger := (lt_logger s)\<lparr>lg_sinkSnapshot := Some i\<rparr>\<rparr>))"
| "config_step t C_unlock s = Some (C_idle, s\<lparr>lt_mutex := None\<rparr>)"

text \<open>One access of a thread in \<^verbatim>\<open>log\<close> (from \<open>L_check\<close>) or \<^verbatim>\<open>write\<close> (from \<open>L_load\<close>).\<close>

fun writer_step :: "nat \<Rightarrow> writer_pc \<Rightarrow> LogThreads \<Rightarrow> (writer_pc \<times> LogThreads) option" where
  "writer_step t L_idle s = None"
| "writer_step t (L_check r lo) s =
     Some (if Logger_isEnabled (lr_level r) (lt_logger s) then L_load r lo (Some (length (h_ops s))) else L_idle, s)"
| "writer_step t (L_load r lo m) s =
     Some (case lg_sinkSnapshot (lt_logger s) of
             None \<Rightarrow> L_idle
           | Some i \<Rightarrow> L_write r i 0 lo m (length (h_ops s)), s)"
| "writer_step t (L_write r i k lo m n) s =
     (let sinks = lg_sinkSnapshots (lt_logger s) ! i
      in if k < length sinks
         then Some (L_write r i (Suc k) lo m n, s\<lparr>lt_out := lt_out s @ [(t, sinks ! k, r)]\<rparr>)
         else Some (L_done r lo m n, s))"
| "writer_step t (L_done r lo m n) s = None"

inductive logger_step :: "LogThreads \<Rightarrow> LogThreads \<Rightarrow> bool" where
  call_config: "lt_configs s t = C_idle \<Longrightarrow>
     logger_step s (s\<lparr>lt_configs := (lt_configs s)(t := C_start c), h_called := (h_called s)(t := h_called s t @ [c])\<rparr>)"
| config: "config_step t (lt_configs s t) s = Some (p, s') \<Longrightarrow>
     logger_step s (s'\<lparr>lt_configs := (lt_configs s')(t := p)\<rparr>)"
| call_log: "lt_writers s t = L_idle \<Longrightarrow>
     logger_step s (s\<lparr>lt_writers := (lt_writers s)(t := L_check r (length (h_ops s)))\<rparr>)"
| call_write: "lt_writers s t = L_idle \<Longrightarrow>
     logger_step s (s\<lparr>lt_writers := (lt_writers s)(t := L_load r (length (h_ops s)) None)\<rparr>)"
| writer: "writer_step t (lt_writers s t) s = Some (p, s') \<Longrightarrow>
     logger_step s (s'\<lparr>lt_writers := (lt_writers s')(t := p)\<rparr>)"

inductive_cases logger_stepE: "logger_step s s'"

definition logger_reachable :: "LogLevel \<Rightarrow> LogThreads \<Rightarrow> bool" where
  "logger_reachable level s \<longleftrightarrow> logger_step\<^sup>*\<^sup>* (LogThreads_init level) s"

section \<open>Invariants\<close>

text \<open>Mutual exclusion: a thread is inside the lock section exactly when it owns the mutex.\<close>

fun in_section :: "config_pc \<Rightarrow> bool" where
  "in_section (C_load _) = True"
| "in_section (C_push _ _) = True"
| "in_section (C_store _ _) = True"
| "in_section C_unlock = True"
| "in_section _ = False"

definition exclusive :: "LogThreads \<Rightarrow> bool" where
  "exclusive s \<longleftrightarrow> (\<forall>t. in_section (lt_configs s t) \<longleftrightarrow> lt_mutex s = Some t)"

text \<open>The state of the specification after the first \<open>n\<close> effects.\<close>

definition spec_state :: "LogLevel \<Rightarrow> (nat \<times> config_call) list \<Rightarrow> LogLevel \<times> sink list" where
  "spec_state level ops = fold config_spec (map snd ops) (level, [])"

text \<open>What the owner of the mutex has prepared is what its call should make of the current sinks.\<close>

fun prepared :: "Logger \<Rightarrow> config_pc \<Rightarrow> bool" where
  "prepared l (C_push k next) = (next = snd (config_spec (config_of k) (Logger_abs l)))"
| "prepared l (C_store k i) =
     (Suc i = length (lg_sinkSnapshots l) \<and>
      lg_sinkSnapshots l ! i = snd (config_spec (config_of k) (Logger_abs l)))"
| "prepared l _ = True"

definition refines_spec :: "LogLevel \<Rightarrow> LogThreads \<Rightarrow> bool" where
  "refines_spec level s \<longleftrightarrow> Logger_wf (lt_logger s) \<and> Logger_abs (lt_logger s) = spec_state level (h_ops s) \<and>
     (\<forall>t. prepared (lt_logger s) (lt_configs s t))"

text \<open>Calls that have been made and have not taken effect.\<close>

fun pending :: "config_pc \<Rightarrow> config_call list" where
  "pending (C_start c) = [c]"
| "pending (C_lock k) = [config_of k]"
| "pending (C_load k) = [config_of k]"
| "pending (C_push k _) = [config_of k]"
| "pending (C_store k _) = [config_of k]"
| "pending _ = []"

definition ops_of :: "nat \<Rightarrow> (nat \<times> config_call) list \<Rightarrow> config_call list" where
  "ops_of t ops = map snd (filter (\<lambda>(u, _). u = t) ops)"

definition program_order :: "LogThreads \<Rightarrow> bool" where
  "program_order s \<longleftrightarrow> (\<forall>t. ops_of t (h_ops s) @ pending (lt_configs s t) = h_called s t)"

text \<open>What a thread has written so far.\<close>

definition written :: "nat \<Rightarrow> LogThreads \<Rightarrow> (sink \<times> LogRecord) list" where
  "written t s = map snd (filter (\<lambda>(u, _). u = t) (lt_out s))"

text \<open>The check of the level was passed at a moment of the call, against the level of that moment.\<close>

definition passed :: "LogLevel \<Rightarrow> (nat \<times> config_call) list \<Rightarrow> LogRecord \<Rightarrow> nat \<Rightarrow> nat option \<Rightarrow> nat \<Rightarrow> bool" where
  "passed level ops r lo m n \<longleftrightarrow>
     (case m of
        None \<Rightarrow> True
      | Some j \<Rightarrow> lo \<le> j \<and> j \<le> n \<and>
          (let threshold = fst (spec_state level (take j ops)) in threshold \<noteq> Log_kOff \<and> threshold \<le> lr_level r))"

fun writer_ok :: "LogLevel \<Rightarrow> LogThreads \<Rightarrow> nat \<Rightarrow> writer_pc \<Rightarrow> bool" where
  "writer_ok level s t L_idle = (written t s = [])"
| "writer_ok level s t (L_check r lo) = (written t s = [] \<and> lo \<le> length (h_ops s))"
| "writer_ok level s t (L_load r lo m) =
     (written t s = [] \<and> lo \<le> length (h_ops s) \<and> passed level (h_ops s) r lo m (length (h_ops s)))"
| "writer_ok level s t (L_write r i k lo m n) =
     (i < length (lg_sinkSnapshots (lt_logger s)) \<and> k \<le> length (lg_sinkSnapshots (lt_logger s) ! i) \<and>
      lo \<le> n \<and> n \<le> length (h_ops s) \<and> passed level (h_ops s) r lo m n \<and>
      lg_sinkSnapshots (lt_logger s) ! i = snd (spec_state level (take n (h_ops s))) \<and>
      written t s = map (\<lambda>x. (x, r)) (take k (lg_sinkSnapshots (lt_logger s) ! i)))"
| "writer_ok level s t (L_done r lo m n) =
     (lo \<le> n \<and> n \<le> length (h_ops s) \<and> passed level (h_ops s) r lo m n \<and>
      written t s = map (\<lambda>x. (x, r)) (snd (spec_state level (take n (h_ops s)))))"

definition writers_ok :: "LogLevel \<Rightarrow> LogThreads \<Rightarrow> bool" where
  "writers_ok level s \<longleftrightarrow> (\<forall>t. writer_ok level s t (lt_writers s t))"

section \<open>The invariants are kept\<close>

lemma note_op_simps [simp]:
  "lt_logger (note_op t c s) = lt_logger s" "lt_mutex (note_op t c s) = lt_mutex s"
  "lt_configs (note_op t c s) = lt_configs s" "lt_writers (note_op t c s) = lt_writers s"
  "lt_out (note_op t c s) = lt_out s" "h_ops (note_op t c s) = h_ops s @ [(t, c)]"
  "h_called (note_op t c s) = h_called s"
  by (simp_all add: note_op_def)

lemma spec_state_snoc [simp]: "spec_state level (ops @ [(t, c)]) = config_spec c (spec_state level ops)"
  by (simp add: spec_state_def)

lemma config_spec_of [simp]:
  "config_spec (config_of k) vs = (fst vs, case k of None \<Rightarrow> [] | Some x \<Rightarrow> snd vs @ [x])"
  by (cases vs) (simp add: config_of_def split: option.split)

lemma config_spec_simple [simp]:
  "config_spec (Add_sink None) vs = vs" "config_spec (Set_level v) vs = (v, snd vs)"
  by (cases vs; simp)+

lemma ops_of_snoc [simp]: "ops_of t (ops @ [(u, c)]) = ops_of t ops @ (if u = t then [c] else [])"
  by (simp add: ops_of_def)

text \<open>What a configuring thread leaves alone.\<close>

lemma config_step_frame:
  assumes "config_step t p s = Some (p', s')"
  shows "lt_configs s' = lt_configs s" "lt_writers s' = lt_writers s" "lt_out s' = lt_out s"
    "h_called s' = h_called s" "\<exists>new. h_ops s' = h_ops s @ new"
    "\<exists>new. lg_sinkSnapshots (lt_logger s') = lg_sinkSnapshots (lt_logger s) @ new"
  using assms
  by (induction t p s rule: config_step.induct)
    (auto simp: Let_def Logger_setLevel_def note_op_def split: if_splits)

lemma writer_step_frame:
  assumes "writer_step t p s = Some (p', s')"
  shows "lt_configs s' = lt_configs s" "lt_writers s' = lt_writers s" "lt_logger s' = lt_logger s"
    "lt_mutex s' = lt_mutex s" "h_called s' = h_called s" "h_ops s' = h_ops s"
  using assms by (induction t p s rule: writer_step.induct) (auto simp: Let_def split: if_splits)

lemma exclusive_config:
  assumes "config_step t (lt_configs s t) s = Some (p, s')" and "exclusive s"
  shows "exclusive (s'\<lparr>lt_configs := (lt_configs s')(t := p)\<rparr>)"
proof -
  have own: "in_section (lt_configs s t) = (lt_mutex s = Some t)"
    using assms(2) by (simp add: exclusive_def)
  have "in_section p = (lt_mutex s' = Some t)"
    and "\<And>u. u \<noteq> t \<Longrightarrow> (lt_mutex s' = Some u) = (lt_mutex s = Some u)"
    using assms(1) own
    by (cases "(t, lt_configs s t, s)" rule: config_step.cases; auto simp: Let_def split: if_splits)+
  then show ?thesis
    using assms(2) config_step_frame(1) [OF assms(1)] by (auto simp: exclusive_def)
qed

lemma program_order_config:
  assumes "config_step t (lt_configs s t) s = Some (p, s')" and "program_order s"
  shows "program_order (s'\<lparr>lt_configs := (lt_configs s')(t := p)\<rparr>)"
proof -
  have "ops_of t (h_ops s') @ pending p = ops_of t (h_ops s) @ pending (lt_configs s t)"
    and "\<And>u. u \<noteq> t \<Longrightarrow> ops_of u (h_ops s') = ops_of u (h_ops s)"
    using assms(1)
    by (cases "(t, lt_configs s t, s)" rule: config_step.cases; auto simp: Let_def config_of_def split: if_splits)+
  then show ?thesis
    using assms(2) config_step_frame [OF assms(1)] by (simp add: program_order_def)
qed

lemma Logger_abs_setLevel [simp]:
  "Logger_abs (Logger_setLevel v l) = (v, snd (Logger_abs l))" "Logger_wf (Logger_setLevel v l) = Logger_wf l"
  by (simp_all add: Logger_abs_def Logger_setLevel_def Logger_sinks_def Logger_wf_def split: option.split)

lemma prepared_setLevel [simp]: "prepared (Logger_setLevel v l) q = prepared l q"
proof -
  have "lg_sinkSnapshots (Logger_setLevel v l) = lg_sinkSnapshots l"
    by (simp add: Logger_setLevel_def)
  then show ?thesis by (cases q) (simp_all split: option.split)
qed

lemma prepared_outside: "\<not> in_section q \<Longrightarrow> prepared l q"
  by (cases q) simp_all

lemma Logger_push_snapshot:
  assumes "Logger_wf l"
  shows "Logger_abs (l\<lparr>lg_sinkSnapshots := lg_sinkSnapshots l @ [next]\<rparr>) = Logger_abs l"
    "Logger_wf (l\<lparr>lg_sinkSnapshots := lg_sinkSnapshots l @ [next]\<rparr>)"
  using assms by (auto simp: Logger_abs_def Logger_sinks_def Logger_wf_def nth_append split: option.splits)

lemma Logger_store_snapshot:
  assumes "i < length (lg_sinkSnapshots l)"
  shows "Logger_abs (l\<lparr>lg_sinkSnapshot := Some i\<rparr>) = (fst (Logger_abs l), lg_sinkSnapshots l ! i)"
    "Logger_wf (l\<lparr>lg_sinkSnapshot := Some i\<rparr>)"
  using assms by (simp_all add: Logger_abs_def Logger_sinks_def Logger_wf_def)

text \<open>A step outside the lock section changes the level at most.\<close>

lemma config_step_outside:
  assumes "config_step t p s = Some (p', s')" and "\<not> in_section p"
  shows "lt_logger s' = lt_logger s \<or> (\<exists>v. lt_logger s' = Logger_setLevel v (lt_logger s))"
  using assms by (cases "(t, p, s)" rule: config_step.cases) (auto split: if_splits)

lemma refines_spec_own:
  assumes "config_step t (lt_configs s t) s = Some (p, s')" and "refines_spec level s"
  shows "Logger_wf (lt_logger s') \<and> Logger_abs (lt_logger s') = spec_state level (h_ops s') \<and>
    prepared (lt_logger s') p"
proof -
  have wf: "Logger_wf (lt_logger s)" and abs: "Logger_abs (lt_logger s) = spec_state level (h_ops s)"
    and prep: "prepared (lt_logger s) (lt_configs s t)"
    using assms(2) by (simp_all add: refines_spec_def)
  show ?thesis
  proof (cases "lt_configs s t")
    case (C_start c)
    then show ?thesis
      using assms(1) wf abs
      by (cases "(t, lt_configs s t, s)" rule: config_step.cases) (auto simp: split_beta prod_eq_iff)
  next
    case (C_load k)
    moreover have "snd (Logger_abs (lt_logger s)) =
        (case lg_sinkSnapshot (lt_logger s) of Some i \<Rightarrow> lg_sinkSnapshots (lt_logger s) ! i | None \<Rightarrow> [])"
      by (simp add: Logger_abs_def Logger_sinks_def)
    ultimately show ?thesis
      using assms(1) wf abs by (auto simp: Let_def split: option.split)
  next
    case (C_push k sinks)
    then show ?thesis
      using assms(1) wf abs prep Logger_push_snapshot [OF wf, of sinks] by (auto simp: Let_def)
  next
    case (C_store k i)
    then show ?thesis
      using assms(1) wf abs prep Logger_store_snapshot [of i "lt_logger s"] by auto
  qed (use assms(1) wf abs in \<open>auto split: if_splits\<close>)
qed

lemma refines_spec_config:
  assumes "config_step t (lt_configs s t) s = Some (p, s')" and "refines_spec level s" and "exclusive s"
  shows "refines_spec level (s'\<lparr>lt_configs := (lt_configs s')(t := p)\<rparr>)"
proof -
  have "prepared (lt_logger s') (lt_configs s u)" if "u \<noteq> t" for u
  proof (cases "in_section (lt_configs s u)")
    case True
    then have "\<not> in_section (lt_configs s t)" using assms(3) that by (auto simp: exclusive_def)
    then show ?thesis
      using config_step_outside [OF assms(1)] assms(2) by (auto simp: refines_spec_def)
  qed (simp add: prepared_outside)
  then show ?thesis
    using refines_spec_own [OF assms(1,2)] config_step_frame(1) [OF assms(1)] by (simp add: refines_spec_def)
qed

text \<open>What a writing thread relies on is only added to.\<close>

lemma passed_grows:
  assumes "passed level ops r lo m n" and "n \<le> n'" and "n \<le> length ops"
  shows "passed level (ops @ new) r lo m n'"
  using assms by (auto simp: passed_def split: option.splits)

lemma passed_write [simp]: "passed level ops r lo None n"
  by (simp add: passed_def)

lemma passed_now:
  assumes "Logger_isEnabled (lr_level r) l" and "Logger_abs l = spec_state level ops" and "lo \<le> length ops"
  shows "passed level ops r lo (Some (length ops)) (length ops)"
proof -
  have "lg_level l = fst (spec_state level ops)" using assms(2) by (metis Logger_abs_def fst_conv)
  then show ?thesis using assms(1,3) by (simp add: passed_def Logger_isEnabled_iff Let_def)
qed

lemma writer_ok_grows:
  assumes "writer_ok level s t p" and "lt_out s' = lt_out s" and "h_ops s' = h_ops s @ ops"
    and "lg_sinkSnapshots (lt_logger s') = lg_sinkSnapshots (lt_logger s) @ snaps"
  shows "writer_ok level s' t p"
proof -
  have out: "written t s' = written t s" using assms(2) by (simp add: written_def)
  show ?thesis
  proof (cases p)
    case (L_write r i k lo m n)
    then have "i < length (lg_sinkSnapshots (lt_logger s))" "n \<le> length (h_ops s)"
      using assms(1) by simp_all
    then show ?thesis using assms(1,3,4) L_write out by (auto simp: nth_append passed_grows)
  qed (use assms(1,3) out in \<open>auto simp: passed_grows\<close>)
qed

lemma writers_ok_config:
  assumes "config_step t (lt_configs s t) s = Some (p, s')" and "writers_ok level s"
  shows "writers_ok level (s'\<lparr>lt_configs := (lt_configs s')(t := p)\<rparr>)"
proof -
  obtain ops snaps where new: "h_ops s' = h_ops s @ ops"
    "lg_sinkSnapshots (lt_logger s') = lg_sinkSnapshots (lt_logger s) @ snaps"
    using config_step_frame(5,6) [OF assms(1)] by blast
  have "writer_ok level (s'\<lparr>lt_configs := (lt_configs s')(t := p)\<rparr>) u (lt_writers s u)" for u
  proof (rule writer_ok_grows)
    show "writer_ok level s u (lt_writers s u)" using assms(2) by (simp add: writers_ok_def)
  qed (use new config_step_frame(3) [OF assms(1)] in simp_all)
  then show ?thesis using config_step_frame(2) [OF assms(1)] by (simp add: writers_ok_def)
qed

lemma written_snoc: "lt_out s' = lt_out s @ [(t, x)] \<Longrightarrow> written u s' = written u s @ (if u = t then [x] else [])"
  by (simp add: written_def)

lemma writer_step_ok:
  assumes "writer_step t p s = Some (p', s')" and "writer_ok level s t p" and "refines_spec level s"
  shows "writer_ok level s' t p'" and "u \<noteq> t \<Longrightarrow> written u s' = written u s"
proof -
  show "writer_ok level s' t p'"
  proof (cases p)
    case (L_check r lo)
    then show ?thesis
      using assms passed_now [of r "lt_logger s" level "h_ops s" lo] by (auto simp: refines_spec_def)
  next
    case (L_load r lo m)
    have "snd (Logger_abs (lt_logger s)) = snd (spec_state level (h_ops s))"
      using assms(3) by (simp add: refines_spec_def)
    then show ?thesis
      using assms L_load
      by (auto simp: written_def refines_spec_def Logger_abs_def Logger_sinks_def Logger_wf_def split: option.splits)
  next
    case (L_write r i k lo m n)
    then show ?thesis
      using assms(1,2) by (auto simp: Let_def written_def take_Suc_conv_app_nth split: if_splits)
  qed (use assms(1,2) in \<open>auto simp: written_def\<close>)
  show "u \<noteq> t \<Longrightarrow> written u s' = written u s"
    using assms(1) by (cases p) (auto simp: Let_def written_def split: if_splits)
qed

lemma writers_ok_writer:
  assumes "writer_step t (lt_writers s t) s = Some (p, s')" and "writers_ok level s" and "refines_spec level s"
  shows "writers_ok level (s'\<lparr>lt_writers := (lt_writers s')(t := p)\<rparr>)"
proof -
  have ok: "writer_ok level s u (lt_writers s u)" for u using assms(2) by (simp add: writers_ok_def)
  have "writer_ok level s' u (lt_writers s u)" if "u \<noteq> t" for u
    using ok [of u] writer_step_ok(2) [OF assms(1) ok assms(3) that] writer_step_frame [OF assms(1)]
    by (cases "lt_writers s u") auto
  moreover have "writer_ok level s' t p" by (rule writer_step_ok(1) [OF assms(1) ok assms(3)])
  moreover have "writer_ok level (s'\<lparr>lt_writers := f\<rparr>) u q = writer_ok level s' u q" for f u q
    by (cases q) (simp_all add: written_def)
  ultimately show ?thesis using writer_step_frame(2) [OF assms(1)] by (simp add: writers_ok_def)
qed

definition threads_inv :: "LogLevel \<Rightarrow> LogThreads \<Rightarrow> bool" where
  "threads_inv level s \<longleftrightarrow> exclusive s \<and> program_order s \<and> refines_spec level s \<and> writers_ok level s"

lemma writer_ok_configs [simp]:
  "writer_ok level (s\<lparr>lt_configs := f, h_called := g\<rparr>) t q = writer_ok level s t q"
  "writer_ok level (s\<lparr>lt_writers := h\<rparr>) t q = writer_ok level s t q"
  by (cases q; simp add: written_def)+

lemma threads_inv_init: "threads_inv level (LogThreads_init level)"
  by (simp add: threads_inv_def LogThreads_init_def exclusive_def program_order_def refines_spec_def
      writers_ok_def written_def ops_of_def spec_state_def)

lemma threads_inv_step:
  assumes "logger_step s s'" and "threads_inv level s"
  shows "threads_inv level s'"
  using assms
proof (cases rule: logger_step.cases)
  case (call_config t c)
  moreover have "lt_mutex s \<noteq> Some t" and "ops_of t (h_ops s) = h_called s t"
    using assms(2) call_config(2) unfolding threads_inv_def exclusive_def program_order_def
    by (metis in_section.simps(5), metis append_Nil2 pending.simps(6))
  ultimately show ?thesis
    using assms(2)
    by (simp add: threads_inv_def exclusive_def program_order_def refines_spec_def writers_ok_def)
next
  case (config t p s1)
  then show ?thesis
    using assms(2) exclusive_config program_order_config refines_spec_config writers_ok_config
    by (simp add: threads_inv_def)
next
  case (writer t p s1)
  then show ?thesis
    using assms(2) writers_ok_writer [OF writer(2)] writer_step_frame [OF writer(2)]
    by (simp add: threads_inv_def exclusive_def program_order_def refines_spec_def)
next
  case (call_log t r)
  moreover have "written t s = []"
    using assms(2) call_log by (metis threads_inv_def writer_ok.simps(1) writers_ok_def)
  ultimately show ?thesis
    using assms(2) by (simp add: threads_inv_def exclusive_def program_order_def refines_spec_def writers_ok_def)
next
  case (call_write t r)
  moreover have "written t s = []"
    using assms(2) call_write by (metis threads_inv_def writer_ok.simps(1) writers_ok_def)
  ultimately show ?thesis
    using assms(2) by (simp add: threads_inv_def exclusive_def program_order_def refines_spec_def writers_ok_def)
qed

lemma threads_inv_reachable:
  assumes "logger_reachable level s"
  shows "threads_inv level s"
  using assms unfolding logger_reachable_def
  by (induction rule: rtranclp_induct) (auto intro: threads_inv_init threads_inv_step)

section \<open>Schedules\<close>

text \<open>The choices of a scheduler as data, and the state they lead to.\<close>

datatype logger_event =
    Call_config nat config_call
  | Call_log nat LogRecord
  | Call_write nat LogRecord
  | Step_config nat
  | Step_writer nat

fun logger_do :: "logger_event \<Rightarrow> LogThreads \<Rightarrow> LogThreads option" where
  "logger_do (Call_config t c) s =
     (if lt_configs s t = C_idle
      then Some (s\<lparr>lt_configs := (lt_configs s)(t := C_start c), h_called := (h_called s)(t := h_called s t @ [c])\<rparr>)
      else None)"
| "logger_do (Call_log t r) s =
     (if lt_writers s t = L_idle
      then Some (s\<lparr>lt_writers := (lt_writers s)(t := L_check r (length (h_ops s)))\<rparr>) else None)"
| "logger_do (Call_write t r) s =
     (if lt_writers s t = L_idle
      then Some (s\<lparr>lt_writers := (lt_writers s)(t := L_load r (length (h_ops s)) None)\<rparr>) else None)"
| "logger_do (Step_config t) s =
     map_option (\<lambda>(p, s'). s'\<lparr>lt_configs := (lt_configs s')(t := p)\<rparr>) (config_step t (lt_configs s t) s)"
| "logger_do (Step_writer t) s =
     map_option (\<lambda>(p, s'). s'\<lparr>lt_writers := (lt_writers s')(t := p)\<rparr>) (writer_step t (lt_writers s t) s)"

fun logger_run :: "logger_event list \<Rightarrow> LogThreads \<Rightarrow> LogThreads option" where
  "logger_run [] s = Some s"
| "logger_run (e # es) s = Option.bind (logger_do e s) (logger_run es)"

lemma logger_do_step: "logger_do e s = Some s' \<Longrightarrow> logger_step s s'"
  by (cases e) (auto intro: logger_step.intros split: if_splits)

lemma logger_run_reachable:
  assumes "logger_run es s = Some s'" and "logger_reachable level s"
  shows "logger_reachable level s'"
  using assms
proof (induction es arbitrary: s)
  case (Cons e es)
  then obtain s1 where "logger_do e s = Some s1" "logger_run es s1 = Some s'"
    by (auto split: bind_splits)
  then show ?case
    using Cons.IH [of s1] Cons.prems(2) logger_do_step [of e s s1] unfolding logger_reachable_def
    by (blast intro: rtranclp.rtrancl_into_rtrancl)
qed simp

lemma logger_reachable_init [simp]: "logger_reachable level (LogThreads_init level)"
  by (simp add: logger_reachable_def)

text \<open>Two threads add a sink each, a third one logs in between: the first sink is published when the record
  loads the snapshot, the second one only afterwards.\<close>

definition sample_record :: LogRecord where
  "sample_record = \<lparr>lr_level = Log_kInfo, lr_message = ''m'', lr_source = \<lparr>src_file = '''', src_line = 0, src_function = ''''\<rparr>,
     lr_context = None, lr_timestamp = 0\<rparr>"

definition sample_schedule :: "logger_event list" where
  "sample_schedule =
     [Call_config 1 (Add_sink (Some 10)), Call_config 2 (Add_sink (Some 20)), Call_log 3 sample_record]
     @ replicate 6 (Step_config 1) @ replicate 3 (Step_config 2) @ replicate 2 (Step_writer 3)
     @ replicate 3 (Step_config 2) @ replicate 2 (Step_writer 3)"

lemma sample_schedule_run:
  "\<exists>s. logger_run sample_schedule (LogThreads_init Log_kInfo) = Some s \<and> lt_configs s 1 = C_idle
     \<and> lt_configs s 2 = C_idle \<and> lt_writers s 3 = L_done sample_record 0 (Some 1) 1
     \<and> h_ops s = [(1, Add_sink (Some 10)), (2, Add_sink (Some 20))]"
  by (simp add: sample_schedule_def LogThreads_init_def Logger_new_def Logger_isEnabled_def numeral_eq_Suc
      sample_record_def Let_def note_op_def config_of_def)

section \<open>Properties\<close>

text \<open>C5: in every interleaving of configuration calls and writers, a finished \<^verbatim>\<open>log\<close> or \<^verbatim>\<open>write\<close> call has handed
  its record, once each and in order, to exactly the sinks of the logger at one moment of the call: the
  sinks after the first \<open>n\<close> configuration effects, where at least the \<open>lo\<close> effects before the call are
  included and none after it. A \<^verbatim>\<open>log\<close> call has before that, at one moment \<open>m\<close> of the call, found its level
  enabled by the threshold of that moment.\<close>

theorem logger_publish_linearizable:
  assumes "logger_reachable level s" and "lt_writers s t = L_done r lo m n"
  shows "lo \<le> n \<and> n \<le> length (h_ops s)
    \<and> written t s = map (\<lambda>x. (x, r)) (snd (spec_state level (take n (h_ops s))))
    \<and> (case m of
         None \<Rightarrow> True
       | Some j \<Rightarrow> lo \<le> j \<and> j \<le> n \<and> fst (spec_state level (take j (h_ops s))) \<noteq> Log_kOff
           \<and> fst (spec_state level (take j (h_ops s))) \<le> lr_level r)"
proof -
  have "writer_ok level s t (L_done r lo m n)"
    using threads_inv_reachable [OF assms(1)] assms(2) by (metis threads_inv_def writers_ok_def)
  then show ?thesis by (simp add: passed_def Let_def split: option.splits)
qed

text \<open>Logging of one record while two sinks are added: only the first one gets it.\<close>

theorem logger_publish_linearizable_witness:
  "\<exists>s. logger_reachable Log_kInfo s \<and> written 3 s = [(10, sample_record)] \<and> length (h_ops s) = 2"
proof -
  obtain s where run: "logger_run sample_schedule (LogThreads_init Log_kInfo) = Some s"
    and done_3: "lt_writers s 3 = L_done sample_record 0 (Some 1) 1"
    and ops: "h_ops s = [(1, Add_sink (Some 10)), (2, Add_sink (Some 20))]"
    using sample_schedule_run by blast
  have reach: "logger_reachable Log_kInfo s" by (rule logger_run_reachable [OF run]) simp
  have "written 3 s = [(10, sample_record)]"
    using logger_publish_linearizable [OF reach done_3] ops by (simp add: spec_state_def)
  with reach ops show ?thesis by auto
qed

text \<open>C6: in every interleaving the level and the sinks of a logger are those of the specification after the
  effects so far, a thread that has no call open has had all its calls take effect in program order,
  and at most one thread is inside the configuration lock.\<close>

theorem logger_config_linearizable:
  assumes "logger_reachable level s"
  shows "Logger_abs (lt_logger s) = spec_state level (h_ops s)
    \<and> (\<forall>t. lt_configs s t = C_idle \<longrightarrow> ops_of t (h_ops s) = h_called s t)
    \<and> (\<forall>t u. in_section (lt_configs s t) \<and> in_section (lt_configs s u) \<longrightarrow> t = u)"
proof -
  have inv: "threads_inv level s" by (rule threads_inv_reachable [OF assms])
  then have "ops_of t (h_ops s) = h_called s t" if "lt_configs s t = C_idle" for t
    using that unfolding threads_inv_def program_order_def by (metis append_Nil2 pending.simps(6))
  moreover have "t = u" if "in_section (lt_configs s t)" "in_section (lt_configs s u)" for t u
    using inv that by (simp add: threads_inv_def exclusive_def)
  ultimately show ?thesis using inv by (auto simp: threads_inv_def refines_spec_def)
qed

theorem logger_config_linearizable_witness:
  "\<exists>s. logger_reachable Log_kInfo s \<and> snd (Logger_abs (lt_logger s)) = [10, 20] \<and> h_called s 2 = [Add_sink (Some 20)]"
proof -
  obtain s where run: "logger_run sample_schedule (LogThreads_init Log_kInfo) = Some s"
    and idle: "lt_configs s 2 = C_idle"
    and ops: "h_ops s = [(1, Add_sink (Some 10)), (2, Add_sink (Some 20))]"
    using sample_schedule_run by blast
  have reach: "logger_reachable Log_kInfo s" by (rule logger_run_reachable [OF run]) simp
  have "snd (Logger_abs (lt_logger s)) = [10, 20]" "h_called s 2 = [Add_sink (Some 20)]"
    using logger_config_linearizable [OF reach] ops idle by (auto simp: spec_state_def ops_of_def)
  with reach show ?thesis by blast
qed

text \<open>No deadlock: a writer that has a call open can always make its next access, whoever holds the
  configuration lock, and while a configuration call is open some configuring thread can move.\<close>

theorem logger_threads_progress:
  assumes "logger_reachable level s"
  shows "(\<forall>t. lt_writers s t \<noteq> L_idle \<and> (\<forall>r lo m n. lt_writers s t \<noteq> L_done r lo m n)
      \<longrightarrow> writer_step t (lt_writers s t) s \<noteq> None)
    \<and> ((\<exists>t. lt_configs s t \<noteq> C_idle) \<longrightarrow> (\<exists>t. config_step t (lt_configs s t) s \<noteq> None))"
proof -
  have "writer_step t p s \<noteq> None" if "p \<noteq> L_idle" "\<forall>r lo m n. p \<noteq> L_done r lo m n" for t p
    using that by (cases p) (simp_all add: Let_def)
  moreover have "\<exists>u. config_step u (lt_configs s u) s \<noteq> None" if "lt_configs s t \<noteq> C_idle" for t
  proof (cases "lt_mutex s")
    case None
    then have "config_step t (lt_configs s t) s \<noteq> None"
      using that by (cases "(t, lt_configs s t, s)" rule: config_step.cases) (auto simp: Let_def)
    then show ?thesis by blast
  next
    case (Some u)
    then have "in_section (lt_configs s u)"
      using threads_inv_reachable [OF assms] by (simp add: threads_inv_def exclusive_def)
    then have "config_step u (lt_configs s u) s \<noteq> None"
      by (cases "lt_configs s u") (simp_all add: Let_def)
    then show ?thesis by blast
  qed
  ultimately show ?thesis by blast
qed

theorem logger_threads_progress_witness:
  "\<exists>s. logger_reachable Log_kInfo s \<and> lt_mutex s = Some 1 \<and> (\<exists>t. config_step t (lt_configs s t) s \<noteq> None)
     \<and> writer_step 3 (lt_writers s 3) s \<noteq> None"
proof -
  let ?es = "[Call_config 1 Clear_sinks, Call_write 3 sample_record, Step_config 1, Step_config 1]"
  have "\<exists>s. logger_run ?es (LogThreads_init Log_kInfo) = Some s \<and> lt_mutex s = Some 1
      \<and> lt_configs s 1 = C_load None \<and> lt_writers s 3 = L_load sample_record 0 None"
    by (simp add: LogThreads_init_def)
  then obtain s where run: "logger_run ?es (LogThreads_init Log_kInfo) = Some s"
    and st: "lt_mutex s = Some 1" "lt_configs s 1 = C_load None" "lt_writers s 3 = L_load sample_record 0 None"
    by blast
  have reach: "logger_reachable Log_kInfo s" by (rule logger_run_reachable [OF run]) simp
  have "lt_configs s 1 \<noteq> C_idle" "lt_writers s 3 \<noteq> L_idle" "\<forall>r lo m n. lt_writers s 3 \<noteq> L_done r lo m n"
    using st by simp_all
  then show ?thesis using logger_threads_progress [OF reach] reach st(1) by blast
qed

section \<open>Threads at the registry of the default writer\<close>

text \<open>The calls of \<^verbatim>\<open>setDefaultLogger\<close> and \<^verbatim>\<open>setDefaultLogWriter\<close>, and where a thread stands: before the call,
  before \<^verbatim>\<open>setDefaultLogWriterRef\<close> with the erased writer, and between the push of its snapshot and
  the store of the pointer. The lock is held for the push alone, so the push is one access.\<close>

datatype registry_call = Set_logger "nat option" | Set_writer "LogWorld Writer option"

datatype registry_pc =
    R_idle
  | R_start registry_call
  | R_ref "LogWorld ErasedLogWriter"
  | R_store nat

definition writer_ref :: "'w Writer option \<Rightarrow> 'w ErasedLogWriter" where
  "writer_ref writer =
     (case writer of
        None \<Rightarrow> ErasedLogWriter_null
      | Some x \<Rightarrow> \<lparr>ew_object = True, ew_isEnabledFn = Some (wr_isEnabled x), ew_writeFn = logWriteFn x,
          ew_writeStructuredFn = structuredLogWriteFn x\<rparr>)"

fun registry_step ::
  "(double \<Rightarrow> string) \<Rightarrow> registry_pc \<Rightarrow> LogWorld Registry \<Rightarrow> (registry_pc \<times> LogWorld Registry) option" where
  "registry_step fmt R_idle g = None"
| "registry_step fmt (R_start (Set_logger logger)) g =
     Some (R_ref (writer_ref (map_option (logger_as_writer fmt) logger)), g\<lparr>g_defaultLogger := logger\<rparr>)"
| "registry_step fmt (R_start (Set_writer writer)) g = Some (R_ref (writer_ref writer), g)"
| "registry_step fmt (R_ref writer) g =
     (if \<not> ew_object writer then Some (R_idle, g\<lparr>g_defaultLogWriterPtr := None\<rparr>)
      else Some (R_store (length (g_defaultWriterSnapshots g)),
             g\<lparr>g_defaultWriterSnapshots := g_defaultWriterSnapshots g @ [writer]\<rparr>))"
| "registry_step fmt (R_store i) g = Some (R_idle, g\<lparr>g_defaultLogWriterPtr := Some i\<rparr>)"

record RegistryThreads =
  rt_registry :: "LogWorld Registry"
  rt_threads :: "nat \<Rightarrow> registry_pc"
  h_calls :: "registry_call list"

definition RegistryThreads_init :: RegistryThreads where
  "RegistryThreads_init = \<lparr>rt_registry = Registry_init, rt_threads = (\<lambda>_. R_idle), h_calls = []\<rparr>"

inductive registry_moves :: "(double \<Rightarrow> string) \<Rightarrow> RegistryThreads \<Rightarrow> RegistryThreads \<Rightarrow> bool" for fmt where
  call: "rt_threads s t = R_idle \<Longrightarrow>
     registry_moves fmt s (s\<lparr>rt_threads := (rt_threads s)(t := R_start c), h_calls := h_calls s @ [c]\<rparr>)"
| step: "registry_step fmt (rt_threads s t) (rt_registry s) = Some (p, g) \<Longrightarrow>
     registry_moves fmt s (s\<lparr>rt_registry := g, rt_threads := (rt_threads s)(t := p)\<rparr>)"

definition registry_reachable :: "(double \<Rightarrow> string) \<Rightarrow> RegistryThreads \<Rightarrow> bool" where
  "registry_reachable fmt s \<longleftrightarrow> (registry_moves fmt)\<^sup>*\<^sup>* RegistryThreads_init s"










fun registry_run ::
  "(double \<Rightarrow> string) \<Rightarrow> (nat \<times> registry_call option) list \<Rightarrow> RegistryThreads \<Rightarrow> RegistryThreads option" where
  "registry_run fmt [] s = Some s"
| "registry_run fmt ((t, Some c) # es) s =
     (case rt_threads s t of
        R_idle \<Rightarrow> registry_run fmt es (s\<lparr>rt_threads := (rt_threads s)(t := R_start c), h_calls := h_calls s @ [c]\<rparr>)
      | _ \<Rightarrow> None)"
| "registry_run fmt ((t, None) # es) s =
     (case registry_step fmt (rt_threads s t) (rt_registry s) of
        None \<Rightarrow> None
      | Some (p, g) \<Rightarrow> registry_run fmt es (s\<lparr>rt_registry := g, rt_threads := (rt_threads s)(t := p)\<rparr>))"

lemma registry_run_reachable:
  "registry_run fmt es s = Some s' \<Longrightarrow> registry_reachable fmt s \<Longrightarrow> registry_reachable fmt s'"
  unfolding registry_reachable_def
proof (induction fmt es s rule: registry_run.induct)
  case (2 fmt t c es s)
  then show ?case
    by (auto split: registry_pc.splits dest: registry_moves.call [of s t fmt c]
        intro: rtranclp.rtrancl_into_rtrancl)
next
  case (3 fmt t es s)
  from "3.prems"(1) obtain p g where st: "registry_step fmt (rt_threads s t) (rt_registry s) = Some (p, g)"
    and rest: "registry_run fmt es (s\<lparr>rt_registry := g, rt_threads := (rt_threads s)(t := p)\<rparr>) = Some s'"
    by (auto split: option.splits)
  show ?case
    by (rule "3.IH" [OF st refl rest])
      (rule rtranclp.rtrancl_into_rtrancl [OF "3.prems"(2) registry_moves.step [OF st]])
qed simp

text \<open>Thread 1 sets the logger \<open>a\<close> and thread 2 the logger \<open>b\<close>: both store the logger, 2 last, then 2 publishes
  its writer before 1 does.\<close>

definition racing_calls :: "nat \<Rightarrow> nat \<Rightarrow> (nat \<times> registry_call option) list" where
  "racing_calls a b =
     [(1, Some (Set_logger (Some a))), (2, Some (Set_logger (Some b))),
      (1, None), (2, None), (2, None), (2, None), (1, None), (1, None)]"

lemma racing_calls_run:
  "\<exists>s. registry_run fmt (racing_calls a b) RegistryThreads_init = Some s \<and> rt_threads s = (\<lambda>_. R_idle)
     \<and> defaultLogger (rt_registry s) = b \<and> defaultLogWriterPtr builtin (rt_registry s) = loggerWriterRef fmt a"
  by (simp add: racing_calls_def RegistryThreads_init_def Registry_init_def writer_ref_def defaultLogger_def
      defaultLogWriterPtr_def loggerWriterRef_def logger_as_writer_def logWriteFn_def structuredLogWriteFn_def
      fun_eq_iff)

text \<open>C32: the two stores of \<^verbatim>\<open>setDefaultLogger\<close> are not one action: two calls for the loggers \<open>a\<close> and \<open>b\<close> can
  finish with \<^verbatim>\<open>defaultLogger()\<close> being \<open>b\<close> while every record written through the default writer goes to \<open>a\<close>.\<close>

theorem default_logger_race:
  "\<exists>s. registry_reachable fmt s \<and> rt_threads s = (\<lambda>_. R_idle) \<and> set (h_calls s) = {Set_logger (Some a), Set_logger (Some b)}
     \<and> defaultLogger (rt_registry s) = b
     \<and> DefaultLogWriter_write (defaultLogWriter builtin (rt_registry s)) = Logger_write a"
proof -
  obtain s where run: "registry_run fmt (racing_calls a b) RegistryThreads_init = Some s"
    and st: "rt_threads s = (\<lambda>_. R_idle)" "defaultLogger (rt_registry s) = b"
      "defaultLogWriterPtr builtin (rt_registry s) = loggerWriterRef fmt a"
    using racing_calls_run by blast
  have "registry_reachable fmt s"
    by (rule registry_run_reachable [OF run]) (simp add: registry_reachable_def)
  moreover have "set (h_calls s) = {Set_logger (Some a), Set_logger (Some b)}"
    using run by (auto simp: racing_calls_def RegistryThreads_init_def writer_ref_def)
  ultimately show ?thesis
    using st by (auto simp: defaultLogWriter_def)
qed


end
