(* ===== verification/Example_Programs.thy ===== *)
theory Example_Programs
  imports Log_Api Otlp_Exporter Traceparent Span_Guard
begin

text \<open>
  Model of the example programs under \<^verbatim>\<open>examples/include/\<close>: \<^verbatim>\<open>e1_log_context.cc\<close>,
  \<^verbatim>\<open>e2_traceparent.cc\<close> and \<^verbatim>\<open>e3_otlp_exporter.cc\<close>. They use the library the way a service does, so
  what they print is a property of the components together: contexts, guards, the default logger with
  its console sink, propagation, and the export over a transport of the caller.

  A program is a function from what its environment chooses to its exit code, the text on its standard
  output and what the main thread has left. The environment is the random state \<open>r\<close> of the main
  thread, the readings of the clock, the name \<open>file\<close> the compiler has for the source, the guard
  \<open>moved\<close> that a move leaves behind and whether the restoration of the context \<open>throws\<close>. The
  destructor of the guard runs on every way out of \<^verbatim>\<open>main\<close> after the span is started.
\<close>

section \<open>The start of a process\<close>

text \<open>The globals with the values their definitions give them; the built-in logger is at the address 0
  and its sink 0 is the console.\<close>

definition process_thread :: "u64 \<Rightarrow> Thread" where
  "process_thread r =
     \<lparr>t_currentContext = t_currentContext_init, t_random = r, g_sampler = None,
      g_spanTimingPolicy = Timing_kDisabled\<rparr>"

definition process_log :: "int \<Rightarrow> LogWorld" where
  "process_log now =
     \<lparr>lw_loggers = (\<lambda>_. Logger_new Log_kTrace)(0 := builtInDefaultLogger), lw_now = now, lw_out = []\<rparr>"

text \<open>What the console sink has written for the records it was given.\<close>

definition console_text :: "LogWorld \<Rightarrow> string" where
  "console_text w = fold (\<lambda>(sink, record) out. if sink = 0 then ConsoleSink_write record out else out) (lw_out w) []"

section \<open>Logging inside a span\<close>

definition e1_log_context ::
  "(double \<Rightarrow> string) \<Rightarrow> (SpanGuard \<Rightarrow> SpanGuard) \<Rightarrow> string \<Rightarrow> u64 \<Rightarrow> int \<Rightarrow> time_point \<Rightarrow> time_point
    \<Rightarrow> bool \<Rightarrow> int \<times> string \<times> SpanGuard \<times> Thread" where
  "e1_log_context fmt moved file r now t1 t2 throws =
     (let (guard, t) = startSpan ''checkout'' t1 (process_thread r);
          w = GALAY_LOG_INFO file 6 ''main'' lw_now (builtInDefaultLogWriterPtr fmt) Registry_init
                (t_currentContext t) (''order accepted '' @ dec_of_int 123) (process_log now);
          (guard, t) = SpanGuard_destroy moved t2 throws guard t
      in (0, console_text w, guard, t))"

section \<open>Propagation\<close>

definition e2_traceparent ::
  "(double \<Rightarrow> string) \<Rightarrow> (SpanGuard \<Rightarrow> SpanGuard) \<Rightarrow> string \<Rightarrow> u64 \<Rightarrow> int \<Rightarrow> time_point \<Rightarrow> time_point
    \<Rightarrow> bool \<Rightarrow> int \<times> string \<times> SpanGuard option \<times> Thread" where
  "e2_traceparent fmt moved file r now t1 t2 throws =
     (case extractTraceparent ''00-4bf92f3577b34da6a3ce929d0e0e4736-00f067aa0ba902b7-01'' ''vendor=value'' of
        Inl _ \<Rightarrow> (1, [], None, process_thread r)
      | Inr inbound \<Rightarrow>
          let (guard, t) = startServerSpan ''GET /orders'' inbound t1 (process_thread r);
              w = GALAY_LOG_INFO file 17 ''main'' lw_now (builtInDefaultLogWriterPtr fmt) Registry_init
                    (t_currentContext t) ''handling inbound request'' (process_log now);
              out = console_text w;
              (code, out) =
                (case currentContext (t_currentContext t) of
                   None \<Rightarrow> (1, out)
                 | Some current \<Rightarrow>
                     let out = out @ ''traceparent='' @ injectTraceparent current @ [CHR 0x0A];
                         out = out @ ''tracestate='' @ injectTracestate current @ [CHR 0x0A]
                     in (0, out));
              (guard, t) = SpanGuard_destroy moved t2 throws guard t
          in (code, out, Some guard, t))"

section \<open>Export over a transport of the caller\<close>

text \<open>\<^verbatim>\<open>std::string::find\<close> finds a text that occurs at some position.\<close>

definition str_contains :: "string \<Rightarrow> string \<Rightarrow> bool" where
  "str_contains s sub = list_ex (\<lambda>i. substr s i (length sub) = sub) [0..<Suc (length s)]"

text \<open>The local variables that the transport captures by reference.\<close>

record E3_locals =
  e3_requests :: nat
  e3_bodyBytes :: nat
  e3_endpoint :: string

definition e3_config :: OtlpHttpExporterConfig where
  "e3_config =
     \<lparr>oc_endpoint = ''http://collector.example:4318/v1/traces'', oc_timeout = 250,
      oc_headers = [\<lparr>hd_name = ''authorization'', hd_value = ''Bearer token''\<rparr>],
      oc_resource_attributes =
        [spanAttribute_string ''service.name'' ''order-service'',
         spanAttribute_string ''deployment.environment'' ''test''],
      oc_scope = \<lparr>is_name = ''order-handler'', is_version = ''1.2.3''\<rparr>\<rparr>"

definition e3_transport :: "E3_locals OtlpHttpTransport" where
  "e3_transport request l =
     (let l = l\<lparr>e3_requests := e3_requests l + 1, e3_endpoint := rq_endpoint request,
                e3_bodyBytes := length (rq_body request)\<rparr>
      in if \<not> str_contains (rq_body request) ''\"traceId\":\"4bf92f3577b34da6a3ce929d0e0e4736\"''
         then (Inr \<lparr>rs_status_code = 500, rs_body = [], rs_error = ''missing trace id''\<rparr>, l)
         else if \<not> str_contains (rq_body request)
                   ''\"key\":\"service.name\",\"value\":{\"stringValue\":\"order-service\"}''
         then (Inr \<lparr>rs_status_code = 500, rs_body = [], rs_error = ''missing service name''\<rparr>, l)
         else (Inr \<lparr>rs_status_code = 200, rs_body = [], rs_error = []\<rparr>, l))"

definition e3_context :: TraceContext where
  "e3_context =
     TraceContext_setParentSpanId
       (TraceContext_new (TraceId_fromHex ''4bf92f3577b34da6a3ce929d0e0e4736'')
         (SpanId_fromHex ''00f067aa0ba902b7'') 0x01 ''vendor=value'')
       (Some (SpanId_fromHex ''1111111111111111''))"

definition e3_otlp_exporter :: "(double \<Rightarrow> string) \<Rightarrow> time_point \<Rightarrow> time_point \<Rightarrow> int \<times> string" where
  "e3_otlp_exporter fmt t1 t2 =
     (let config = e3_config;
          exporter = OtlpHttpExporter_new config (Some e3_transport);
          s = Span_new_traceContext_global ''GET /orders'' e3_context Timing_kDisabled t1;
          s = Span_end t2 s;
          (result, l) = OtlpHttpExporter_exportSpans fmt exporter [s]
                          \<lparr>e3_requests = 0, e3_bodyBytes = 0, e3_endpoint = []\<rparr>
      in if result \<noteq> Export_kSuccess \<or> e3_requests l \<noteq> 1 \<or> e3_endpoint l \<noteq> oc_endpoint config
         then (1, [])
         else (0, ''sent '' @ dec_of_nat (e3_bodyBytes l) @ '' bytes to '' @ e3_endpoint l @ [CHR 0x0A]))"

section \<open>The default logger of a process\<close>

lemma default_logger_prints:
  "console_text (GALAY_LOG_INFO file line function lw_now (builtInDefaultLogWriterPtr fmt) Registry_init slot
     message (process_log now)) =
   ConsoleSink_write
     \<lparr>lr_level = Log_kInfo, lr_message = message,
      lr_source = \<lparr>src_file = file, src_line = line, src_function = function\<rparr>,
      lr_context = makeLogContext (currentContext slot), lr_timestamp = now\<rparr> []"
  by (simp add: GALAY_LOG_INFO_def logInfoAt_def logAt_def Let_def defaultLogWriter_def
      defaultLogWriterPtr_def Registry_init_def DefaultLogWriter_isEnabled_def DefaultLogWriter_write_def
      ErasedLogWriter_isEnabled_def ErasedLogWriter_write_def builtInDefaultLogWriterPtr_def
      loggerWriterRef_def Logger_write_def Logger_publish_def Logger_isEnabled_def process_log_def
      builtInDefaultLogger_def Logger_addSink_def Logger_new_def console_text_def)

lemma span_log_context:
  "lc_traceId (LogContext_of (Span_context s)) = sc_traceId (sp_context s)"
  "lc_spanId (LogContext_of (Span_context s)) = sc_spanId (sp_context s)"
  by (simp_all add: LogContext_of_def LogContext_new_def Span_context_def)

text \<open>The line of a record that is logged while a span is current.\<close>

lemma default_logger_line:
  assumes "currentContext slot = Some (Span_context s)"
  shows "console_text (GALAY_LOG_INFO file line function lw_now (builtInDefaultLogWriterPtr fmt) Registry_init
       slot message (process_log now)) =
     ''level=INFO trace_id='' @ TraceId_toHex (sc_traceId (sp_context s)) @ '' span_id='' @
     SpanId_toHex (sc_spanId (sp_context s)) @ '' file='' @ file @ '':'' @ dec_of_nat line @
     '' msg=\"'' @ message @ ''\"'' @ [CHR 0x0A]"
  by (simp add: default_logger_prints ConsoleSink_write_def makeLogContext_def assms span_log_context Let_def)

text \<open>The guard of the first span of a thread, when it goes.\<close>

context span_starter
begin

lemma first_guard:
  assumes "start (process_thread r) = (g, t)" and "SpanGuard_destroy moved now throws g t' = (g', t'')"
  shows "currentContext (t_currentContext t) = Some (Span_context (m_span g))"
    and "SpanContext_isValid (sp_context (m_span g))"
    and "m_span g' = Span_end now (m_span g)"
    and "t_currentContext t'' = t_currentContext_init"
proof -
  note g = guard_active [of "process_thread r"] guard_saves [of "process_thread r"]
  show "currentContext (t_currentContext t) = Some (Span_context (m_span g))"
    "SpanContext_isValid (sp_context (m_span g))" "m_span g' = Span_end now (m_span g)"
    using activates [of "process_thread r"] span_valid [of "process_thread r"]
      ends [of moved now throws "process_thread r" t'] by (simp_all add: assms)
  have "m_previousContext g = None" "m_previousTracestate g = []"
    using g(2,3) unfolding assms(1) by (simp_all add: process_thread_def t_currentContext_init_def)
  then have "t_currentContext (snd (SpanGuard_destroy moved now throws g t')) = t_currentContext_init"
    using g(1) by (cases throws)
      (simp_all add: assms(1) SpanGuard_destroy_def SpanGuard_restore_active setCurrentContextState_def
        clearCurrentContext_def t_currentContext_init_def)
  then show "t_currentContext t'' = t_currentContext_init" by (simp add: assms(2))
qed

end

section \<open>What the programs print\<close>

text \<open>The first example program exits with 0 and writes one line, which carries the valid ids of the
  span it is in and the place of the call; the span is ended and the thread has no context any more.\<close>

theorem example_log_context:
  "\<exists>guard t. e1_log_context fmt moved file r now t1 t2 throws =
     (0, ''level=INFO trace_id='' @ TraceId_toHex (sc_traceId (sp_context (m_span guard))) @
         '' span_id='' @ SpanId_toHex (sc_spanId (sp_context (m_span guard))) @
         '' file='' @ file @ '':6 msg=\"order accepted 123\"'' @ [CHR 0x0A], guard, t) \<and>
     SpanContext_isValid (sp_context (m_span guard)) \<and> sp_name (m_span guard) = ''checkout'' \<and>
     sp_ended (m_span guard) \<and> t_currentContext t = t_currentContext_init"
proof -
  obtain g t where s: "startSpan ''checkout'' t1 (process_thread r) = (g, t)"
    by (cases "startSpan ''checkout'' t1 (process_thread r)")
  obtain g' t' where d: "SpanGuard_destroy moved t2 throws g t = (g', t')"
    by (cases "SpanGuard_destroy moved t2 throws g t")
  note first = local_span.first_guard [OF s d]
  have name: "sp_name (m_span g) = ''checkout''"
    using s by (auto simp: startSpan_eq SpanGuard_new_def Span_new_def Let_def split: prod.splits)
  have "dec_of_int 123 = ''123''" "dec_of_nat 6 = ''6''" by code_simp+
  then have "e1_log_context fmt moved file r now t1 t2 throws =
     (0, ''level=INFO trace_id='' @ TraceId_toHex (sc_traceId (sp_context (m_span g))) @
         '' span_id='' @ SpanId_toHex (sc_spanId (sp_context (m_span g))) @
         '' file='' @ file @ '':6 msg=\"order accepted 123\"'' @ [CHR 0x0A], g', t')"
    by (simp add: e1_log_context_def s d default_logger_line [OF first(1)])
  then show ?thesis using first(2,4) name by (simp add: first(3))
qed

text \<open>The header of the second program is accepted, and the server span continues its trace with the
  flags of the header.\<close>

definition e2_remote :: TraceContext where
  "e2_remote =
     TraceContext_new (TraceId_fromHex ''4bf92f3577b34da6a3ce929d0e0e4736'')
       (SpanId_fromHex ''00f067aa0ba902b7'') 1 ''vendor=value''"

lemma e2_inbound:
  "extractTraceparent ''00-4bf92f3577b34da6a3ce929d0e0e4736-00f067aa0ba902b7-01'' ''vendor=value'' = Inr e2_remote"
  unfolding e2_remote_def by code_simp

lemma e2_remote_fields:
  "TraceContext_isValid e2_remote"
  "TraceId_toHex (tc_traceId e2_remote) = ''4bf92f3577b34da6a3ce929d0e0e4736''"
  "tc_traceFlags e2_remote = 1" "tc_tracestate e2_remote = ''vendor=value''"
  unfolding e2_remote_def by code_simp+

lemma server_span_keeps_flags:
  assumes "TraceContext_isValid remote" and "g_sampler t = None"
  shows "sc_traceFlags (sp_context (m_span (fst (startServerSpan name remote now t)))) = tc_traceFlags remote"
  by (rule bit_word_eqI)
    (simp add: server_span.flags_bit assms valid_parent_def currentSampler_def builtInSampler_def
      ParentBasedSampler_new_def span_ctx.sampled_bit)

lemma e2_server_span:
  assumes "startServerSpan name e2_remote now (process_thread r) = (g, t)"
  shows "sc_traceId (sp_context (m_span g)) = tc_traceId e2_remote"
    "sc_spanId (sp_context (m_span g)) = fst (SpanId_random r)"
    "sc_parentSpanId (sp_context (m_span g)) = Some (tc_spanId e2_remote)"
    "sc_traceFlags (sp_context (m_span g)) = 1" "sp_tracestate (m_span g) = ''vendor=value''"
proof -
  have valid: "SpanContext_isValid (SpanContext_of e2_remote)" by (simp add: e2_remote_fields)
  note child = server_span.child [OF refl valid, of name now "process_thread r", unfolded assms]
  show "sc_traceId (sp_context (m_span g)) = tc_traceId e2_remote"
    "sc_spanId (sp_context (m_span g)) = fst (SpanId_random r)"
    "sc_parentSpanId (sp_context (m_span g)) = Some (tc_spanId e2_remote)"
    using child(1-3) by (simp_all add: process_thread_def)
  show "sc_traceFlags (sp_context (m_span g)) = 1"
    using server_span_keeps_flags [of e2_remote "process_thread r" name now] assms
    by (simp add: e2_remote_fields process_thread_def)
  show "sp_tracestate (m_span g) = ''vendor=value''"
    using server_span.span_state [of name e2_remote now "process_thread r"] assms
    by (simp add: startServerSpan_state_def e2_remote_fields)
qed

lemma e2_header:
  assumes "startServerSpan name e2_remote now (process_thread r) = (g, t)"
  shows "injectTraceparent (Span_context (m_span g)) =
      ''00-4bf92f3577b34da6a3ce929d0e0e4736-'' @ SpanId_toHex (fst (SpanId_random r)) @ ''-01''"
    "injectTracestate (Span_context (m_span g)) = ''vendor=value''"
proof -
  note c = e2_server_span [OF assms]
  have "TraceContext_isValid (Span_context (m_span g))"
    using server_span.span_valid [of name e2_remote now "process_thread r"] assms
    by (simp add: Span_context_def)
  moreover have "kHexDigits ! unat (drop_bit 4 (1 :: u8)) = CHR ''0''" "kHexDigits ! unat ((1 :: u8) AND 0x0f) = CHR ''1''"
    by code_simp+
  ultimately show "injectTraceparent (Span_context (m_span g)) =
      ''00-4bf92f3577b34da6a3ce929d0e0e4736-'' @ SpanId_toHex (fst (SpanId_random r)) @ ''-01''"
    by (simp add: injectTraceparent_def Span_context_def c e2_remote_fields kSeparator_def)
  show "injectTracestate (Span_context (m_span g)) = ''vendor=value''"
    by (simp add: injectTracestate_def Span_context_def c)
qed

text \<open>C33: the second example program exits with 0; it logs one line with the ids of the server span and
  prints the headers for the next process, with the trace id, the flags and the tracestate it got and
  the new span id. The span is an ended server span below the caller's, and the thread has no context any
  more.\<close>

theorem example_traceparent:
  "let S = SpanId_toHex (fst (SpanId_random r)) in
   \<exists>guard t. e2_traceparent fmt moved file r now t1 t2 throws =
     (0, ''level=INFO trace_id=4bf92f3577b34da6a3ce929d0e0e4736 span_id='' @ S @ '' file='' @ file @
         '':17 msg=\"handling inbound request\"'' @ [CHR 0x0A] @
         ''traceparent=00-4bf92f3577b34da6a3ce929d0e0e4736-'' @ S @ ''-01'' @ [CHR 0x0A] @
         ''tracestate=vendor=value'' @ [CHR 0x0A], Some guard, t) \<and>
     sc_parentSpanId (sp_context (m_span guard)) = Some (SpanId_fromHex ''00f067aa0ba902b7'') \<and>
     sp_kind (m_span guard) = Kind_kServer \<and> sp_ended (m_span guard) \<and> t_currentContext t = t_currentContext_init"
proof -
  obtain g t where s: "startServerSpan ''GET /orders'' e2_remote t1 (process_thread r) = (g, t)"
    by (cases "startServerSpan ''GET /orders'' e2_remote t1 (process_thread r)")
  obtain g' t' where d: "SpanGuard_destroy moved t2 throws g t = (g', t')"
    by (cases "SpanGuard_destroy moved t2 throws g t")
  note first = server_span.first_guard [OF s d]
  note c = e2_server_span [OF s]
  have kind: "sp_kind (m_span g) = Kind_kServer"
    using s by (auto simp: startServerSpan_eq SpanGuard_new_def Span_setKind_def Let_def split: prod.splits)
  have parent: "tc_spanId e2_remote = SpanId_fromHex ''00f067aa0ba902b7''"
    by (simp add: e2_remote_def TraceContext_new_def)
  have nums: "dec_of_nat 17 = ''17''" by code_simp
  show ?thesis
    unfolding e2_traceparent_def e2_inbound Let_def
    by (simp add: s d default_logger_line [OF first(1)] first e2_header [OF s] c e2_remote_fields nums kind parent)
qed

text \<open>The body of the request of the third program.\<close>

definition e3_span :: "time_point \<Rightarrow> time_point \<Rightarrow> Span" where
  "e3_span t1 t2 = Span_end t2 (Span_new_traceContext_global ''GET /orders'' e3_context Timing_kDisabled t1)"

lemma e3_body:
  "buildOtlpJsonBody fmt [e3_span t1 t2] e3_config =
     ''{\"resourceSpans\":[{\"resource\":{\"attributes\":[{'' @
     ''\"key\":\"service.name\",\"value\":{\"stringValue\":\"order-service\"}'' @
     ''},{\"key\":\"deployment.environment\",\"value\":{\"stringValue\":\"test\"}}]},'' @
     ''\"scopeSpans\":[{\"scope\":{\"name\":\"order-handler\",\"version\":\"1.2.3\"},\"spans\":[{'' @
     ''\"traceId\":\"4bf92f3577b34da6a3ce929d0e0e4736\"'' @
     '',\"spanId\":\"00f067aa0ba902b7\",\"name\":\"GET /orders\",\"kind\":\"SPAN_KIND_INTERNAL\",'' @
     ''\"parentSpanId\":\"1111111111111111\",\"traceState\":\"vendor=value\"}]}]}]}''"
  by code_simp

lemma str_contains_iff: "str_contains s sub \<longleftrightarrow> (\<exists>a b. s = a @ sub @ b)"
proof
  assume "str_contains s sub"
  then obtain i where "take (length sub) (drop i s) = sub"
    by (auto simp: str_contains_def list_ex_iff substr_def)
  then have "s = take i s @ sub @ drop (length sub) (drop i s)"
    by (metis append_take_drop_id)
  then show "\<exists>a b. s = a @ sub @ b" by blast
next
  assume "\<exists>a b. s = a @ sub @ b"
  then obtain a b where s: "s = a @ sub @ b" by blast
  then show "str_contains s sub"
    by (auto simp: str_contains_def list_ex_iff substr_def intro!: bexI [of _ "length a"])
qed

lemma str_contains_here: "str_contains (a @ sub @ b) sub"
  by (auto simp: str_contains_iff)

lemma str_contains_later: "str_contains s sub \<Longrightarrow> str_contains (a @ s) sub"
  by (metis str_contains_iff append_assoc)

text \<open>The third example program exits with 0: its transport gets one request with the trace id and the
  service name in the body, answers it with success, and the program prints the size of the body and
  the endpoint.\<close>

theorem example_otlp_exporter:
  "e3_otlp_exporter fmt t1 t2 =
     (0, ''sent 440 bytes to http://collector.example:4318/v1/traces'' @ [CHR 0x0A])"
proof -
  let ?b = "buildOtlpJsonBody fmt [e3_span t1 t2] e3_config"
  have "str_contains ?b ''\"traceId\":\"4bf92f3577b34da6a3ce929d0e0e4736\"''"
    unfolding e3_body by (rule str_contains_later, rule str_contains_later, rule str_contains_later, rule str_contains_here)
  moreover have "str_contains ?b ''\"key\":\"service.name\",\"value\":{\"stringValue\":\"order-service\"}''"
    unfolding e3_body by (rule str_contains_here)
  moreover have "length ?b = 440" unfolding e3_body by simp
  moreover have "dec_of_nat 440 = ''440''" by code_simp
  ultimately show ?thesis
    by (simp add: e3_otlp_exporter_def e3_span_def [symmetric] OtlpHttpExporter_exportSpans_def
        OtlpHttpExporter_new_def e3_transport_def Let_def, simp add: e3_config_def)
qed

end
