(* ===== verification/Spec2Isabelle.thy ===== *)
theory Spec2Isabelle
  imports Traceparent Span_Types Diagnostics Batch_Calls Batch_Success Batch_File Batch_Otlp Log_Api Log_Threads
    Example_Programs
begin

text \<open>
  A verification of the galay-tracing library: identifiers and contexts of distributed traces, their
  propagation in W3C headers, spans and their guards, sampling, the batch processor and the
  exporters for ended spans, and structured logging that is correlated with spans. The code is C++
  under \<^verbatim>\<open>galay-tracing/\<close>; file names below are relative to that directory.

  \<^bold>\<open>Parts of the program and their theories.\<close>

  \<^item> \<open>Prelude\<close>: machine integers (\<open>u8\<close>, \<open>u64\<close>, \<open>i64\<close>), bytes, substrings, the collections of rules.
  \<^item> \<open>Id_Format\<close>: \<^verbatim>\<open>common/id_format.h\<close>, \<^verbatim>\<open>id_format.cc\<close>. Hexadecimal text and the
    SplitMix64 generator of a thread, at their widths.
  \<^item> \<open>Ids\<close>: \<^verbatim>\<open>common/trace_id.h\<close>, \<^verbatim>\<open>span_id.h\<close>. The locale \<open>hex_id\<close> holds the laws both id classes share.
  \<^item> \<open>Trace_Context\<close>: \<^verbatim>\<open>context/trace_context.h\<close>. The three context records; locale
    \<open>trace_identity\<close>.
  \<^item> \<open>Traceparent\<close>: \<^verbatim>\<open>context/traceparent.h\<close>, \<^verbatim>\<open>traceparent.cc\<close>. Injection and extraction.
  \<^item> \<open>Context_Storage\<close>: \<^verbatim>\<open>context/context_storage.h\<close>, \<^verbatim>\<open>context_storage.cc\<close>,
    \<^verbatim>\<open>adapters/kernel_context.h\<close>. The slot of a thread; locale \<open>scoped_slot\<close>.
  \<^item> \<open>Double64\<close>, \<open>Sampler\<close>: \<^verbatim>\<open>kernel/sampler.h\<close>, \<^verbatim>\<open>sampler.cc\<close>. The samplers and the global one.
  \<^item> \<open>Span_Model\<close>: \<^verbatim>\<open>kernel/span.h\<close>, \<^verbatim>\<open>span.cc\<close>. Spans, attributes, status, timing policies.
  \<^item> \<open>Span_Guard\<close>: \<^verbatim>\<open>kernel/span_guard.h\<close>, \<^verbatim>\<open>span_guard.cc\<close>. Starting spans and the guard with its
    moves; locale \<open>span_starter\<close>, interpreted for both ways to start a span; nested blocks.
  \<^item> \<open>Json\<close>: a reference model of JSON (printer, parser and their inverse laws) that the exporters are
    compared with; locale \<open>json_string_writer\<close>. It models no code of the library.
  \<^item> \<open>Span_Exporter\<close>: \<^verbatim>\<open>kernel/span_exporter.h\<close>, \<^verbatim>\<open>file_span_exporter.h\<close>, \<^verbatim>\<open>file_span_exporter.cc\<close>.
    The exporter interface and the file exporter on a stream with a buffer.
  \<^item> \<open>Otlp_Exporter\<close>: \<^verbatim>\<open>kernel/otlp_http_exporter.h\<close>, \<^verbatim>\<open>otlp_http_exporter.cc\<close>. The body, the headers,
    the transport over the HTTP client, the runtime behind it and the exporter.
  \<^item> \<open>Batch_Processor\<close>: \<^verbatim>\<open>kernel/batch_span_processor.h\<close>, \<^verbatim>\<open>batch_span_processor.cc\<close>. Any number of
    calls of \<^verbatim>\<open>onEnd\<close>, \<^verbatim>\<open>forceFlush\<close> and \<^verbatim>\<open>shutdown\<close> interleaved with the worker, one atomic access
    per step; \<open>Batch_Calls\<close> has the same member functions as whole functions, with lemmas that the steps
    of a call no other thread interrupts are the whole function, \<open>Batch_Runs\<close> executions, \<open>Batch_Progress\<close>
    the progress of the worker in fair runs beside \<^verbatim>\<open>onEnd\<close> calls and the clock (locale \<open>worker_progress\<close>),
    \<open>Batch_Flush\<close> the life of a flush request, \<open>Batch_Success\<close> when a flush succeeds, \<open>Batch_Record\<close> what
    the processor needs of an exporter to say what has been exported and stored (locales
    \<open>recording_exporter\<close> and \<open>storing_exporter\<close>), \<open>Batch_File\<close> and \<open>Batch_Otlp\<close> the compositions with
    the two exporters.
  \<^item> \<open>Span_Types\<close>: what the types of the program guarantee of a span, from its mutators and the guards
    to the exporters.
  \<^item> \<open>Diagnostics\<close>: \<^verbatim>\<open>common/tracing_log.h\<close> and the diagnostics of the export path.
  \<^item> \<open>Log_Record\<close>: \<^verbatim>\<open>log/log_level.h\<close>, \<^verbatim>\<open>log_record.h\<close>, \<^verbatim>\<open>console_sink.cc\<close>,
    \<^verbatim>\<open>common/source_location.h\<close>, \<^verbatim>\<open>adapters/spdlog_sink.cc\<close>.
  \<^item> \<open>Logger\<close>: \<^verbatim>\<open>log/logger.h\<close>, \<^verbatim>\<open>logger.cc\<close>. The logger with its snapshots, writers and the registry;
    locale \<open>log_writer\<close>, interpreted for the logger, the default writer and a borrowed writer.
  \<^item> \<open>Log_Api\<close>: the proxies, functions and macros of \<^verbatim>\<open>log/logger.h\<close>.
  \<^item> \<open>Log_Threads\<close>: the logger and the registry of the default writer under threads, one atomic access
    per step, with the configuration mutex.
  \<^item> \<open>Example_Programs\<close>: \<^verbatim>\<open>examples/include/\<close> beside the library. The three programs, from the
    environment to the exit code and the output.

  Classes are records, enumerations and tagged unions are datatypes, and every operation is a
  function that takes and returns the state it changes. Exceptions, errors and early returns are
  values of option or sum types. Objects whose address matters (guards, loggers) live in a store.

  \<^bold>\<open>What is shown.\<close> Propagation: extraction and injection are inverse, extraction accepts exactly the
  well-formed headers and reports the first bad field, and a request keeps its trace id from header
  to header. Spans: children belong to the trace of their parent, nested spans form a tree with
  distinct ids, and the context of the thread is restored exactly once however guards are moved.
  Sampling: a ratio sampler takes exactly its share of the trace ids. Batching: no span is
  lost or exported twice in any interleaving, every span is accounted for, a flush that succeeds has
  flushed, none is stranded by a shutdown, with an exporter that succeeds a flush fails only after its
  deadline, no wake-up is lost once it is marked, and a shutdown drains the queue. In every run of the
  worker and the \<^verbatim>\<open>onEnd\<close> calls under way, fair to the worker and those calls and with time passing
  freely, a flush that waits is answered, with true if the exporter succeeds and the answer comes by the
  deadline; without a shutdown all accepted spans are exported in the end; and after a shutdown request the
  worker ends once no flush call is under way. In these runs no further call starts. The wake-up by batch
  size can be missed, which an execution shows. A flush through the worker that returned true and a shutdown
  that returned true leave the lines of the spans in the file of the file exporter, not only in the buffer of
  its stream. Every span a guard produces is well-formed. Export: the body is a JSON text that reads
  back as the spans exactly when no attribute, of a span or of the configured resource, is a NaN or an
  infinity, and a line is one when the name has no control characters; the OTLP transport returns the status
  and body of the server exactly when every step succeeds, and throws only when the runtime throws. Logging:
  the sinks get exactly the enabled records in order, with the context of the call; under threads each
  record goes to the sinks of one moment of its call, after its level was enabled at an earlier one,
  configuration calls take effect one by one in
  program order, and an execution shows that two threads that set the default logger can leave it and
  the default writer apart. The example programs print what they are written to show: a
  log line with the ids of its span, the headers for the next process, and the size of the request sent.

  \<^bold>\<open>Parameters and hypotheses.\<close> The queues of moodycamel are arbitrary operations with the law
  \<open>queue_ok\<close>, for progress also \<open>queue_live\<close>; the logger slot of galay-kernel behind the diagnostics has the
  law \<open>kernel_log_ok\<close>; the text of a floating-point number is an arbitrary
  function, for the OTLP body with the law \<open>to_chars_ok\<close> on finite numbers; the HTTP client of
  galay-http, the runtime it needs (whose construction, start, spawn and join may throw), spdlog, the file
  device with what the stream passes on to it, and the clock are arbitrary functions too. Each property with hypotheses has a witness that instantiates them.

  \<^bold>\<open>Bounds.\<close> Integers that can wrap are words. Only the reference JSON parser has fuel, the length of
  its input plus one, and it is shown to be enough for every printed text. Loops of the library are
  total functions, or steps of the worker whose end is proved. The products of the ratio sampler are
  exact, as \<^verbatim>\<open>long double\<close> with 64 bits of precision makes them. Atomic accesses are sequentially
  consistent: the relaxed orderings of the counter \<^verbatim>\<open>size\<close> are not exploited. The clock of the batch
  processor counts nanoseconds and its timeouts milliseconds, both as integers: a deadline is assumed to fit
  into the 64 bits of a time point. The two ids of a root context are drawn in the order of the arguments,
  which C++ leaves open.

  \<^bold>\<open>Not modelled.\<close> The C++ module interface (no code of its own), tests, benchmarks and build
  files; the diagnostics outside the export path, whose messages nothing reads; memory allocation apart
  from the failures the code handles; the formatting of \<^verbatim>\<open>std::format\<close>.
\<close>

section \<open>Tracing across processes\<close>

lemma server_span_context:
  assumes "extractTraceparent v ts = Inr remote" and "startServerSpan name remote now t = (g, t')"
  defines "c \<equiv> Span_context (m_span g)"
  shows "tc_traceId c = tc_traceId remote" "tc_spanId c = sc_spanId (sp_context (m_span g))"
    "tc_traceFlags c = sc_traceFlags (sp_context (m_span g))" "tc_tracestate c = ts"
    "currentContext (t_currentContext t') = Some c" "TraceContext_wf c" "TraceContext_isValid c"
proof -
  have g: "g = fst (startServerSpan name remote now t)" "t' = snd (startServerSpan name remote now t)"
    using assms(2) by simp_all
  note f = extract_Inr_fields [OF assms(1)]
  have remote: "TraceContext_isValid remote" "TraceContext_wf remote"
    using extract_Inr_valid [OF assms(1)] by simp_all
  then have valid: "SpanContext_isValid (SpanContext_of remote)" by simp
  note child = server_span.child [OF refl valid, of name now t]
  show "tc_traceId c = tc_traceId remote" "tc_spanId c = sc_spanId (sp_context (m_span g))"
    "tc_traceFlags c = sc_traceFlags (sp_context (m_span g))"
    using child(1) by (simp_all add: c_def g Span_context_def)
  show "tc_tracestate c = ts"
    using server_span.span_state [of name remote now t] remote(1) f(9)
    by (simp add: c_def g Span_context_def startServerSpan_state_def)
  show "currentContext (t_currentContext t') = Some c"
    using server_span.activates [of name remote now t] by (simp add: c_def g)
  show "TraceContext_wf c"
    using child remote(2) by (simp add: c_def g Span_context_def SpanContext_wf_def TraceContext_wf_def)
  show "TraceContext_isValid c"
    using server_span.span_valid [of name remote now t] by (simp add: c_def g Span_context_def)
qed

text \<open>C15: a request is traced across the process: if the incoming header is accepted and a server span is
  started from it, the header injected from the current context has the trace id of the incoming
  header in lower case, the id of the server span in place of the caller's and the tracestate
  passed on, and the next process extracts exactly the context of the server span.\<close>

theorem request_propagates_trace:
  assumes "extractTraceparent v ts = Inr remote" and "startServerSpan name remote now t = (g, t')"
  shows "\<exists>c. currentContext (t_currentContext t') = Some c \<and>
      take 32 (drop 3 (injectTraceparent c)) = map ascii_lower (take 32 (drop 3 v)) \<and>
      take 16 (drop 36 (injectTraceparent c)) = SpanId_toHex (sc_spanId (sp_context (m_span g))) \<and>
      injectTracestate c = ts \<and>
      (\<exists>c'. extractTraceparent (injectTraceparent c) (injectTracestate c) = Inr c' \<and>
        tc_traceId c' = tc_traceId remote \<and> tc_spanId c' = sc_spanId (sp_context (m_span g)) \<and>
        tc_traceFlags c' = sc_traceFlags (sp_context (m_span g)) \<and> tc_tracestate c' = ts)"
proof -
  note c = server_span_context [OF assms]
  note f = extract_Inr_fields [OF assms(1)]
  have "take 32 (drop 3 (injectTraceparent (Span_context (m_span g)))) = map ascii_lower (take 32 (drop 3 v))"
    using injected_fields(1) [OF c(6,7)] c(1) f(3,4)
    by (simp add: tid.to_hex_from_hex substr_def TraceId_kHexLength_def TraceId_kByteLength_def)
  moreover have "take 16 (drop 36 (injectTraceparent (Span_context (m_span g)))) =
      SpanId_toHex (sc_spanId (sp_context (m_span g)))"
    using injected_fields(2) [OF c(6,7)] c(2) by simp
  moreover have "injectTracestate (Span_context (m_span g)) = ts" using c(4) by (simp add: injectTracestate_def)
  ultimately show ?thesis
    using c extract_injected [OF c(6,7)] by (simp add: TraceContext_setParentSpanId_def)
qed

theorem request_propagates_trace_witness:
  "\<exists>remote c. extractTraceparent ''00-4BF92F3577b34da6a3ce929d0e0e4736-00f067aa0ba902b7-01'' ''k=v'' = Inr remote \<and>
     currentContext (t_currentContext (snd (startServerSpan ''GET'' remote 5 sample_thread))) = Some c \<and>
     take 32 (drop 3 (injectTraceparent c)) = ''4bf92f3577b34da6a3ce929d0e0e4736''"
proof -
  let ?v = "''00-4BF92F3577b34da6a3ce929d0e0e4736-00f067aa0ba902b7-01''"
  have "traceparent_ok ?v" and lower: "map ascii_lower (take 32 (drop 3 ?v)) = ''4bf92f3577b34da6a3ce929d0e0e4736''"
    by code_simp+
  then obtain remote where remote: "extractTraceparent ?v ''k=v'' = Inr remote"
    using extract_accepts by blast
  show ?thesis
    using request_propagates_trace [OF remote prod.collapse [symmetric], of "''GET''" 5 sample_thread]
      remote lower by metis
qed

section \<open>Logs and spans\<close>

text \<open>C27: logs are correlated with spans: what is logged through the default logger while a span guard
  is alive carries the trace id, span id and flags of that span, and after the guard is destroyed
  the records carry the context from before the span again.\<close>

theorem logs_carry_span_ids:
  assumes "slot_ok (t_currentContext t)" and "startSpan name now t = (g, t1)"
  shows "lw_out (logAt lw_now b (setDefaultLogger fmt (Some this) reg) v (t_currentContext t1) loc m w) =
      lw_out w @ (if Logger_isEnabled v (lw_loggers w this) then
        map (\<lambda>s. (s, \<lparr>lr_level = v, lr_message = m, lr_source = loc,
          lr_context = Some \<lparr>lc_traceId = sc_traceId (sp_context (m_span g)),
            lc_spanId = sc_spanId (sp_context (m_span g)),
            lc_traceFlags = sc_traceFlags (sp_context (m_span g))\<rparr>, lr_timestamp = lw_now w\<rparr>))
        (Logger_sinks (lw_loggers w this)) else []) \<and>
    logAt clk b reg' v (t_currentContext (snd (SpanGuard_destroy moved later False g t2))) loc m w' =
      logAt clk b reg' v (t_currentContext t) loc m w'"
proof -
  have g: "g = fst (startSpan name now t)" "t1 = snd (startSpan name now t)" using assms(2) by simp_all
  have ctx: "currentContext (t_currentContext t1) = Some (Span_context (m_span g))"
    using local_span.activates [of name now t] by (simp add: g)
  have "t_currentContext (snd (SpanGuard_destroy moved later False g t2)) = t_currentContext t"
    using local_span.restores [OF assms(1)] by (simp add: g)
  then show ?thesis
    by (simp add: log_api_defs ctx Logger_write_def Logger_publish_world Logger_emitted_def
        LogContext_of_def LogContext_new_def Span_context_def)
qed

text \<open>The built-in logger alone, for the witness.\<close>

definition sample_world :: LogWorld where
  "sample_world = \<lparr>lw_loggers = (\<lambda>_. builtInDefaultLogger), lw_now = 7, lw_out = []\<rparr>"

lemma sample_world_logger:
  "Logger_isEnabled Log_kInfo (lw_loggers sample_world 0)" "Logger_sinks (lw_loggers sample_world 0) = [0]"
  "lw_out sample_world = []"
  by (simp_all add: sample_world_def builtInDefaultLogger_def Logger_new_def Logger_addSink_def
      Logger_isEnabled_def Logger_sinks_def)

theorem logs_carry_span_ids_witness:
  "let (g, t1) = startSpan ''db'' 5 sample_thread;
       out = lw_out (logAt lw_now (builtInDefaultLogWriterPtr (\<lambda>_. []))
         (setDefaultLogger (\<lambda>_. []) (Some 0) Registry_init) Log_kInfo (t_currentContext t1)
         (SourceLocation_current ''a.cc'' 1 ''f'') ''done'' sample_world)
   in map (\<lambda>(s, r). (s, map_option lc_spanId (lr_context r))) out =
        [(0, Some (sc_spanId (sp_context (m_span g))))]"
proof -
  obtain g t1 where start: "startSpan ''db'' 5 sample_thread = (g, t1)" by fastforce
  show ?thesis
    using logs_carry_span_ids [OF sample_thread_slot(3) start,
        of "builtInDefaultLogWriterPtr (\<lambda>_. [])" "\<lambda>_. []" 0 Registry_init Log_kInfo
          "SourceLocation_current ''a.cc'' 1 ''f''" "''done''" sample_world]
    by (simp add: start sample_world_logger)
qed

end
